(* ===== verification/Prelude.thy ===== *)
theory Prelude
  imports Main "HOL-Library.Word" "HOL-Library.List_Lexorder" "HOL-Library.Product_Lexorder"
begin

text \<open>
  Prelude of the development: the machine integer types, Rust's \<open>Result\<close> and its
  combinators, panics and divergence as values, fixed-size chunking of slices, and big-endian bytes,
  with the lemmas every component shares.
\<close>

section \<open>Machine integers\<close>

type_synonym u8 = "8 word"
type_synonym u16 = "16 word"
type_synonym u32 = "32 word"
type_synonym u64 = "64 word"

text \<open>A signed 32-bit integer is a 32-bit word read with \<open>sint\<close>.\<close>

type_synonym i32 = "32 word"

type_synonym bytes = "u8 list"

named_theorems layout \<open>the byte layout of the records the program writes\<close>
named_theorems returning \<open>conditions under which an operation neither panics nor loops\<close>

section \<open>Results and outcomes\<close>

text \<open>
  Rust's \<open>Result<T, E>\<close>. The operator \<open>?\<close> is \<open>andthen\<close>, \<open>Result::map\<close> is
  \<open>map_ok\<close>, \<open>Result::map_err\<close> is \<open>map_err\<close> and \<open>Result::ok\<close> is \<open>to_option\<close>.
\<close>

datatype ('a, 'e) result = Ok 'a | Err 'e

fun andthen :: "('a, 'e) result \<Rightarrow> ('a \<Rightarrow> ('b, 'e) result) \<Rightarrow> ('b, 'e) result" where
  "andthen (Ok x) f = f x"
| "andthen (Err e) f = Err e"

fun map_ok :: "('a \<Rightarrow> 'b) \<Rightarrow> ('a, 'e) result \<Rightarrow> ('b, 'e) result" where
  "map_ok f (Ok x) = Ok (f x)"
| "map_ok f (Err e) = Err e"

fun map_err :: "('e \<Rightarrow> 'f) \<Rightarrow> ('a, 'e) result \<Rightarrow> ('a, 'f) result" where
  "map_err f (Ok x) = Ok x"
| "map_err f (Err e) = Err (f e)"

fun to_option :: "('a, 'e) result \<Rightarrow> 'a option" where
  "to_option (Ok x) = Some x"
| "to_option (Err e) = None"

fun is_ok :: "('a, 'e) result \<Rightarrow> bool" where
  "is_ok (Ok x) = True"
| "is_ok (Err e) = False"

text \<open>
  A loop that pushes \<open>f(x)?\<close> for every element of a slice: it stops at the first error.
\<close>

fun map_try :: "('a \<Rightarrow> ('b, 'e) result) \<Rightarrow> 'a list \<Rightarrow> ('b list, 'e) result" where
  "map_try f [] = Ok []"
| "map_try f (x # xs) =
     andthen (f x) (\<lambda>y. andthen (map_try f xs) (\<lambda>ys. Ok (y # ys)))"

lemma andthen_eq_Ok [simp]: "andthen r f = Ok y \<longleftrightarrow> (\<exists>x. r = Ok x \<and> f x = Ok y)"
  by (cases r) auto

lemma andthen_eq_Err: "andthen r f = Err e \<longleftrightarrow> r = Err e \<or> (\<exists>x. r = Ok x \<and> f x = Err e)"
  by (cases r) auto

lemma map_ok_eq_Ok [simp]: "map_ok f r = Ok y \<longleftrightarrow> (\<exists>x. r = Ok x \<and> y = f x)"
  by (cases r) auto

lemma map_ok_eq_Err [simp]: "map_ok f r = Err e \<longleftrightarrow> r = Err e"
  by (cases r) auto

lemma map_err_eq_Ok [simp]: "map_err f r = Ok y \<longleftrightarrow> r = Ok y"
  by (cases r) auto

lemma map_err_eq_Err [simp]: "map_err f r = Err e \<longleftrightarrow> (\<exists>d. r = Err d \<and> e = f d)"
  by (cases r) auto

lemma to_option_eq_Some [simp]: "to_option r = Some x \<longleftrightarrow> r = Ok x"
  by (cases r) auto

lemma is_ok_iff: "is_ok r \<longleftrightarrow> (\<exists>x. r = Ok x)"
  by (cases r) auto

lemma not_is_ok_iff: "\<not> is_ok r \<longleftrightarrow> (\<exists>e. r = Err e)"
  by (cases r) auto

lemma map_try_Ok_iff:
  "map_try f xs = Ok ys \<longleftrightarrow> list_all2 (\<lambda>x y. f x = Ok y) xs ys"
  by (induction xs arbitrary: ys) (auto simp: list_all2_Cons1)

lemma map_try_length: "map_try f xs = Ok ys \<Longrightarrow> length ys = length xs"
  by (simp add: map_try_Ok_iff list_all2_lengthD)

lemma map_try_all_Ok: "(\<And>x. x \<in> set xs \<Longrightarrow> f x = Ok (g x)) \<Longrightarrow> map_try f xs = Ok (map g xs)"
  by (induction xs) auto

lemma map_try_is_ok: "is_ok (map_try f xs) \<longleftrightarrow> (\<forall>x \<in> set xs. is_ok (f x))"
  by (induction xs) (auto simp: is_ok_iff)

text \<open>
  A panic (\<open>assert!\<close>, \<open>expect\<close>, a slice out of range) is the value \<open>Panic\<close>, a loop that
  never ends the value \<open>Diverge\<close>; a function that can do either returns an \<open>outcome\<close>.
\<close>

datatype 'a outcome = Return 'a | Panic | Diverge

fun and_run :: "'a outcome \<Rightarrow> ('a \<Rightarrow> 'b outcome) \<Rightarrow> 'b outcome" where
  "and_run (Return x) f = f x"
| "and_run Panic f = Panic"
| "and_run Diverge f = Diverge"

text \<open>\<open>?\<close> inside a function that can both fail and panic.\<close>

fun and_try ::
  "('a, 'e) result outcome \<Rightarrow> ('a \<Rightarrow> ('b, 'e) result outcome) \<Rightarrow> ('b, 'e) result outcome"
where
  "and_try (Return (Ok x)) f = f x"
| "and_try (Return (Err e)) f = Return (Err e)"
| "and_try Panic f = Panic"
| "and_try Diverge f = Diverge"

text \<open>\<open>f(x)?\<close> for every element, where \<open>f\<close> can also panic.\<close>

fun map_run :: "('a \<Rightarrow> ('b, 'e) result outcome) \<Rightarrow> 'a list \<Rightarrow> ('b list, 'e) result outcome" where
  "map_run f [] = Return (Ok [])"
| "map_run f (x # xs) =
     and_try (f x) (\<lambda>y. and_try (map_run f xs) (\<lambda>ys. Return (Ok (y # ys))))"

text \<open>\<open>Option::expect\<close>, a loop that may not end, and the slice \<open>xs[..n]\<close>.\<close>

fun expect :: "'a option \<Rightarrow> 'a outcome" where
  "expect (Some x) = Return x"
| "expect None = Panic"

fun looped :: "'a option \<Rightarrow> 'a outcome" where
  "looped (Some x) = Return x"
| "looped None = Diverge"

definition slice_to :: "nat \<Rightarrow> 'a list \<Rightarrow> 'a list outcome" where
  "slice_to n xs = (if n \<le> length xs then Return (take n xs) else Panic)"

text \<open>An operation returns when it neither panics nor runs forever.\<close>

definition returns :: "'a outcome \<Rightarrow> bool" where
  "returns m \<longleftrightarrow> (\<exists>x. m = Return x)"

lemma returns_simps [simp]: "returns (Return x)" "\<not> returns Panic" "\<not> returns Diverge"
  by (simp_all add: returns_def)

lemma and_run_eq_Return [simp]: "and_run m f = Return y \<longleftrightarrow> (\<exists>x. m = Return x \<and> f x = Return y)"
  by (cases m) auto

lemma and_try_eq_Ok [simp]:
  "and_try m f = Return (Ok y) \<longleftrightarrow> (\<exists>x. m = Return (Ok x) \<and> f x = Return (Ok y))"
  by (cases "(m, f)" rule: and_try.cases) auto

lemma and_try_eq_Err:
  "and_try m f = Return (Err e) \<longleftrightarrow>
     m = Return (Err e) \<or> (\<exists>x. m = Return (Ok x) \<and> f x = Return (Err e))"
  by (cases "(m, f)" rule: and_try.cases) auto

lemma expect_eq_Return [simp]: "expect v = Return x \<longleftrightarrow> v = Some x"
  by (cases v) auto

lemma returns_expect [simp]: "returns (expect v) \<longleftrightarrow> v \<noteq> None"
  by (cases v) auto

lemma looped_eq_Return [simp]: "looped v = Return x \<longleftrightarrow> v = Some x"
  by (cases v) auto

lemma returns_looped [simp]: "returns (looped v) \<longleftrightarrow> v \<noteq> None"
  by (cases v) auto

lemma slice_to_eq_Return [simp]: "slice_to n xs = Return ys \<longleftrightarrow> n \<le> length xs \<and> ys = take n xs"
  by (auto simp: slice_to_def)

lemma returns_slice_to [simp]: "returns (slice_to n xs) \<longleftrightarrow> n \<le> length xs"
  by (simp add: slice_to_def)

lemma map_outcome_eq_Return [simp]: "map_outcome f m = Return y \<longleftrightarrow> (\<exists>x. m = Return x \<and> f x = y)"
  by (cases m) auto

lemma returns_map_outcome [simp]: "returns (map_outcome f m) \<longleftrightarrow> returns m"
  by (cases m) auto

lemma returns_and_run:
  "returns (and_run m f) \<longleftrightarrow> (\<exists>x. m = Return x \<and> returns (f x))"
  by (cases m) auto

lemma returns_and_try:
  "returns (and_try m f) \<longleftrightarrow> returns m \<and> (\<forall>x. m = Return (Ok x) \<longrightarrow> returns (f x))"
  by (cases "(m, f)" rule: and_try.cases) auto

lemma and_try_returns [returning]:
  "returns m \<Longrightarrow> (\<And>x. m = Return (Ok x) \<Longrightarrow> returns (f x)) \<Longrightarrow> returns (and_try m f)"
  by (simp add: returns_and_try)

lemma map_run_Ok_iff:
  "map_run f xs = Return (Ok ys) \<longleftrightarrow> list_all2 (\<lambda>x y. f x = Return (Ok y)) xs ys"
  by (induction xs arbitrary: ys) (auto simp: list_all2_Cons1)

lemma map_run_returns [returning]:
  "(\<And>x. x \<in> set xs \<Longrightarrow> returns (f x)) \<Longrightarrow> returns (map_run f xs)"
  by (induction xs) (auto simp: returns_and_try)

section \<open>Chunks of a slice\<close>

text \<open>
  \<open>slice::chunks(n)\<close>: consecutive pieces of \<open>n\<close> elements, the last one shorter when the
  length is no multiple of \<open>n\<close>. A chunk size of 0 panics in Rust; every use is 2, 3 or 16.
\<close>

function chunks :: "nat \<Rightarrow> 'a list \<Rightarrow> 'a list list" where
  "chunks n xs = (if n = 0 \<or> xs = [] then [] else take n xs # chunks n (drop n xs))"
  by pat_completeness auto
termination
  by (relation "measure (\<lambda>(n, xs). length xs)") auto

declare chunks.simps [simp del]

lemma chunks_Nil [simp]: "chunks n [] = []"
  by (subst chunks.simps) simp

lemma chunks_step: "0 < n \<Longrightarrow> xs \<noteq> [] \<Longrightarrow> chunks n xs = take n xs # chunks n (drop n xs)"
  by (subst chunks.simps) simp

lemma chunks_append: "0 < n \<Longrightarrow> length xs = n \<Longrightarrow> chunks n (xs @ ys) = xs # chunks n ys"
  by (subst chunks_step) auto

lemma concat_chunks: "0 < n \<Longrightarrow> concat (chunks n xs) = xs"
proof (induction n xs rule: chunks.induct)
  case (1 n xs)
  then show ?case by (cases "xs = []") (simp_all add: chunks_step)
qed

lemma chunks_lengths: "c \<in> set (chunks n xs) \<Longrightarrow> 0 < length c \<and> length c \<le> n"
proof (induction n xs rule: chunks.induct)
  case (1 n xs)
  then show ?case
    by (cases "n = 0 \<or> xs = []") (auto simp: chunks.simps [of n xs])
qed

lemma chunks_even:
  "n dvd length xs \<Longrightarrow> c \<in> set (chunks n xs) \<Longrightarrow> length c = n"
proof (induction n xs rule: chunks.induct)
  case (1 n xs)
  show ?case
  proof (cases "n = 0 \<or> xs = []")
    case True
    with "1.prems" show ?thesis by (simp add: chunks.simps [of n xs])
  next
    case False
    with "1.prems"(1) have le: "n \<le> length xs" by (auto intro: dvd_imp_le)
    with "1.prems"(1) have "n dvd length (drop n xs)" by (simp add: dvd_diff_nat)
    with False le 1 show ?thesis by (auto simp: chunks.simps [of n xs])
  qed
qed

lemma chunks_map: "chunks n (map f xs) = map (map f) (chunks n xs)"
proof (induction n xs rule: chunks.induct)
  case (1 n xs)
  show ?case
  proof (cases "n = 0 \<or> xs = []")
    case True
    then show ?thesis by (auto simp: chunks.simps [of 0])
  next
    case False
    then show ?thesis using "1.IH" by (simp add: chunks_step take_map drop_map)
  qed
qed

lemma chunks_offset: "0 < n \<Longrightarrow> i < length (chunks n xs) \<Longrightarrow> i * n < length xs"
proof (induction n xs arbitrary: i rule: chunks.induct)
  case (1 n xs)
  then have ne: "xs \<noteq> []" by (subst (asm) (2) chunks.simps) (auto split: if_splits)
  show ?case
  proof (cases i)
    case (Suc j)
    with 1(3) ne have "j < length (chunks n (drop n xs))"
      by (subst (asm) chunks.simps) (auto split: if_splits)
    with 1 ne have "j * n < length (drop n xs)" by simp
    with Suc show ?thesis by simp
  qed (use ne in simp)
qed

lemma chunks_elems: "c \<in> set (chunks n xs) \<Longrightarrow> 0 < n \<Longrightarrow> set c \<subseteq> set xs"
  using concat_chunks [of n xs] by (metis UN_upper set_concat)

section \<open>Big-endian bytes\<close>

text \<open>
  \<open>to_be_bytes\<close> of an integer of \<open>n\<close> bytes, most significant first, and the number a
  sequence of bytes denotes (\<open>from_be_bytes\<close>).
\<close>

fun be_bytes :: "nat \<Rightarrow> 'a::len word \<Rightarrow> bytes" where
  "be_bytes 0 w = []"
| "be_bytes (Suc n) w = ucast (drop_bit (8 * n) w) # be_bytes n w"

definition of_be :: "bytes \<Rightarrow> nat" where
  "of_be bs = foldl (\<lambda>acc b. acc * 256 + unat b) 0 bs"

lemma length_be_bytes [simp]: "length (be_bytes n w) = n"
  by (induction n) auto

lemma be_bytes_2: "be_bytes 2 v = [ucast (drop_bit 8 v), ucast v]"
  by (simp add: numeral_2_eq_2)

lemma be_bytes_4:
  "be_bytes 4 v = [ucast (drop_bit 24 v), ucast (drop_bit 16 v), ucast (drop_bit 8 v), ucast v]"
proof -
  have "(4 :: nat) = Suc (Suc (Suc (Suc 0)))" by simp
  then show ?thesis by (simp only: be_bytes.simps) simp
qed

lemma foldl_of_be:
  "foldl (\<lambda>acc b. acc * 256 + unat b) a bs = a * 256 ^ length bs + of_be (bs :: bytes)"
proof (induction bs arbitrary: a)
  case Nil
  then show ?case by (simp add: of_be_def)
next
  case (Cons b bs)
  have "foldl (\<lambda>acc b. acc * 256 + unat b) a (b # bs)
      = (a * 256 + unat b) * 256 ^ length bs + of_be bs"
    using Cons.IH [of "a * 256 + unat b"] by simp
  moreover have "of_be (b # bs) = unat b * 256 ^ length bs + of_be bs"
    using Cons.IH [of "unat b"] by (simp add: of_be_def)
  ultimately show ?case by (simp add: algebra_simps)
qed

lemma of_be_Nil [simp]: "of_be [] = 0"
  by (simp add: of_be_def)

lemma of_be_Cons: "of_be (b # bs) = unat b * 256 ^ length bs + of_be bs"
  using foldl_of_be [of "unat b" bs] by (simp add: of_be_def)

lemma of_be_less: "of_be bs < 256 ^ length bs"
proof (induction bs)
  case (Cons b bs)
  have "unat b < 256" using unsigned_less [of b, where 'a = nat] by simp
  then have "unat b * 256 ^ length bs + of_be bs < (unat b + 1) * 256 ^ length bs"
    using Cons.IH by simp
  also have "\<dots> \<le> 256 * 256 ^ length bs"
    using \<open>unat b < 256\<close> by (intro mult_right_mono) auto
  finally show ?case by (simp add: of_be_Cons)
qed simp

lemma of_be_be_bytes: "of_be (be_bytes n w) = unat w mod 256 ^ n"
proof (induction n)
  case (Suc n)
  have p: "(256 :: nat) ^ n = 2 ^ (8 * n)" by (simp add: power_mult)
  have "unat (ucast (drop_bit (8 * n) w) :: u8) = (unat w div 256 ^ n) mod 256"
    by (simp add: unsigned_ucast_eq take_bit_eq_mod unat_drop_bit_eq p
        drop_bit_eq_div [where 'a = nat])
  then have "of_be (be_bytes (Suc n) w)
      = (unat w div 256 ^ n) mod 256 * 256 ^ n + unat w mod 256 ^ n"
    using Suc.IH by (simp add: of_be_Cons)
  also have "\<dots> = unat w mod (256 ^ n * 256)"
    by (subst mod_mult2_eq) simp
  finally show ?case by (simp add: mult.commute)
qed simp

text \<open>A value of exactly \<open>n\<close> bytes is read back unchanged.\<close>

lemma of_be_be_bytes_exact:
  "LENGTH('a) \<le> 8 * n \<Longrightarrow> of_be (be_bytes n (w :: 'a::len word)) = unat w"
proof -
  assume le: "LENGTH('a) \<le> 8 * n"
  have "unat w < 2 ^ LENGTH('a)" by (rule unsigned_less)
  also have "\<dots> \<le> 2 ^ (8 * n)" using le by (simp add: power_increasing)
  also have "\<dots> = 256 ^ n" by (simp add: power_mult)
  finally show ?thesis by (simp add: of_be_be_bytes)
qed

lemma be_bytes_inj:
  "LENGTH('a) \<le> 8 * n \<Longrightarrow> be_bytes n v = be_bytes n w \<Longrightarrow> v = (w :: 'a::len word)"
  by (metis of_be_be_bytes_exact unsigned_word_eqI)

lemma sint_eq_iff [simp]: "sint v = sint w \<longleftrightarrow> v = (w :: 'a::len word)"
  by (auto intro: signed_word_eqI)

end
