(* ===== verification/RustStd.thy ===== *)
theory RustStd
  imports Prelude
begin

text \<open>
  The part of Rust's standard library the program calls: \<open>str\<close> and its UTF-8 bytes, white
  space, \<open>trim\<close>, \<open>split\<close>, \<open>strip_prefix\<close>, ASCII case folding, integer parsing with its
  four error kinds, decimal and hexadecimal formatting, and the parsers and the display of
  IP addresses.
\<close>

section \<open>Strings\<close>

text \<open>
  A \<open>char\<close> is a Unicode scalar value, a \<open>str\<close> the sequence of its characters. The byte view
  (\<open>as_bytes\<close>, \<open>len\<close>) is the UTF-8 encoding \<open>utf8\<close>. \<open>lit\<close> turns an ASCII literal into a
  \<open>str\<close>.
\<close>

type_synonym rchar = nat
type_synonym rstr = "rchar list"

definition lit :: "string \<Rightarrow> rstr" where
  "lit s = map of_char s"

definition is_scalar :: "rchar \<Rightarrow> bool" where
  "is_scalar c \<longleftrightarrow> c < 0xD800 \<or> (0xE000 \<le> c \<and> c < 0x110000)"

definition valid_str :: "rstr \<Rightarrow> bool" where
  "valid_str s \<longleftrightarrow> list_all is_scalar s"

definition utf8_char :: "rchar \<Rightarrow> bytes" where
  "utf8_char c =
     (if c < 0x80 then [of_nat c]
      else if c < 0x800 then [of_nat (0xC0 + c div 64), of_nat (0x80 + c mod 64)]
      else if c < 0x10000 then
        [of_nat (0xE0 + c div 4096), of_nat (0x80 + c div 64 mod 64), of_nat (0x80 + c mod 64)]
      else
        [of_nat (0xF0 + c div 262144), of_nat (0x80 + c div 4096 mod 64),
         of_nat (0x80 + c div 64 mod 64), of_nat (0x80 + c mod 64)])"

definition utf8 :: "rstr \<Rightarrow> bytes" where
  "utf8 s = concat (map utf8_char s)"

text \<open>\<open>str::len\<close> counts bytes, not characters.\<close>

definition str_len :: "rstr \<Rightarrow> nat" where
  "str_len s = length (utf8 s)"

text \<open>\<open>str::from_utf8\<close>: strict decoding, no overlong form, no surrogate.\<close>

definition cont_byte :: "u8 \<Rightarrow> bool" where
  "cont_byte b \<longleftrightarrow> 0x80 \<le> b \<and> b < 0xC0"

fun from_utf8 :: "bytes \<Rightarrow> rstr option" where
  "from_utf8 [] = Some []"
| "from_utf8 (b0 # rest) =
     (if b0 < 0x80 then map_option ((#) (unat b0)) (from_utf8 rest)
      else if 0xC2 \<le> b0 \<and> b0 < 0xE0 then
        (case rest of
           b1 # r \<Rightarrow>
             if cont_byte b1
             then map_option ((#) ((unat b0 - 0xC0) * 64 + (unat b1 - 0x80))) (from_utf8 r)
             else None
         | _ \<Rightarrow> None)
      else if 0xE0 \<le> b0 \<and> b0 < 0xF0 then
        (case rest of
           b1 # b2 # r \<Rightarrow>
             let c = (unat b0 - 0xE0) * 4096 + (unat b1 - 0x80) * 64 + (unat b2 - 0x80) in
             if cont_byte b1 \<and> cont_byte b2 \<and> 0x800 \<le> c \<and> is_scalar c
             then map_option ((#) c) (from_utf8 r) else None
         | _ \<Rightarrow> None)
      else if 0xF0 \<le> b0 \<and> b0 < 0xF5 then
        (case rest of
           b1 # b2 # b3 # r \<Rightarrow>
             let c = (unat b0 - 0xF0) * 262144 + (unat b1 - 0x80) * 4096
                       + (unat b2 - 0x80) * 64 + (unat b3 - 0x80) in
             if cont_byte b1 \<and> cont_byte b2 \<and> cont_byte b3 \<and> 0x10000 \<le> c \<and> c < 0x110000
             then map_option ((#) c) (from_utf8 r) else None
         | _ \<Rightarrow> None)
      else None)"

section \<open>Character classes and case folding\<close>

definition is_ascii :: "rchar \<Rightarrow> bool" where
  "is_ascii c \<longleftrightarrow> c < 128"

text \<open>\<open>char::is_whitespace\<close>, the Unicode property White_Space.\<close>

definition is_whitespace :: "rchar \<Rightarrow> bool" where
  "is_whitespace c \<longleftrightarrow>
     (9 \<le> c \<and> c \<le> 13) \<or> c = 32 \<or> c = 0x85 \<or> c = 0xA0 \<or> c = 0x1680
     \<or> (0x2000 \<le> c \<and> c \<le> 0x200A) \<or> c = 0x2028 \<or> c = 0x2029 \<or> c = 0x202F
     \<or> c = 0x205F \<or> c = 0x3000"

text \<open>\<open>char::is_ascii_whitespace\<close>: space, tab, line feed, form feed, carriage return.\<close>

definition is_ascii_whitespace :: "rchar \<Rightarrow> bool" where
  "is_ascii_whitespace c \<longleftrightarrow> c = 32 \<or> c = 9 \<or> c = 10 \<or> c = 12 \<or> c = 13"

definition is_ascii_hexdigit :: "rchar \<Rightarrow> bool" where
  "is_ascii_hexdigit c \<longleftrightarrow>
     (48 \<le> c \<and> c \<le> 57) \<or> (65 \<le> c \<and> c \<le> 70) \<or> (97 \<le> c \<and> c \<le> 102)"

definition upper_char :: "rchar \<Rightarrow> rchar" where
  "upper_char c = (if 97 \<le> c \<and> c \<le> 122 then c - 32 else c)"

definition lower_char :: "rchar \<Rightarrow> rchar" where
  "lower_char c = (if 65 \<le> c \<and> c \<le> 90 then c + 32 else c)"

definition to_ascii_uppercase :: "rstr \<Rightarrow> rstr" where
  "to_ascii_uppercase s = map upper_char s"

definition to_ascii_lowercase :: "rstr \<Rightarrow> rstr" where
  "to_ascii_lowercase s = map lower_char s"

lemma to_ascii_uppercase_idem [simp]:
  "to_ascii_uppercase (to_ascii_uppercase s) = to_ascii_uppercase s"
  by (auto simp: to_ascii_uppercase_def upper_char_def)

lemma to_ascii_lowercase_idem [simp]:
  "to_ascii_lowercase (to_ascii_lowercase s) = to_ascii_lowercase s"
  by (auto simp: to_ascii_lowercase_def lower_char_def)

section \<open>Byte lengths\<close>

lemma utf8_append [simp]: "utf8 (s @ t) = utf8 s @ utf8 t"
  by (simp add: utf8_def)

lemma str_len_append [simp]: "str_len (s @ t) = str_len s + str_len t"
  by (simp add: str_len_def)

lemma str_len_Cons: "str_len (c # s) = length (utf8_char c) + str_len s"
  by (simp add: str_len_def utf8_def)

lemma str_len_Nil [simp]: "str_len [] = 0"
  by (simp add: str_len_def utf8_def)

lemma str_len_ascii: "(\<And>c. c \<in> set s \<Longrightarrow> c < 128) \<Longrightarrow> str_len s = length s"
  by (induction s) (auto simp: str_len_Cons utf8_char_def)

lemma str_len_ge: "length s \<le> str_len s"
  by (induction s) (auto simp: str_len_Cons utf8_char_def)

lemma utf8_ascii: "(\<And>c. c \<in> set s \<Longrightarrow> c < 128) \<Longrightarrow> utf8 s = map of_nat s"
  by (induction s) (auto simp: utf8_def utf8_char_def)

lemma str_len_eq_0 [simp]: "str_len s = 0 \<longleftrightarrow> s = []"
  using str_len_ge [of s] by auto

lemma utf8_eq_Nil [simp]: "utf8 s = [] \<longleftrightarrow> s = []"
  using str_len_eq_0 [of s] by (simp add: str_len_def)

text \<open>A character beyond ASCII has a first byte of at least 128.\<close>

lemma utf8_char_non_ascii:
  "128 \<le> c \<Longrightarrow> c < 0x110000 \<Longrightarrow> \<exists>b bs. utf8_char c = b # bs \<and> 128 \<le> unat b"
  by (auto simp: utf8_char_def unat_of_nat simp del: of_nat_add)

section \<open>Trimming and splitting\<close>

definition trim_start :: "(rchar \<Rightarrow> bool) \<Rightarrow> rstr \<Rightarrow> rstr" where
  "trim_start P s = dropWhile P s"

definition trim_end :: "(rchar \<Rightarrow> bool) \<Rightarrow> rstr \<Rightarrow> rstr" where
  "trim_end P s = rev (dropWhile P (rev s))"

definition trim :: "rstr \<Rightarrow> rstr" where
  "trim s = trim_end is_whitespace (trim_start is_whitespace s)"

definition strip_prefix :: "rstr \<Rightarrow> rstr \<Rightarrow> rstr option" where
  "strip_prefix p s = (if take (length p) s = p then Some (drop (length p) s) else None)"

definition starts_with :: "rstr \<Rightarrow> rstr \<Rightarrow> bool" where
  "starts_with p s \<longleftrightarrow> take (length p) s = p"

text \<open>\<open>str::split\<close>: always at least one piece, separators removed.\<close>

fun split :: "(rchar \<Rightarrow> bool) \<Rightarrow> rstr \<Rightarrow> rstr list" where
  "split P [] = [[]]"
| "split P (c # cs) =
     (if P c then [] # split P cs
      else (case split P cs of [] \<Rightarrow> [[c]] | t # ts \<Rightarrow> (c # t) # ts))"

text \<open>\<open>str::rsplit_once\<close>: around the last separator.\<close>

definition rsplit_once :: "rchar \<Rightarrow> rstr \<Rightarrow> (rstr \<times> rstr) option" where
  "rsplit_once c s =
     (if c \<in> set s
      then Some (rev (tl (dropWhile ((\<noteq>) c) (rev s))), rev (takeWhile ((\<noteq>) c) (rev s)))
      else None)"

text \<open>\<open>split_whitespace().next()\<close>.\<close>

definition first_word :: "rstr \<Rightarrow> rstr option" where
  "first_word s =
     (let t = dropWhile is_whitespace s in
      if t = [] then None else Some (takeWhile (\<lambda>c. \<not> is_whitespace c) t))"

lemma split_not_Nil [simp]: "split P s \<noteq> []"
  by (induction s) (auto split: list.splits)

lemma split_none: "(\<And>c. c \<in> set s \<Longrightarrow> \<not> P c) \<Longrightarrow> split P s = [s]"
  by (induction s) auto

lemma split_append_sep:
  "(\<And>c. c \<in> set s \<Longrightarrow> \<not> P c) \<Longrightarrow> P d \<Longrightarrow> split P (s @ d # t) = s # split P t"
  by (induction s) auto

lemma split_pieces: "t \<in> set (split P s) \<Longrightarrow> c \<in> set t \<Longrightarrow> \<not> P c \<and> c \<in> set s"
proof (induction s arbitrary: t)
  case (Cons a s)
  obtain u us where u: "split P s = u # us" by (cases "split P s") auto
  with Cons.IH [of u] Cons.IH [of t] Cons.prems show ?case by (auto split: if_splits)
qed simp

lemma rsplit_once_append:
  "c \<notin> set t \<Longrightarrow> rsplit_once c (s @ c # t) = Some (s, t)"
proof -
  assume "c \<notin> set t"
  then have n: "\<forall>x \<in> set (rev t). c \<noteq> x" by auto
  have "dropWhile ((\<noteq>) c) (rev t @ c # rev s) = c # rev s"
    using n by (subst dropWhile_append2) auto
  moreover have "takeWhile ((\<noteq>) c) (rev t @ c # rev s) = rev t"
    using n by (subst takeWhile_append2) auto
  ultimately show ?thesis by (simp add: rsplit_once_def)
qed

lemma rsplit_once_None [simp]: "c \<notin> set s \<Longrightarrow> rsplit_once c s = None"
  by (simp add: rsplit_once_def)

lemma strip_prefix_Some_iff: "strip_prefix p s = Some t \<longleftrightarrow> s = p @ t"
  by (auto simp: strip_prefix_def) (metis append_take_drop_id)

lemma strip_prefix_append [simp]: "strip_prefix p (p @ t) = Some t"
  by (simp add: strip_prefix_def)

lemma starts_with_iff: "starts_with p s \<longleftrightarrow> (\<exists>t. s = p @ t)"
  by (auto simp: starts_with_def) (metis append_take_drop_id)

lemma trim_id: "s = [] \<or> (\<not> is_whitespace (hd s) \<and> \<not> is_whitespace (last s)) \<Longrightarrow> trim s = s"
proof (cases s rule: rev_cases)
  case (snoc xs x)
  assume a: "s = [] \<or> (\<not> is_whitespace (hd s) \<and> \<not> is_whitespace (last s))"
  with snoc have "\<not> is_whitespace (hd s)" "\<not> is_whitespace x" by auto
  moreover from this(1) have "trim_start is_whitespace s = s"
    by (cases s) (auto simp: trim_start_def)
  ultimately show ?thesis by (simp add: trim_def trim_end_def snoc)
qed (simp add: trim_def trim_end_def trim_start_def)

end
