(* ===== verification/Numbers.thy ===== *)
theory Numbers
  imports RustStd
begin

text \<open>
  Integer parsing (\<open>str::parse\<close>, \<open>from_str_radix\<close>) with the four kinds of \<open>ParseIntError\<close>,
  and decimal and hexadecimal formatting, with the round trips between the two.
\<close>

section \<open>Parsing\<close>

datatype int_error = EmptyInt | InvalidDigit | PosOverflow | NegOverflow

definition to_digit :: "nat \<Rightarrow> rchar \<Rightarrow> nat option" where
  "to_digit radix c =
     (let d = (if 48 \<le> c \<and> c \<le> 57 then c - 48
               else if 97 \<le> c \<and> c \<le> 122 then c - 87
               else if 65 \<le> c \<and> c \<le> 90 then c - 55 else radix)
      in if d < radix then Some d else None)"

text \<open>
  The digit loop: a non-digit is reported when it is reached, an overflow when the
  accumulator passes the bound \<open>mx\<close>, so the first of the two in the input wins.
\<close>

fun parse_digits :: "nat \<Rightarrow> nat \<Rightarrow> int_error \<Rightarrow> nat \<Rightarrow> rstr \<Rightarrow> (nat, int_error) result" where
  "parse_digits radix mx over acc [] = Ok acc"
| "parse_digits radix mx over acc (c # cs) =
     (case to_digit radix c of
        None \<Rightarrow> Err InvalidDigit
      | Some d \<Rightarrow> if mx < acc * radix + d then Err over
                  else parse_digits radix mx over (acc * radix + d) cs)"

text \<open>Unsigned: an optional leading \<open>+\<close>, no minus sign.\<close>

definition parse_unsigned :: "nat \<Rightarrow> nat \<Rightarrow> rstr \<Rightarrow> (nat, int_error) result" where
  "parse_unsigned radix mx s =
     (case s of
        [] \<Rightarrow> Err EmptyInt
      | c # cs \<Rightarrow>
          if cs = [] \<and> (c = 43 \<or> c = 45) then Err InvalidDigit
          else if c = 43 then parse_digits radix mx PosOverflow 0 cs
          else parse_digits radix mx PosOverflow 0 s)"

definition parse_u8_radix :: "nat \<Rightarrow> rstr \<Rightarrow> (u8, int_error) result" where
  "parse_u8_radix radix s = map_ok of_nat (parse_unsigned radix 255 s)"

definition parse_u16 :: "rstr \<Rightarrow> (u16, int_error) result" where
  "parse_u16 s = map_ok of_nat (parse_unsigned 10 (2 ^ 16 - 1) s)"

definition parse_u32 :: "rstr \<Rightarrow> (u32, int_error) result" where
  "parse_u32 s = map_ok of_nat (parse_unsigned 10 (2 ^ 32 - 1) s)"

definition parse_u64 :: "rstr \<Rightarrow> (u64, int_error) result" where
  "parse_u64 s = map_ok of_nat (parse_unsigned 10 (2 ^ 64 - 1) s)"

text \<open>Signed 32 bits: an optional leading \<open>+\<close> or minus sign.\<close>

definition parse_i32 :: "rstr \<Rightarrow> (i32, int_error) result" where
  "parse_i32 s =
     (case s of
        [] \<Rightarrow> Err EmptyInt
      | c # cs \<Rightarrow>
          if cs = [] \<and> (c = 43 \<or> c = 45) then Err InvalidDigit
          else if c = 45 then map_ok (\<lambda>n. - of_nat n) (parse_digits 10 (2 ^ 31) NegOverflow 0 cs)
          else if c = 43 then map_ok of_nat (parse_digits 10 (2 ^ 31 - 1) PosOverflow 0 cs)
          else map_ok of_nat (parse_digits 10 (2 ^ 31 - 1) PosOverflow 0 s))"

text \<open>The \<open>Display\<close> of a \<open>ParseIntError\<close>.\<close>

fun show_int_error :: "int_error \<Rightarrow> rstr" where
  "show_int_error EmptyInt = lit ''cannot parse integer from empty string''"
| "show_int_error InvalidDigit = lit ''invalid digit found in string''"
| "show_int_error PosOverflow = lit ''number too large to fit in target type''"
| "show_int_error NegOverflow = lit ''number too small to fit in target type''"

section \<open>Formatting\<close>

fun dec :: "nat \<Rightarrow> rstr" where
  "dec n = (if n < 10 then [48 + n] else dec (n div 10) @ [48 + n mod 10])"

declare dec.simps [simp del]

definition dec_int :: "int \<Rightarrow> rstr" where
  "dec_int i = (if i < 0 then 45 # dec (nat (- i)) else dec (nat i))"

definition hex_digit :: "nat \<Rightarrow> rchar" where
  "hex_digit d = (if d < 10 then 48 + d else 87 + d)"

text \<open>\<open>{:02x}\<close> of a byte.\<close>

definition hex2 :: "u8 \<Rightarrow> rstr" where
  "hex2 b = [hex_digit (unat b div 16), hex_digit (unat b mod 16)]"

text \<open>Exactly \<open>n\<close> hexadecimal digits, zero padded.\<close>

fun hex_fixed :: "nat \<Rightarrow> nat \<Rightarrow> rstr" where
  "hex_fixed 0 v = []"
| "hex_fixed (Suc n) v = hex_fixed n (v div 16) @ [hex_digit (v mod 16)]"

section \<open>Lemmas\<close>

lemma to_digit_10: "to_digit 10 c = (if 48 \<le> c \<and> c \<le> 57 then Some (c - 48) else None)"
  by (auto simp: to_digit_def Let_def)

lemma to_digit_10_char [simp]: "d < 10 \<Longrightarrow> to_digit 10 (48 + d) = Some d"
  by (simp add: to_digit_10)

lemma to_digit_16_hex_digit [simp]: "d < 16 \<Longrightarrow> to_digit 16 (hex_digit d) = Some d"
  by (auto simp: to_digit_def hex_digit_def Let_def)

lemma to_digit_16_iff: "to_digit 16 c \<noteq> None \<longleftrightarrow> is_ascii_hexdigit c"
  by (auto simp: to_digit_def is_ascii_hexdigit_def Let_def split: if_splits)

lemma parse_digits_append:
  "parse_digits r mx ov acc (xs @ ys)
     = andthen (parse_digits r mx ov acc xs) (\<lambda>a. parse_digits r mx ov a ys)"
  by (induction xs arbitrary: acc) (auto split: option.splits)

lemma parse_digits_bound: "parse_digits r mx ov acc s = Ok n \<Longrightarrow> acc \<le> mx \<Longrightarrow> n \<le> mx"
  by (induction s arbitrary: acc) (auto split: option.splits if_splits)

lemma parse_digits_chars:
  "parse_digits r mx ov acc s = Ok n \<Longrightarrow> c \<in> set s \<Longrightarrow> to_digit r c \<noteq> None"
  by (induction s arbitrary: acc) (auto split: option.splits if_splits)

lemma parse_digits_errors:
  "parse_digits r mx ov acc s = Err e \<Longrightarrow> e = InvalidDigit \<or> e = ov"
  by (induction s arbitrary: acc) (auto split: option.splits if_splits)

lemma parse_unsigned_bound: "parse_unsigned r mx s = Ok n \<Longrightarrow> n \<le> mx"
  by (auto simp: parse_unsigned_def simp del: parse_digits.simps(2)
      split: list.splits if_splits dest: parse_digits_bound)

lemma dec_not_Nil [simp]: "dec n \<noteq> []"
  by (subst dec.simps) simp

lemma dec_digits: "c \<in> set (dec n) \<Longrightarrow> 48 \<le> c \<and> c \<le> 57"
proof (induction n rule: dec.induct)
  case (1 n)
  show ?case
  proof (cases "n < 10")
    case True
    with "1.prems" show ?thesis by (simp add: dec.simps [of n])
  next
    case False
    have "n mod 10 < 10" by simp
    with False 1 show ?thesis by (auto simp: dec.simps [of n])
  qed
qed

lemma dec_hd: "48 \<le> hd (dec n) \<and> hd (dec n) \<le> 57"
  using dec_digits [of "hd (dec n)" n] by simp

lemma parse_digits_dec: "n \<le> mx \<Longrightarrow> parse_digits 10 mx ov 0 (dec n) = Ok n"
proof (induction n rule: dec.induct)
  case (1 n)
  show ?case
  proof (cases "n < 10")
    case True
    with "1.prems" show ?thesis by (subst dec.simps) (simp add: to_digit_10)
  next
    case False
    have "n mod 10 < 10" by simp
    with False 1 show ?thesis
      by (subst dec.simps) (simp add: parse_digits_append to_digit_10)
  qed
qed

lemma parse_unsigned_dec: "n \<le> mx \<Longrightarrow> parse_unsigned 10 mx (dec n) = Ok n"
proof -
  assume n: "n \<le> mx"
  obtain c cs where c: "dec n = c # cs" by (cases "dec n") auto
  with dec_hd [of n] have "48 \<le> c" by simp
  with n c show ?thesis
    using parse_digits_dec [of n mx PosOverflow] by (simp add: parse_unsigned_def)
qed

lemma unat_bound: "unat (w :: 'a::len word) \<le> 2 ^ LENGTH('a) - 1"
  using unsigned_less [of w, where 'a = nat] by linarith

lemma parse_u32_dec [simp]: "parse_u32 (dec (unat w)) = Ok w"
  using unat_bound [of w] by (simp add: parse_u32_def parse_unsigned_dec)

lemma parse_u64_dec [simp]: "parse_u64 (dec (unat w)) = Ok w"
  using unat_bound [of w] by (simp add: parse_u64_def parse_unsigned_dec)

lemma parse_u16_dec [simp]: "parse_u16 (dec (unat w)) = Ok w"
  using unat_bound [of w] by (simp add: parse_u16_def parse_unsigned_dec)

lemma parse_i32_dec [simp]: "parse_i32 (dec_int (sint w)) = Ok w"
proof (cases "sint w < 0")
  case True
  have lo: "- (2 ^ 31) \<le> sint w" using sint_ge [of w] by simp
  then have "nat (- sint w) \<le> 2 ^ 31" by simp
  with True show ?thesis
    by (simp add: parse_i32_def dec_int_def parse_digits_dec)
next
  case False
  have "sint w < 2 ^ 31" using sint_lt [of w] by simp
  then have n: "nat (sint w) \<le> 2 ^ 31 - 1" by simp
  obtain c cs where c: "dec (nat (sint w)) = c # cs" by (cases "dec (nat (sint w))") auto
  with dec_hd [of "nat (sint w)"] have "48 \<le> c" by simp
  with n c False show ?thesis
    using parse_digits_dec [of "nat (sint w)" "2 ^ 31 - 1" PosOverflow]
    by (simp add: parse_i32_def dec_int_def)
qed

lemma length_hex_fixed [simp]: "length (hex_fixed n v) = n"
  by (induction n arbitrary: v) auto

lemma hex_digit_is_hexdigit: "d < 16 \<Longrightarrow> is_ascii_hexdigit (hex_digit d)"
  by (auto simp: is_ascii_hexdigit_def hex_digit_def)

text \<open>Lower-casing a character and reading its hexadecimal value agree.\<close>

lemma lower_hex_digit: "d < 16 \<Longrightarrow> lower_char c = hex_digit d \<longleftrightarrow> to_digit 16 c = Some d"
  by (auto simp: lower_char_def hex_digit_def to_digit_def Let_def)

text \<open>The hexadecimal text of a byte string.\<close>

definition hex_text :: "bytes \<Rightarrow> rstr" where
  "hex_text bs = concat (map hex2 bs)"

lemma hex_text_simps [simp]:
  "hex_text [] = []" "hex_text (b # bs) = hex2 b @ hex_text bs"
  by (simp_all add: hex_text_def)

lemma length_hex2 [simp]: "length (hex2 b) = 2"
  by (simp add: hex2_def)

lemma length_hex_text [simp]: "length (hex_text bs) = 2 * length bs"
  by (induction bs) auto

lemma hex_text_eq_Nil [simp]: "hex_text bs = [] \<longleftrightarrow> bs = []" "[] = hex_text bs \<longleftrightarrow> bs = []"
  by (cases bs; simp add: hex2_def)+

lemma unat_byte_split: "unat (b :: u8) div 16 < 16" "unat b mod 16 < 16"
  using unsigned_less [of b, where 'a = nat] by simp_all

lemma hex2_chars: "c \<in> set (hex2 b) \<Longrightarrow> is_ascii_hexdigit c \<and> c < 128"
  using hex_digit_is_hexdigit [OF unat_byte_split(1), of b]
    hex_digit_is_hexdigit [OF unat_byte_split(2), of b]
  by (auto simp: hex2_def is_ascii_hexdigit_def)

lemma hex_text_chars: "c \<in> set (hex_text bs) \<Longrightarrow> is_ascii_hexdigit c \<and> c < 128"
  by (induction bs) (auto dest: hex2_chars)

lemma hex2_lower_iff:
  "to_ascii_lowercase [c, d] = hex2 b
     \<longleftrightarrow> to_digit 16 c = Some (unat b div 16) \<and> to_digit 16 d = Some (unat b mod 16)"
  using unat_byte_split [of b]
  by (simp add: to_ascii_lowercase_def hex2_def lower_hex_digit)

lemma lower_hex2 [simp]: "to_ascii_lowercase (hex2 b) = hex2 b"
  using unat_byte_split [of b]
  by (simp add: to_ascii_lowercase_def hex2_def lower_hex_digit)

lemma lower_append [simp]:
  "to_ascii_lowercase (s @ t) = to_ascii_lowercase s @ to_ascii_lowercase t"
  by (simp add: to_ascii_lowercase_def)

lemma lower_hex_text [simp]: "to_ascii_lowercase (hex_text bs) = hex_text bs"
  by (induction bs) (auto simp: to_ascii_lowercase_def [of "[]"])

lemma parse_digits_hex2: "parse_digits 16 255 ov 0 (hex2 b) = Ok (unat b)"
proof -
  have "unat b < 256" using unsigned_less [of b, where 'a = nat] by simp
  moreover from this have "unat b div 16 < 16" by simp
  ultimately show ?thesis by (simp add: hex2_def)
qed

end
