(* ===== verification/IpAddr.thy ===== *)
theory IpAddr
  imports Numbers
begin

text \<open>
  IP address literals as the standard library reads and prints them
  (\<open>Ipv4Addr::from_str\<close>, \<open>IpAddr::from_str\<close>, \<open>Display\<close>). The readers consume a prefix
  and return the rest. Of an IPv6 address only that it was read is used.
\<close>

section \<open>Addresses\<close>

datatype ipv4 = Ipv4 u8 u8 u8 u8

fun octets :: "ipv4 \<Rightarrow> bytes" where
  "octets (Ipv4 a b c d) = [a, b, c, d]"

definition ipv4_unspecified :: ipv4 where
  "ipv4_unspecified = Ipv4 0 0 0 0"

datatype ip_addr = V4 ipv4 | V6

text \<open>A \<open>SocketAddrV4\<close>.\<close>

record socket_addr =
  sa_ip :: ipv4
  sa_port :: u16

text \<open>A \<open>SocketAddr\<close>; of an IPv6 one nothing is used.\<close>

datatype sock = SockV4 socket_addr | SockV6

fun show_ipv4 :: "ipv4 \<Rightarrow> rstr" where
  "show_ipv4 (Ipv4 a b c d) =
     dec (unat a) @ lit ''.'' @ dec (unat b) @ lit ''.'' @ dec (unat c) @ lit ''.'' @ dec (unat d)"

definition show_socket_addr :: "socket_addr \<Rightarrow> rstr" where
  "show_socket_addr s = show_ipv4 (sa_ip s) @ lit '':'' @ dec (unat (sa_port s))"

section \<open>Readers\<close>

definition number_value :: "nat \<Rightarrow> rstr \<Rightarrow> nat" where
  "number_value radix ds = foldl (\<lambda>acc c. acc * radix + the (to_digit radix c)) 0 ds"

text \<open>
  \<open>read_number\<close>: the longest run of digits, refused when it is empty or longer than \<open>mxd\<close>,
  when it has a forbidden leading zero, or when its value passes \<open>lim\<close>.
\<close>

definition read_number :: "nat \<Rightarrow> nat \<Rightarrow> bool \<Rightarrow> nat \<Rightarrow> rstr \<Rightarrow> (nat \<times> rstr) option" where
  "read_number radix mxd zero lim s =
     (let ds = takeWhile (\<lambda>c. to_digit radix c \<noteq> None) s; v = number_value radix ds in
      if length ds > mxd \<or> ds = [] \<or> (\<not> zero \<and> hd ds = 48 \<and> length ds > 1) \<or> lim < v
      then None else Some (v, drop (length ds) s))"

definition read_given_char :: "rchar \<Rightarrow> rstr \<Rightarrow> rstr option" where
  "read_given_char c s = (case s of [] \<Rightarrow> None | x # xs \<Rightarrow> if x = c then Some xs else None)"

text \<open>\<open>read_separator\<close>: the separator comes before every item but the first.\<close>

definition read_separator ::
  "rchar \<Rightarrow> nat \<Rightarrow> (rstr \<Rightarrow> ('a \<times> rstr) option) \<Rightarrow> rstr \<Rightarrow> ('a \<times> rstr) option"
where
  "read_separator sep i inner s =
     (if 0 < i then Option.bind (read_given_char sep s) inner else inner s)"

definition read_octet :: "nat \<Rightarrow> rstr \<Rightarrow> (nat \<times> rstr) option" where
  "read_octet i s = read_separator 46 i (read_number 10 3 False 255) s"

definition read_ipv4 :: "rstr \<Rightarrow> (ipv4 \<times> rstr) option" where
  "read_ipv4 s =
     Option.bind (read_octet 0 s) (\<lambda>(a, s1).
     Option.bind (read_octet 1 s1) (\<lambda>(b, s2).
     Option.bind (read_octet 2 s2) (\<lambda>(c, s3).
     Option.bind (read_octet 3 s3) (\<lambda>(d, s4).
       Some (Ipv4 (of_nat a) (of_nat b) (of_nat c) (of_nat d), s4)))))"

text \<open>
  \<open>read_groups\<close> of the IPv6 reader: \<open>n\<close> groups are left, \<open>i\<close> were read; an embedded IPv4
  address counts for two groups and ends the run.
\<close>

fun read_groups :: "nat \<Rightarrow> nat \<Rightarrow> rstr \<Rightarrow> nat \<times> bool \<times> rstr" where
  "read_groups i 0 s = (i, False, s)"
| "read_groups i (Suc n) s =
     (case (if 0 < n then read_separator 58 i read_ipv4 s else None) of
        Some (v4, r) \<Rightarrow> (i + 2, True, r)
      | None \<Rightarrow>
          (case read_separator 58 i (read_number 16 4 True 0xFFFF) s of
             Some (g, r) \<Rightarrow> read_groups (Suc i) n r
           | None \<Rightarrow> (i, False, s)))"

definition read_ipv6 :: "rstr \<Rightarrow> rstr option" where
  "read_ipv6 s =
     (case read_groups 0 8 s of (hs, v4, r) \<Rightarrow>
        if hs = 8 then Some r
        else if v4 then None
        else Option.bind (read_given_char 58 r) (\<lambda>r1.
             Option.bind (read_given_char 58 r1) (\<lambda>r2.
               (case read_groups 0 (8 - (hs + 1)) r2 of (ts, tv4, r3) \<Rightarrow> Some r3))))"

text \<open>\<open>Ipv4Addr::from_str\<close>: at most 15 bytes, all of them consumed.\<close>

definition parse_ipv4 :: "rstr \<Rightarrow> ipv4 option" where
  "parse_ipv4 s =
     (if 15 < str_len s then None
      else (case read_ipv4 s of Some (a, []) \<Rightarrow> Some a | _ \<Rightarrow> None))"

text \<open>\<open>IpAddr::from_str\<close>: an IPv4 address if a prefix reads as one, otherwise IPv6.\<close>

definition parse_ip :: "rstr \<Rightarrow> ip_addr option" where
  "parse_ip s =
     (case read_ipv4 s of
        Some (a, r) \<Rightarrow> if r = [] then Some (V4 a) else None
      | None \<Rightarrow> (case read_ipv6 s of Some [] \<Rightarrow> Some V6 | _ \<Rightarrow> None))"

text \<open>The \<open>Display\<close> of the IPv4 \<open>AddrParseError\<close>.\<close>

definition show_ipv4_error :: rstr where
  "show_ipv4_error = lit ''invalid IPv4 address syntax''"

section \<open>Lemmas\<close>

lemma length_octets [simp]: "length (octets a) = 4"
  by (cases a) simp

lemma octets_inj [simp]: "octets a = octets b \<longleftrightarrow> a = b"
  by (cases a; cases b) simp

lemma lit_dot [simp]: "lit ''.'' = [46]"
  by (simp add: lit_def)

lemma lit_colon [simp]: "lit '':'' = [58]"
  by (simp add: lit_def)

lemma number_value_snoc:
  "number_value r (ds @ [c]) = number_value r ds * r + the (to_digit r c)"
  by (simp add: number_value_def)

lemma number_value_dec: "number_value 10 (dec n) = n"
proof (induction n rule: dec.induct)
  case (1 n)
  show ?case
  proof (cases "n < 10")
    case True
    then show ?thesis by (subst dec.simps) (simp add: number_value_def)
  next
    case False
    with 1 show ?thesis by (subst dec.simps) (simp add: number_value_snoc)
  qed
qed

lemma dec_lt_1000: "n < 1000 \<Longrightarrow> length (dec n) \<le> 3"
  by (simp add: dec.simps)

lemma dec_no_leading_zero: "hd (dec n) = 48 \<Longrightarrow> length (dec n) = 1"
proof (induction n rule: dec.induct)
  case (1 n)
  show ?case
  proof (cases "n < 10")
    case True
    then show ?thesis by (subst dec.simps) simp
  next
    case False
    with "1.prems" have "hd (dec (n div 10)) = 48" by (simp add: dec.simps [of n])
    with False 1 have "length (dec (n div 10)) = 1" by simp
    then have "n div 10 < 10"
      by (cases "n div 10 < 10") (auto simp: dec.simps [of "n div 10"])
    with \<open>hd (dec (n div 10)) = 48\<close> have "n div 10 = 0" by (simp add: dec.simps)
    with False show ?thesis by (simp add: div_eq_0_iff)
  qed
qed

text \<open>Reading a printed octet that is followed by no digit.\<close>

lemma read_number_dec:
  assumes "n \<le> 255" and "r = [] \<or> to_digit 10 (hd r) = None"
  shows "read_number 10 3 False 255 (dec n @ r) = Some (n, r)"
proof -
  have digit: "to_digit 10 c \<noteq> None" if "c \<in> set (dec n)" for c
    using dec_digits [OF that] by (auto simp: to_digit_10)
  have tw: "takeWhile (\<lambda>c. to_digit 10 c \<noteq> None) (dec n @ r) = dec n"
    using digit assms(2) by (subst takeWhile_append2) (cases r; auto)+
  have "\<not> (hd (dec n) = 48 \<and> 1 < length (dec n))"
    using dec_no_leading_zero [of n] by auto
  moreover have "length (dec n) \<le> 3" using assms(1) by (intro dec_lt_1000) simp
  ultimately show ?thesis
    using assms(1) unfolding read_number_def tw Let_def by (auto simp: number_value_dec)
qed

lemma unat_u8_le [simp]: "unat (w :: u8) \<le> 255"
  using unat_bound [of w] by simp

lemma read_octet_0: "r = [] \<or> to_digit 10 (hd r) = None \<Longrightarrow>
    read_octet 0 (dec (unat (w :: u8)) @ r) = Some (unat w, r)"
  by (simp add: read_octet_def read_separator_def read_number_dec)

lemma read_octet_Suc: "0 < i \<Longrightarrow> r = [] \<or> to_digit 10 (hd r) = None \<Longrightarrow>
    read_octet i (46 # dec (unat (w :: u8)) @ r) = Some (unat w, r)"
  by (simp add: read_octet_def read_separator_def read_given_char_def read_number_dec)

lemma read_ipv4_show: "read_ipv4 (show_ipv4 a) = Some (a, [])"
proof -
  obtain w x y z where a: "a = Ipv4 w x y z" by (cases a) auto
  have d: "to_digit 10 46 = None" by (simp add: to_digit_10)
  show ?thesis
    using read_octet_Suc [of 3 "[]" z]
    by (simp add: read_ipv4_def a d read_octet_0 read_octet_Suc)
qed

lemma digit_10_ascii: "to_digit 10 c \<noteq> None \<Longrightarrow> c < 128"
  by (auto simp: to_digit_10 split: if_splits)

text \<open>What a successful octet consumed: at most three digits, after the dot.\<close>

lemma read_octet_consumed:
  assumes "read_octet i s = Some (v, r)"
  shows "\<exists>p. s = p @ r \<and> str_len p \<le> (if i = 0 then 3 else 4)"
proof -
  have num: "\<exists>p. t = p @ r \<and> str_len p \<le> 3" if n: "read_number 10 3 False 255 t = Some (v, r)" for t
  proof -
    let ?ds = "takeWhile (\<lambda>c. to_digit 10 c \<noteq> None) t"
    from n have len: "length ?ds \<le> 3" and r: "r = drop (length ?ds) t"
      by (auto simp: read_number_def Let_def split: if_splits)
    have "str_len ?ds = length ?ds"
      by (rule str_len_ascii, rule digit_10_ascii) (drule set_takeWhileD, simp)
    moreover have "t = ?ds @ r"
      unfolding r by (metis takeWhile_dropWhile_id dropWhile_eq_drop)
    ultimately show ?thesis using len by (intro exI [of _ ?ds]) simp
  qed
  show ?thesis
  proof (cases "i = 0")
    case True
    with assms num show ?thesis by (simp add: read_octet_def read_separator_def)
  next
    case False
    with assms obtain t where s: "s = 46 # t" and "read_number 10 3 False 255 t = Some (v, r)"
      by (auto simp: read_octet_def read_separator_def read_given_char_def
          split: list.splits if_splits bind_splits)
    with num obtain p where "t = p @ r" "str_len p \<le> 3" by blast
    with s False show ?thesis
      by (intro exI [of _ "46 # p"]) (simp add: str_len_Cons utf8_char_def)
  qed
qed

lemma read_ipv4_len:
  assumes "read_ipv4 s = Some (a, [])"
  shows "str_len s \<le> 15"
proof -
  from assms obtain x s1 y s2 z s3 w where
    o: "read_octet 0 s = Some (x, s1)" "read_octet 1 s1 = Some (y, s2)"
       "read_octet 2 s2 = Some (z, s3)" "read_octet 3 s3 = Some (w, [])"
    by (auto simp: read_ipv4_def bind_eq_Some_conv)
  from o [THEN read_octet_consumed] show ?thesis by auto
qed

text \<open>\<open>IpAddr\<close> and \<open>Ipv4Addr\<close> accept the same IPv4 literals, with the same value.\<close>

lemma parse_ip_V4_iff: "parse_ip s = Some (V4 a) \<longleftrightarrow> parse_ipv4 s = Some a"
  using read_ipv4_len [of s a]
  by (auto simp: parse_ip_def parse_ipv4_def split: option.splits list.splits if_splits)

lemma parse_ipv4_show [simp]: "parse_ipv4 (show_ipv4 a) = Some a"
  using read_ipv4_len [OF read_ipv4_show, of a] by (simp add: parse_ipv4_def read_ipv4_show)

lemma show_ipv4_not_Nil [simp]: "show_ipv4 a \<noteq> []"
  by (cases a) simp

end
