(* ===== verification/Varbind.thy ===== *)
theory Varbind
  imports IpAddr
begin

unbundle bit_operations_syntax

text \<open>
  \<open>src/varbind.rs\<close>: the typed values of a variable binding and the parsers of the type
  letters, of object identifiers, of hexadecimal strings and of BITS positions.
\<close>

section \<open>Values and errors\<close>

datatype varbind_value =
    VInteger i32
  | VUnsigned32 u32
  | VTimeTicks u32
  | VIpAddress ipv4
  | VObjectId "u32 list"
  | VOctetString bytes
  | VNull
  | VBits bytes
  | VCounter64 u64

datatype parse_error = UnknownLetter rchar | BadValue rchar rstr

section \<open>Object identifiers\<close>

definition parse_oid_arc :: "rstr \<Rightarrow> rstr \<Rightarrow> (u32, rstr) result" where
  "parse_oid_arc s tok =
     (if tok = [] then Err (lit ''empty arc in OID '' @ [39] @ s @ [39])
      else map_err (\<lambda>e. lit ''invalid arc '' @ [39] @ tok @ [39] @ lit '' in OID '' @ [39] @ s @ [39]
                        @ lit '': '' @ show_int_error e)
             (parse_u32 tok))"

definition parse_oid :: "rstr \<Rightarrow> (u32 list, rstr) result" where
  "parse_oid s =
     (if s = [] then Err (lit ''empty OID'')
      else
        let trimmed = trim_start (\<lambda>c. c = 46) s in
        andthen (map_try (parse_oid_arc s) (split (\<lambda>c. c = 46) trimmed)) (\<lambda>parts.
          if length parts < 2
          then Err (lit ''OID '' @ [39] @ s @ [39] @ lit '' has fewer than two arcs'')
          else if 2 < parts ! 0
          then Err (lit ''OID '' @ [39] @ s @ [39] @ lit '' first arc must be 0, 1, or 2, got ''
                    @ dec (unat (parts ! 0)))
          else if parts ! 0 < 2 \<and> 40 \<le> parts ! 1
          then Err (lit ''OID '' @ [39] @ s @ [39] @ lit '' second arc must be < 40 when first arc is ''
                    @ dec (unat (parts ! 0)) @ lit '', got '' @ dec (unat (parts ! 1)))
          else Ok parts))"

section \<open>Hexadecimal strings\<close>

definition hex_clean :: "rstr \<Rightarrow> rstr" where
  "hex_clean raw =
     (let trimmed = trim raw;
          body = (case strip_prefix (lit ''0x'') trimmed of
                    Some b \<Rightarrow> b
                  | None \<Rightarrow> (case strip_prefix (lit ''0X'') trimmed of
                               Some b \<Rightarrow> b | None \<Rightarrow> trimmed))
      in filter (\<lambda>c. \<not> is_whitespace c \<and> c \<noteq> 58) body)"

text \<open>The body of the loop over chunks; \<open>expect\<close> panics on bytes that are not UTF-8.\<close>

definition parse_hex_chunk :: "rstr \<Rightarrow> bytes \<Rightarrow> (u8, rstr) result outcome" where
  "parse_hex_chunk raw chunk =
     and_run (expect (from_utf8 chunk)) (\<lambda>s.
       Return (map_err (\<lambda>e. lit ''non-hex character in '' @ [39] @ raw @ [39] @ lit '': ''
                            @ show_int_error e)
                 (parse_u8_radix 16 s)))"

definition parse_hex_string :: "rstr \<Rightarrow> (bytes, rstr) result outcome" where
  "parse_hex_string raw =
     (let cleaned = hex_clean raw in
      if cleaned = [] then Return (Ok [])
      else (case find (\<lambda>c. \<not> is_ascii_hexdigit c) cleaned of
              Some c \<Rightarrow> Return (Err (lit ''non-hex character '' @ [39, c, 39] @ lit '' in ''
                                     @ [39] @ raw @ [39]))
            | None \<Rightarrow>
                if odd (str_len cleaned)
                then Return (Err (lit ''hex string '' @ [39] @ raw @ [39]
                       @ lit '' has odd character count after stripping separators (''
                       @ dec (str_len cleaned) @ lit '')''))
                else map_run (parse_hex_chunk raw) (chunks 2 (utf8 cleaned))))"

section \<open>BITS\<close>

definition MAX_BIT_POSITION :: u32 where "MAX_BIT_POSITION = 65535"

text \<open>\<open>out[byte_idx] |= 1 << bit_in_byte\<close>; an index out of range panics.\<close>

fun set_positions :: "u32 list \<Rightarrow> bytes \<Rightarrow> bytes outcome" where
  "set_positions [] out = Return out"
| "set_positions (p # ps) out =
     (let byte_idx = unat (p div 8); bit_in_byte = 7 - unat (p mod 8) in
      if byte_idx < length out
      then set_positions ps (out[byte_idx := out ! byte_idx OR push_bit bit_in_byte 1])
      else Panic)"

definition bit_tokens :: "rstr \<Rightarrow> rstr list" where
  "bit_tokens raw = filter (\<lambda>t. t \<noteq> []) (split (\<lambda>c. c = 44 \<or> is_whitespace c) raw)"

definition parse_bits :: "rstr \<Rightarrow> (bytes, rstr) result outcome" where
  "parse_bits raw =
     (if trim raw = [] then Return (Ok [])
      else (case map_try parse_u32 (bit_tokens raw) of
              Err e \<Rightarrow> Return (Err (lit ''invalid BITS positions in '' @ [39] @ raw @ [39] @ lit '': ''
                                    @ show_int_error e))
            | Ok positions \<Rightarrow>
                if positions = [] then Return (Ok [])
                else
                  let mx = fold max (tl positions) (hd positions) in
                  if MAX_BIT_POSITION < mx
                  then Return (Err (lit ''BITS position '' @ dec (unat mx) @ lit '' exceeds maximum ''
                                    @ dec (unat MAX_BIT_POSITION)))
                  else
                    let bytes_needed = unat mx div 8 + 1 in
                    map_outcome Ok (set_positions positions (replicate bytes_needed 0))))"

section \<open>Typed values\<close>

text \<open>The detail of a number that does not parse.\<close>

definition number_detail :: "rstr \<Rightarrow> rstr \<Rightarrow> int_error \<Rightarrow> rstr" where
  "number_detail expected raw e =
     lit ''expected '' @ expected @ lit '', got '' @ [39] @ raw @ [39] @ lit '': ''
     @ show_int_error e"

definition parse_typed_value :: "rchar \<Rightarrow> rstr \<Rightarrow> (varbind_value, parse_error) result outcome" where
  "parse_typed_value letter raw =
     (if letter = of_char CHR ''i'' then
        Return (map_err (\<lambda>e. BadValue letter (number_detail (lit ''signed 32-bit decimal'') raw e))
          (map_ok VInteger (parse_i32 raw)))
      else if letter = of_char CHR ''u'' then
        Return (map_err (\<lambda>e. BadValue letter (number_detail (lit ''unsigned 32-bit decimal'') raw e))
          (map_ok VUnsigned32 (parse_u32 raw)))
      else if letter = of_char CHR ''t'' then
        Return (map_err (\<lambda>e. BadValue letter (number_detail (lit ''unsigned 32-bit decimal'') raw e))
          (map_ok VTimeTicks (parse_u32 raw)))
      else if letter = of_char CHR ''a'' then
        Return (case parse_ipv4 raw of
            Some ip \<Rightarrow> Ok (VIpAddress ip)
          | None \<Rightarrow> Err (BadValue letter (lit ''expected dotted-quad IPv4, got '' @ [39] @ raw @ [39]
                                          @ lit '': '' @ show_ipv4_error)))
      else if letter = of_char CHR ''o'' then
        Return (map_err (BadValue letter) (map_ok VObjectId (parse_oid raw)))
      else if letter = of_char CHR ''s'' then Return (Ok (VOctetString (utf8 raw)))
      else if letter = of_char CHR ''x'' then
        map_outcome (map_err (BadValue letter) \<circ> map_ok VOctetString) (parse_hex_string raw)
      else if letter = of_char CHR ''n'' then Return (Ok VNull)
      else if letter = of_char CHR ''b'' then
        map_outcome (map_err (BadValue letter) \<circ> map_ok VBits) (parse_bits raw)
      else if letter = of_char CHR ''U'' then
        Return (map_err (\<lambda>e. BadValue letter (number_detail (lit ''unsigned 64-bit decimal'') raw e))
          (map_ok VCounter64 (parse_u64 raw)))
      else Return (Err (UnknownLetter letter)))"


section \<open>Object identifiers: what is accepted\<close>

text \<open>The constraints of ITU-T X.660 on the first two arcs.\<close>

definition valid_oid :: "u32 list \<Rightarrow> bool" where
  "valid_oid arcs \<longleftrightarrow>
     2 \<le> length arcs \<and> unat (arcs ! 0) \<le> 2 \<and> (unat (arcs ! 0) < 2 \<longrightarrow> unat (arcs ! 1) < 40)"

text \<open>The dotted text of an identifier.\<close>

fun show_arcs :: "u32 list \<Rightarrow> rstr" where
  "show_arcs [] = []"
| "show_arcs [a] = dec (unat a)"
| "show_arcs (a # as) = dec (unat a) @ [46] @ show_arcs as"

lemma parse_u32_Nil [simp]: "parse_u32 [] = Err EmptyInt"
  by (simp add: parse_u32_def parse_unsigned_def)

lemma parse_oid_arc_Ok [simp]: "parse_oid_arc s tok = Ok a \<longleftrightarrow> parse_u32 tok = Ok a"
  by (auto simp: parse_oid_arc_def)

lemma parse_oid_arc_Ok_fun: "(\<lambda>tok a. parse_oid_arc s tok = Ok a) = (\<lambda>tok a. parse_u32 tok = Ok a)"
  by (simp add: fun_eq_iff)

lemma map_try_oid: "map_try (parse_oid_arc s) toks = Ok arcs \<longleftrightarrow> map_try parse_u32 toks = Ok arcs"
  by (simp add: map_try_Ok_iff)

lemma parse_oid_Ok_iff:
  "parse_oid s = Ok arcs \<longleftrightarrow>
     valid_oid arcs
     \<and> map_try parse_u32 (split (\<lambda>c. c = 46) (trim_start (\<lambda>c. c = 46) s)) = Ok arcs"
proof (cases "s = []")
  case True
  then show ?thesis by (auto simp: parse_oid_def trim_start_def)
next
  case False
  have words: "2 < a \<longleftrightarrow> 2 < unat a" "a < 2 \<longleftrightarrow> unat a < 2" "40 \<le> a \<longleftrightarrow> 40 \<le> unat a" for a :: u32
    by (simp_all add: word_less_nat_alt word_le_nat_alt)
  have "parse_oid s = Ok arcs \<longleftrightarrow>
      (\<exists>ps. map_try parse_u32 (split (\<lambda>c. c = 46) (trim_start (\<lambda>c. c = 46) s)) = Ok ps
         \<and> valid_oid ps \<and> ps = arcs)"
    unfolding parse_oid_def Let_def if_not_P [OF False] andthen_eq_Ok map_try_oid
    by (intro ex_cong1 conj_cong refl) (auto simp: valid_oid_def words)
  then show ?thesis by auto
qed

lemma dec_no_dot: "c \<in> set (dec n) \<Longrightarrow> c \<noteq> 46"
  using dec_digits [of c n] by auto

lemma split_show_arcs:
  "as \<noteq> [] \<Longrightarrow> split (\<lambda>c. c = 46) (show_arcs as) = map (\<lambda>a. dec (unat a)) as"
proof (induction as rule: show_arcs.induct)
  case (2 a)
  show ?case by (simp add: split_none dec_no_dot)
next
  case (3 a b as)
  then show ?case by (simp add: split_append_sep dec_no_dot)
qed simp

lemma show_arcs_hd: "as \<noteq> [] \<Longrightarrow> show_arcs as \<noteq> [] \<and> hd (show_arcs as) \<noteq> 46"
  using dec_hd [of "unat (hd as)"] by (induction as rule: show_arcs.induct) auto

lemma parse_oid_show: "valid_oid arcs \<Longrightarrow> parse_oid (show_arcs arcs) = Ok arcs"
  "valid_oid arcs \<Longrightarrow> parse_oid (46 # show_arcs arcs) = Ok arcs"
proof -
  assume v: "valid_oid arcs"
  then have ne: "arcs \<noteq> []" by (auto simp: valid_oid_def)
  have "trim_start (\<lambda>c. c = 46) (show_arcs arcs) = show_arcs arcs"
    using show_arcs_hd [OF ne] by (cases "show_arcs arcs") (auto simp: trim_start_def)
  moreover from this have "trim_start (\<lambda>c. c = 46) (46 # show_arcs arcs) = show_arcs arcs"
    by (simp add: trim_start_def)
  moreover have "map_try parse_u32 (map (\<lambda>a. dec (unat a)) arcs) = Ok arcs"
    by (simp add: map_try_Ok_iff list_all2_map1 list_all2_same)
  ultimately show "parse_oid (show_arcs arcs) = Ok arcs" "parse_oid (46 # show_arcs arcs) = Ok arcs"
    using v by (simp_all add: parse_oid_Ok_iff split_show_arcs [OF ne])
qed

text \<open>BER's first octet \<open>40 * first + second\<close> determines the first two arcs of a valid identifier.\<close>

definition ber_first :: "u32 list \<Rightarrow> nat" where
  "ber_first arcs = 40 * unat (arcs ! 0) + unat (arcs ! 1)"

lemma ber_first_inj:
  assumes "valid_oid xs" and "valid_oid ys" and "ber_first xs = ber_first ys"
  shows "xs ! 0 = ys ! 0 \<and> xs ! 1 = ys ! 1"
proof -
  have arith: "a = c \<and> b = d"
    if "a \<le> 2" "a < 2 \<longrightarrow> b < 40" "c \<le> 2" "c < 2 \<longrightarrow> d < 40" "40 * a + b = 40 * c + d"
    for a b c d :: nat
  proof -
    have "a = 0 \<or> a = 1 \<or> a = 2" "c = 0 \<or> c = 1 \<or> c = 2" using that by linarith+
    then show ?thesis using that by (elim disjE) simp_all
  qed
  have "unat (xs ! 0) = unat (ys ! 0) \<and> unat (xs ! 1) = unat (ys ! 1)"
    using assms arith [of "unat (xs ! 0)" "unat (xs ! 1)" "unat (ys ! 0)" "unat (ys ! 1)"]
    by (simp add: valid_oid_def ber_first_def)
  then show ?thesis by (auto intro: unsigned_word_eqI)
qed

section \<open>Hexadecimal strings: what is accepted\<close>

lemma find_None_hex: "find (\<lambda>c. \<not> P c) s = None \<longleftrightarrow> (\<forall>c \<in> set s. P c)"
  by (auto simp: find_None_iff)

lemma hexdigit_ascii: "is_ascii_hexdigit c \<Longrightarrow> c < 128"
  by (auto simp: is_ascii_hexdigit_def)

lemma from_utf8_ascii: "(\<And>c. c \<in> set s \<Longrightarrow> c < 128) \<Longrightarrow> from_utf8 (map of_nat s) = Some s"
proof (induction s)
  case (Cons c s)
  then have c: "c < 128" by simp
  then have "(of_nat c :: u8) < 0x80" "unat (of_nat c :: u8) = c"
    by (simp_all add: word_less_nat_alt unat_of_nat)
  with Cons show ?case by simp
qed simp

lemma parse_u8_hex_pair:
  assumes "is_ascii_hexdigit c" and "is_ascii_hexdigit d"
  shows "parse_u8_radix 16 [c, d] = Ok (of_nat (the (to_digit 16 c) * 16 + the (to_digit 16 d)))"
proof -
  obtain x y where xy: "to_digit 16 c = Some x" "to_digit 16 d = Some y"
    using assms to_digit_16_iff by blast
  then have "x < 16" "y < 16" by (auto simp: to_digit_def Let_def split: if_splits)
  moreover have "c \<noteq> 43" using assms(1) by (auto simp: is_ascii_hexdigit_def)
  ultimately show ?thesis using xy by (simp add: parse_u8_radix_def parse_unsigned_def)
qed

lemma parse_hex_chunk_pair:
  assumes "is_ascii_hexdigit c" and "is_ascii_hexdigit d"
  shows "parse_hex_chunk raw [of_nat c, of_nat d] = Return (Ok b)
           \<longleftrightarrow> to_ascii_lowercase [c, d] = hex2 b"
proof -
  obtain x y where xy: "to_digit 16 c = Some x" "to_digit 16 d = Some y"
    using assms to_digit_16_iff by blast
  then have lt: "x < 16" "y < 16" by (auto simp: to_digit_def Let_def split: if_splits)
  then have u: "unat (of_nat (x * 16 + y) :: u8) = x * 16 + y"
    by (simp add: unat_of_nat del: of_nat_add of_nat_mult)
  have "from_utf8 (map of_nat [c, d]) = Some [c, d]"
    by (rule from_utf8_ascii) (use assms hexdigit_ascii in auto)
  then have "parse_hex_chunk raw [of_nat c, of_nat d] = Return (Ok b) \<longleftrightarrow> b = of_nat (x * 16 + y)"
    using xy by (auto simp: parse_hex_chunk_def parse_u8_hex_pair [OF assms])
  also have "\<dots> \<longleftrightarrow> unat b = x * 16 + y"
    using u by (metis unsigned_word_eqI)
  also have "\<dots> \<longleftrightarrow> x = unat b div 16 \<and> y = unat b mod 16"
    using lt by auto
  finally show ?thesis using xy by (auto simp: hex2_lower_iff)
qed


lemma chunks_hex:
  "(\<And>c. c \<in> set s \<Longrightarrow> is_ascii_hexdigit c) \<Longrightarrow> even (length s) \<Longrightarrow>
   map_run (parse_hex_chunk raw) (chunks 2 (map of_nat s)) = Return (Ok bs)
     \<longleftrightarrow> to_ascii_lowercase s = hex_text bs"
proof (induction s arbitrary: bs rule: induct_list012)
  case 1
  then show ?case by (auto simp: to_ascii_lowercase_def)
next
  case (2 x)
  then show ?case by simp
next
  case (3 c d s)
  have ch: "chunks 2 (map of_nat (c # d # s)) = [of_nat c, of_nat d] # chunks 2 (map of_nat s)"
    using chunks_append [of 2 "[of_nat c, of_nat d]" "map of_nat s"] by simp
  have lo: "to_ascii_lowercase (c # d # s) = to_ascii_lowercase [c, d] @ to_ascii_lowercase s"
    by (simp add: to_ascii_lowercase_def)
  have IH: "map_run (parse_hex_chunk raw) (chunks 2 (map of_nat s)) = Return (Ok ys)
      \<longleftrightarrow> to_ascii_lowercase s = hex_text ys" for ys
    using 3 by simp
  have hd: "parse_hex_chunk raw [of_nat c, of_nat d] = Return (Ok b)
      \<longleftrightarrow> to_ascii_lowercase [c, d] = hex2 b" for b
    using 3 by (intro parse_hex_chunk_pair) auto
  have l2: "length (to_ascii_lowercase [c, d]) = 2" by (simp add: to_ascii_lowercase_def)
  show ?case
  proof (cases bs)
    case Nil
    then show ?thesis by (simp only: ch map_run.simps and_try_eq_Ok) (auto simp: to_ascii_lowercase_def)
  next
    case (Cons b bs')
    have "to_ascii_lowercase (c # d # s) = hex2 b @ hex_text bs'
        \<longleftrightarrow> to_ascii_lowercase [c, d] = hex2 b \<and> to_ascii_lowercase s = hex_text bs'"
      using l2 by (subst lo) (simp add: append_eq_append_conv)
    then show ?thesis by (simp only: ch map_run.simps Cons and_try_eq_Ok IH hd hex_text_simps) auto
  qed
qed

lemma hex_text_parse_iff:
  "parse_hex_string raw = Return (Ok bs) \<longleftrightarrow> to_ascii_lowercase (hex_clean raw) = hex_text bs"
proof (cases "\<forall>c \<in> set (hex_clean raw). is_ascii_hexdigit c")
  case False
  then obtain c where c: "c \<in> set (hex_clean raw)" "\<not> is_ascii_hexdigit c" by blast
  moreover obtain d where "find (\<lambda>c. \<not> is_ascii_hexdigit c) (hex_clean raw) = Some d"
    using False by (cases "find (\<lambda>c. \<not> is_ascii_hexdigit c) (hex_clean raw)") (auto simp: find_None_iff)
  ultimately have "parse_hex_string raw \<noteq> Return (Ok bs)"
    by (auto simp: parse_hex_string_def Let_def)
  moreover have "to_ascii_lowercase (hex_clean raw) \<noteq> hex_text bs"
  proof
    assume e: "to_ascii_lowercase (hex_clean raw) = hex_text bs"
    have "lower_char c \<in> set (hex_text bs)"
      using c(1) by (auto simp flip: e simp: to_ascii_lowercase_def)
    then have "is_ascii_hexdigit (lower_char c)" by (blast dest: hex_text_chars)
    with c(2) show False by (auto simp: is_ascii_hexdigit_def lower_char_def split: if_splits)
  qed
  ultimately show ?thesis by simp
next
  case True
  let ?s = "hex_clean raw"
  have asc: "c < 128" if "c \<in> set ?s" for c using True that hexdigit_ascii by blast
  then have u: "utf8 ?s = map of_nat ?s" and l: "str_len ?s = length ?s"
    by (auto intro: utf8_ascii str_len_ascii)
  have f: "find (\<lambda>c. \<not> is_ascii_hexdigit c) ?s = None" using True by (simp add: find_None_iff)
  have odd: "to_ascii_lowercase ?s \<noteq> hex_text bs" if "odd (length ?s)"
  proof
    assume "to_ascii_lowercase ?s = hex_text bs"
    then have "length ?s = 2 * length bs" by (metis length_map length_hex_text to_ascii_lowercase_def)
    with that show False by simp
  qed
  show ?thesis
    using True odd by (auto simp: parse_hex_string_def Let_def f l u chunks_hex to_ascii_lowercase_def)
qed

lemma parse_hex_chunk_returns:
  "(\<And>c. c \<in> set s \<Longrightarrow> c < 128) \<Longrightarrow> returns (parse_hex_chunk raw (map of_nat s))"
  by (simp add: parse_hex_chunk_def from_utf8_ascii)

lemma parse_hex_returns [returning]: "returns (parse_hex_string raw)"
proof (cases "find (\<lambda>c. \<not> is_ascii_hexdigit c) (hex_clean raw)")
  case None
  let ?s = "hex_clean raw"
  have asc: "c < 128" if "c \<in> set ?s" for c
    using None that hexdigit_ascii by (auto simp: find_None_iff)
  then have u: "utf8 ?s = map of_nat ?s" by (auto intro: utf8_ascii)
  have "returns (parse_hex_chunk raw (map of_nat t))" if "t \<in> set (chunks 2 ?s)" for t
    by (rule parse_hex_chunk_returns, rule asc) (use that chunks_elems [of t 2 ?s] in auto)
  then have "returns (map_run (parse_hex_chunk raw) (chunks 2 (map of_nat ?s)))"
    by (intro map_run_returns) (auto simp: chunks_map)
  then show ?thesis by (simp add: parse_hex_string_def Let_def None u)
qed (simp add: parse_hex_string_def Let_def)


section \<open>BITS: what is set\<close>

text \<open>Bit \<open>p\<close> of a BITS value: the most significant bit of the first byte is bit 0.\<close>

definition bits_at :: "bytes \<Rightarrow> nat \<Rightarrow> bool" where
  "bits_at bs p \<longleftrightarrow> p div 8 < length bs \<and> bit (bs ! (p div 8)) (7 - p mod 8)"

text \<open>No byte after the last bit that is set.\<close>

definition bits_canonical :: "bytes \<Rightarrow> bool" where
  "bits_canonical bs \<longleftrightarrow> bs = [] \<or> last bs \<noteq> 0"

lemma bits_at_Nil [simp]: "\<not> bits_at [] p"
  by (simp add: bits_at_def)

lemma bits_at_zero [simp]: "\<not> bits_at (replicate n 0) p"
  by (simp add: bits_at_def)

lemma bits_at_update:
  assumes "q div 8 < length out"
  shows "bits_at (out[q div 8 := out ! (q div 8) OR push_bit (7 - q mod 8) 1]) p
     \<longleftrightarrow> bits_at out p \<or> p = q"
proof (cases "p div 8 = q div 8")
  case True
  have "7 - q mod 8 = 7 - p mod 8 \<longleftrightarrow> q mod 8 = p mod 8"
    using mod_less_divisor [of 8 p] mod_less_divisor [of 8 q] by linarith
  moreover have "q mod 8 = p mod 8 \<longleftrightarrow> p = q" using True by (metis mult_div_mod_eq)
  moreover have "bit (push_bit (7 - q mod 8) 1 :: u8) (7 - p mod 8) \<longleftrightarrow> 7 - q mod 8 = 7 - p mod 8"
    by (auto simp: bit_simps)
  ultimately show ?thesis using True assms by (auto simp: bits_at_def bit_or_iff)
next
  case False
  then have "p \<noteq> q" by auto
  with False show ?thesis by (simp add: bits_at_def)
qed

lemma unat_pos_split: "unat (p div 8 :: u32) = unat p div 8" "unat (p mod 8 :: u32) = unat p mod 8"
  by (simp_all add: unat_div unat_mod)

lemma set_positions_Return:
  "(\<forall>p \<in> set ps. unat p div 8 < length out) \<Longrightarrow>
   \<exists>r. set_positions ps out = Return r \<and> length r = length out
     \<and> (\<forall>p. bits_at r p \<longleftrightarrow> bits_at out p \<or> p \<in> unat ` set ps)"
proof (induction ps arbitrary: out)
  case (Cons q ps)
  let ?out = "out[unat q div 8 := out ! (unat q div 8) OR push_bit (7 - unat q mod 8) 1]"
  from Cons.prems have q: "unat q div 8 < length out" by simp
  have B: "bits_at ?out p \<longleftrightarrow> bits_at out p \<or> p = unat q" for p
    by (rule bits_at_update [OF q])
  have "\<forall>p \<in> set ps. unat p div 8 < length ?out" using Cons.prems by simp
  from Cons.IH [OF this] obtain r where r: "set_positions ps ?out = Return r"
      "length r = length out" "\<forall>p. bits_at r p \<longleftrightarrow> bits_at ?out p \<or> p \<in> unat ` set ps"
    by (auto simp only: length_list_update)
  have "set_positions (q # ps) out = Return r"
    using q r(1) by (simp only: set_positions.simps Let_def unat_pos_split if_True)
  moreover have "\<forall>p. bits_at r p \<longleftrightarrow> bits_at out p \<or> p \<in> unat ` set (q # ps)"
    using r(3) B by simp
  ultimately show ?case using r(2) by blast
qed simp

lemma bit_position:
  fixes i k :: nat
  assumes "k < 8"
  shows "(i * 8 + (7 - k)) div 8 = i" "7 - (i * 8 + (7 - k)) mod 8 = k"
proof -
  obtain j where j: "7 - k = j" "j < 8" "k = 7 - j"
    using assms by (intro that [of "7 - k"]) auto
  then show "(i * 8 + (7 - k)) div 8 = i" "7 - (i * 8 + (7 - k)) mod 8 = k"
    by (simp_all only: j(1)) simp_all
qed

lemma bits_length_le:
  assumes "bits_canonical bs" and "\<And>p. bits_at bs p \<Longrightarrow> bits_at cs p"
  shows "length bs \<le> length cs"
proof (rule ccontr)
  assume n: "\<not> length bs \<le> length cs"
  then have "bs \<noteq> []" by auto
  with assms(1) have "last bs \<noteq> 0" by (simp add: bits_canonical_def)
  then obtain k where k: "bit (last bs) k" by (auto simp: bit_eq_iff)
  then have "k < 8" using bit_imp_le_length by fastforce
  define p where "p = (length bs - 1) * 8 + (7 - k)"
  have "p div 8 = length bs - 1" "7 - p mod 8 = k"
    unfolding p_def by (rule bit_position [OF \<open>k < 8\<close>])+
  with k \<open>bs \<noteq> []\<close> have "bits_at bs p" by (simp add: bits_at_def last_conv_nth)
  then have "p div 8 < length cs" using assms(2) by (simp add: bits_at_def)
  with \<open>p div 8 = length bs - 1\<close> n \<open>bs \<noteq> []\<close> show False by (cases bs) auto
qed

text \<open>The bits determine a canonical value.\<close>

lemma bits_determine:
  assumes "bits_canonical bs" and "bits_canonical cs" and "\<And>p. bits_at bs p \<longleftrightarrow> bits_at cs p"
  shows "bs = cs"
proof (rule nth_equalityI)
  show len: "length bs = length cs"
    using assms by (intro antisym bits_length_le) auto
  show "bs ! i = cs ! i" if "i < length bs" for i
  proof (rule bit_word_eqI)
    fix k assume "k < LENGTH(8)"
    then have "k < 8" by simp
    then show "bit (bs ! i) k \<longleftrightarrow> bit (cs ! i) k"
      using assms(3) [of "i * 8 + (7 - k)"] that len
      by (simp only: bits_at_def bit_position simp_thms)
  qed
qed

lemma trim_Nil_iff: "trim s = [] \<longleftrightarrow> (\<forall>c \<in> set s. is_whitespace c)"
proof
  assume "trim s = []"
  then have "\<forall>c \<in> set (dropWhile is_whitespace s). is_whitespace c"
    by (simp add: trim_def trim_end_def trim_start_def)
  then have "dropWhile is_whitespace s = []"
    by (metis dropWhile_eq_Nil_conv dropWhile_idem)
  then show "\<forall>c \<in> set s. is_whitespace c" by simp
next
  assume "\<forall>c \<in> set s. is_whitespace c"
  then have "dropWhile is_whitespace s = []" by simp
  then show "trim s = []"
    by (simp only: trim_def trim_end_def trim_start_def rev.simps dropWhile.simps)
qed

lemma bit_tokens_blank: "\<forall>c \<in> set s. is_whitespace c \<Longrightarrow> bit_tokens s = []"
proof -
  assume a: "\<forall>c \<in> set s. is_whitespace c"
  have "t = []" if "t \<in> set (split (\<lambda>c. c = 44 \<or> is_whitespace c) s)" for t
    using split_pieces [OF that] a by (cases t) auto
  then show ?thesis by (simp add: bit_tokens_def)
qed

lemma parse_bits_tokens:
  "parse_bits raw =
     (case map_try parse_u32 (bit_tokens raw) of
        Err e \<Rightarrow> Return (Err (lit ''invalid BITS positions in '' @ [39] @ raw @ [39] @ lit '': ''
                              @ show_int_error e))
      | Ok [] \<Rightarrow> Return (Ok [])
      | Ok (p # ps) \<Rightarrow>
          let mx = Max (set (p # ps)) in
          if MAX_BIT_POSITION < mx
          then Return (Err (lit ''BITS position '' @ dec (unat mx) @ lit '' exceeds maximum ''
                            @ dec (unat MAX_BIT_POSITION)))
          else map_outcome Ok (set_positions (p # ps) (replicate (unat mx div 8 + 1) 0)))"
proof (cases "trim raw = []")
  case True
  then show ?thesis by (simp add: parse_bits_def trim_Nil_iff bit_tokens_blank)
next
  case False
  then show ?thesis
    unfolding parse_bits_def Max.set_eq_fold
    by (simp add: Let_def split: result.split list.split del: set_positions.simps)
qed

lemma positions_result:
  assumes "ps \<noteq> []"
  shows "\<exists>r. set_positions ps (replicate (unat (Max (set ps)) div 8 + 1) 0) = Return r
     \<and> bits_canonical r \<and> (\<forall>p. bits_at r p \<longleftrightarrow> p \<in> unat ` set ps)"
proof -
  let ?n = "unat (Max (set ps)) div 8 + 1"
  have "unat p div 8 < ?n" if "p \<in> set ps" for p
  proof -
    have "p \<le> Max (set ps)" using that by simp
    then show ?thesis by (simp add: word_le_nat_alt div_le_mono le_imp_less_Suc)
  qed
  then obtain r where r: "set_positions ps (replicate ?n 0) = Return r" "length r = ?n"
      "\<forall>p. bits_at r p \<longleftrightarrow> p \<in> unat ` set ps"
    using set_positions_Return [of ps "replicate ?n 0"]
    by (auto simp only: length_replicate bits_at_zero simp_thms)
  have "Max (set ps) \<in> set ps" using assms by (intro Max_in) auto
  then have "bits_at r (unat (Max (set ps)))" using r(3) by blast
  then have "r ! (length r - 1) \<noteq> 0" using r(2) by (auto simp: bits_at_def)
  then have "bits_canonical r" using r(2) by (auto simp: bits_canonical_def last_conv_nth)
  with r show ?thesis by blast
qed

lemma parse_bits_result:
  "parse_bits raw = Return (Ok out) \<longleftrightarrow>
     (\<exists>ps. map_try parse_u32 (bit_tokens raw) = Ok ps
        \<and> (\<forall>p \<in> set ps. unat p \<le> 65535)
        \<and> bits_canonical out \<and> (\<forall>p. bits_at out p \<longleftrightarrow> p \<in> unat ` set ps))"
proof (cases "map_try parse_u32 (bit_tokens raw)")
  case (Err e)
  then show ?thesis by (simp add: parse_bits_tokens)
next
  case (Ok ps)
  show ?thesis
  proof (cases "ps = []")
    case True
    have "out = []" if "bits_canonical out" "\<forall>p. \<not> bits_at out p"
      using bits_determine [of out "[]"] that by (simp add: bits_canonical_def)
    with Ok True show ?thesis
      by (auto simp: parse_bits_tokens bits_canonical_def)
  next
    case False
    then obtain r where r: "set_positions ps (replicate (unat (Max (set ps)) div 8 + 1) 0) = Return r"
        "bits_canonical r" "\<forall>p. bits_at r p \<longleftrightarrow> p \<in> unat ` set ps"
      using positions_result by blast
    have mx: "MAX_BIT_POSITION < Max (set ps) \<longleftrightarrow> \<not> (\<forall>p \<in> set ps. unat p \<le> 65535)"
      using False
      by (simp add: Max_gr_iff MAX_BIT_POSITION_def) (auto simp: word_less_nat_alt not_le)
    have pb: "parse_bits raw = (if MAX_BIT_POSITION < Max (set ps)
        then Return (Err (lit ''BITS position '' @ dec (unat (Max (set ps)))
               @ lit '' exceeds maximum '' @ dec (unat MAX_BIT_POSITION)))
        else Return (Ok r))"
      using Ok False r(1) by (cases ps) (simp_all add: parse_bits_tokens Let_def del: set_positions.simps)
    show ?thesis
    proof (cases "\<forall>p \<in> set ps. unat p \<le> 65535")
      case True
      with mx pb Ok show ?thesis
        using bits_determine [of out r] r(2,3) by auto
    next
      case F: False
      then show ?thesis using mx pb Ok by auto
    qed
  qed
qed

lemma parse_bits_returns [returning]: "returns (parse_bits raw)"
proof (cases "map_try parse_u32 (bit_tokens raw)")
  case (Ok ps)
  then show ?thesis
    using positions_result [of ps]
    by (cases ps) (auto simp: parse_bits_tokens Let_def simp del: set_positions.simps)
qed (simp add: parse_bits_tokens)



section \<open>Typed values: every call returns; the spelled form\<close>

lemma parse_typed_value_returns [returning]: "returns (parse_typed_value letter raw)"
  by (simp add: parse_typed_value_def parse_hex_returns parse_bits_returns)

definition type_letters :: rstr where
  "type_letters = lit ''iutaosxnbU''"

lemma typed_value_letters:
  "parse_typed_value letter raw = Return (Err (UnknownLetter l)) \<longleftrightarrow>
     letter \<notin> set type_letters \<and> l = letter"
proof (cases "letter \<in> set type_letters")
  case True
  then show ?thesis
    by (auto simp: type_letters_def lit_def parse_typed_value_def split: option.splits)
next
  case False
  then show ?thesis by (auto simp: type_letters_def lit_def parse_typed_value_def)
qed

text \<open>
  A spelling of every value on the command line: the type letter and the text. Octet strings
  are written in hexadecimal, BITS as the comma separated positions that are set.
\<close>

fun join_with :: "rchar \<Rightarrow> rstr list \<Rightarrow> rstr" where
  "join_with sep [] = []"
| "join_with sep [t] = t"
| "join_with sep (t # ts) = t @ sep # join_with sep ts"

definition bit_positions :: "bytes \<Rightarrow> nat list" where
  "bit_positions bs = filter (bits_at bs) [0..<8 * length bs]"

fun spell :: "varbind_value \<Rightarrow> rchar \<times> rstr" where
  "spell (VInteger i) = (of_char CHR ''i'', dec_int (sint i))"
| "spell (VUnsigned32 u) = (of_char CHR ''u'', dec (unat u))"
| "spell (VTimeTicks t) = (of_char CHR ''t'', dec (unat t))"
| "spell (VIpAddress ip) = (of_char CHR ''a'', show_ipv4 ip)"
| "spell (VObjectId arcs) = (of_char CHR ''o'', show_arcs arcs)"
| "spell (VOctetString bs) = (of_char CHR ''x'', hex_text bs)"
| "spell VNull = (of_char CHR ''n'', [])"
| "spell (VBits bs) = (of_char CHR ''b'', join_with 44 (map dec (bit_positions bs)))"
| "spell (VCounter64 n) = (of_char CHR ''U'', dec (unat n))"

text \<open>The values a command line can express.\<close>

fun expressible :: "varbind_value \<Rightarrow> bool" where
  "expressible (VObjectId arcs) = valid_oid arcs"
| "expressible (VBits bs) = (bits_canonical bs \<and> length bs \<le> 8192)"
| "expressible _ = True"

lemma filter_split_join:
  "(\<And>t c. t \<in> set ts \<Longrightarrow> c \<in> set t \<Longrightarrow> \<not> P c) \<Longrightarrow> (\<And>t. t \<in> set ts \<Longrightarrow> t \<noteq> []) \<Longrightarrow> P sep \<Longrightarrow>
   filter (\<lambda>t. t \<noteq> []) (split P (join_with sep ts)) = ts"
proof (induction sep ts rule: join_with.induct)
  case (2 sep t)
  then show ?case by (simp add: split_none)
next
  case (3 sep t u ts)
  have "split P (t @ sep # join_with sep (u # ts)) = t # split P (join_with sep (u # ts))"
    using 3 by (intro split_append_sep) auto
  moreover have "filter (\<lambda>t. t \<noteq> []) (split P (join_with sep (u # ts))) = u # ts"
    using "3.prems" by (intro "3.IH") auto
  ultimately show ?case using "3.prems"(2) [of t] by simp
qed simp

lemma dec_plain: "c \<in> set (dec n) \<Longrightarrow> \<not> (c = 44 \<or> is_whitespace c)"
  using dec_digits [of c n] by (auto simp: is_whitespace_def)

lemma bit_tokens_join: "bit_tokens (join_with 44 (map dec ps)) = map dec ps"
  unfolding bit_tokens_def by (rule filter_split_join) (auto dest: dec_plain)

lemma bits_at_bound: "bits_at bs p \<Longrightarrow> p < 8 * length bs"
  by (auto simp: bits_at_def)

lemma set_bit_positions: "p \<in> set (bit_positions bs) \<longleftrightarrow> bits_at bs p"
  using bits_at_bound by (auto simp: bit_positions_def)

lemma parse_bits_spelled:
  assumes "bits_canonical bs" and "length bs \<le> 8192"
  shows "parse_bits (join_with 44 (map dec (bit_positions bs))) = Return (Ok bs)"
proof -
  let ?ps = "bit_positions bs"
  have b: "p \<le> 65535" if "p \<in> set ?ps" for p
    using that assms(2) bits_at_bound [of bs p] by (auto simp: set_bit_positions)
  have u: "unat (of_nat p :: u32) = p" if "p \<in> set ?ps" for p
    using b [OF that] by (simp add: unat_of_nat)
  have "parse_u32 (dec p) = Ok (of_nat p)" if "p \<in> set ?ps" for p
    using parse_u32_dec [of "of_nat p"] by (simp only: u [OF that])
  then have "map_try parse_u32 (bit_tokens (join_with 44 (map dec ?ps))) = Ok (map of_nat ?ps)"
    by (simp add: bit_tokens_join map_try_Ok_iff list_all2_map1 list_all2_map2 list_all2_same)
  moreover have "unat ` set (map of_nat ?ps :: u32 list) = set ?ps"
    using u by (force simp: image_image)
  moreover have "\<forall>p \<in> set (map of_nat ?ps :: u32 list). unat p \<le> 65535"
    using u b by auto
  ultimately show ?thesis
    using assms(1) by (simp only: parse_bits_result) (auto simp: set_bit_positions)
qed

lemma hex_clean_hex_text: "hex_clean (hex_text bs) = hex_text bs"
proof -
  have p: "\<not> is_whitespace c \<and> c \<noteq> 58 \<and> c \<noteq> 120 \<and> c \<noteq> 88" if "c \<in> set (hex_text bs)" for c
    using hex_text_chars [OF that] by (auto simp: is_ascii_hexdigit_def is_whitespace_def)
  have t: "trim (hex_text bs) = hex_text bs"
    using p by (intro trim_id) (cases "hex_text bs"; auto)
  have n: "strip_prefix (lit ''0x'') (hex_text bs) = None" "strip_prefix (lit ''0X'') (hex_text bs) = None"
    using p [of 120] p [of 88]
    by (auto simp: strip_prefix_Some_iff lit_def simp flip: not_Some_eq)
  have "filter (\<lambda>c. \<not> is_whitespace c \<and> c \<noteq> 58) (hex_text bs) = hex_text bs"
    using p by (auto intro: filter_True)
  with t n show ?thesis by (simp add: hex_clean_def)
qed

lemma parse_hex_hex_text: "parse_hex_string (hex_text bs) = Return (Ok bs)"
  by (simp add: hex_text_parse_iff hex_clean_hex_text)

lemma parse_spelled:
  "expressible v \<Longrightarrow> parse_typed_value (fst (spell v)) (snd (spell v)) = Return (Ok v)"
  by (cases v) (simp_all add: parse_typed_value_def parse_oid_show parse_hex_hex_text
      parse_bits_spelled)

text \<open>Conversely, only expressible values are ever produced.\<close>

lemma parse_expressible:
  assumes "parse_typed_value letter raw = Return (Ok v)"
  shows "expressible v"
proof (cases v)
  case (VObjectId arcs)
  with assms show ?thesis
    by (auto simp: parse_typed_value_def parse_oid_Ok_iff split: if_splits option.splits)
next
  case (VBits bs)
  with assms have "parse_bits raw = Return (Ok bs)"
    by (auto simp: parse_typed_value_def split: if_splits option.splits)
  then have c: "bits_canonical bs" and b: "\<And>p. bits_at bs p \<Longrightarrow> p \<le> 65535"
    by (auto simp: parse_bits_result)
  have "bits_at bs p \<Longrightarrow> bits_at (replicate 8192 (- 1)) p" for p
    using b [of p] by (auto simp: bits_at_def bit_simps)
  then have "length bs \<le> 8192" using bits_length_le [OF c, of "replicate 8192 (- 1)"] by simp
  with c VBits show ?thesis by simp
qed simp_all

section \<open>Properties\<close>

text \<open>
  Two texts that parse to different object identifiers never get the same wire bytes: the
  combined first octet and the remaining arcs determine every identifier the parser lets
  through, and each has a spelling, with or without a leading dot, that parses back to it.
\<close>

lemma parsed_oids_unambiguous:
  assumes "parse_oid s = Ok xs" and "parse_oid t = Ok ys"
    and "ber_first xs = ber_first ys" and "drop 2 xs = drop 2 ys"
  shows "xs = ys \<and> parse_oid (show_arcs xs) = Ok xs \<and> parse_oid (46 # show_arcs xs) = Ok xs"
proof -
  have v: "valid_oid xs" "valid_oid ys" using assms(1,2) by (simp_all add: parse_oid_Ok_iff)
  then have l: "2 \<le> length xs" "2 \<le> length ys" by (simp_all add: valid_oid_def)
  have two: "zs = zs ! 0 # zs ! 1 # drop 2 zs" if "2 \<le> length zs" for zs :: "u32 list"
    using that by (cases zs; cases "tl zs") (auto simp: numeral_2_eq_2)
  have "xs ! 0 = ys ! 0 \<and> xs ! 1 = ys ! 1" by (rule ber_first_inj [OF v assms(3)])
  with assms(4) two [OF l(1)] two [OF l(2)] have "xs = ys" by metis
  with v parse_oid_show show ?thesis by blast
qed

text \<open>
  C15: The values that can be typed on the command line are the expressible ones: each has a
  spelling, a type letter and a text, which parses back to it, and nothing else is ever
  parsed.
\<close>

lemma typed_value_roundtrip:
  "(\<exists>letter raw. parse_typed_value letter raw = Return (Ok v)) = expressible v
   \<and> (parse_typed_value (fst (spell v)) (snd (spell v)) = Return (Ok v)) = expressible v"
  using parse_spelled [of v] parse_expressible [of _ _ v] by blast

lemma typed_value_known:
  "parse_typed_value letter raw = Return (Ok v) \<Longrightarrow> letter \<in> set type_letters"
  "parse_typed_value letter raw = Return (Err (BadValue l d)) \<Longrightarrow> l = letter \<and> letter \<in> set type_letters"
proof -
  have u: "letter \<notin> set type_letters \<Longrightarrow> parse_typed_value letter raw = Return (Err (UnknownLetter letter))"
    using typed_value_letters [of letter raw letter] by simp
  then show "parse_typed_value letter raw = Return (Ok v) \<Longrightarrow> letter \<in> set type_letters" by force
  assume h: "parse_typed_value letter raw = Return (Err (BadValue l d))"
  have "l = letter"
    using h unfolding parse_typed_value_def
    by (auto split: if_splits option.splits)
  with h u show "l = letter \<and> letter \<in> set type_letters" by force
qed

text \<open>
  C38: Parsing a typed value never panics, whatever the letter and the text. A success is an
  expressible value of a known letter; a letter that names no type is reported as unknown, and
  every other failure is a bad value of the letter given.
\<close>

lemma typed_value_total:
  "\<exists>r. parse_typed_value letter raw = Return r
     \<and> (case r of
          Ok v \<Rightarrow> letter \<in> set type_letters \<and> expressible v
        | Err (UnknownLetter l) \<Rightarrow> l = letter \<and> letter \<notin> set type_letters
        | Err (BadValue l d) \<Rightarrow> l = letter \<and> letter \<in> set type_letters)"
proof -
  obtain r where r: "parse_typed_value letter raw = Return r"
    using parse_typed_value_returns [of letter raw] by (auto simp: returns_def)
  show ?thesis
  proof (intro exI [of _ r] conjI r, cases r)
    case (Ok v)
    with r show "case r of
          Ok v \<Rightarrow> letter \<in> set type_letters \<and> expressible v
        | Err (UnknownLetter l) \<Rightarrow> l = letter \<and> letter \<notin> set type_letters
        | Err (BadValue l d) \<Rightarrow> l = letter \<and> letter \<in> set type_letters"
      using typed_value_known(1) [of letter raw v] parse_expressible [of letter raw v] by simp
  next
    case (Err e)
    with r show "case r of
          Ok v \<Rightarrow> letter \<in> set type_letters \<and> expressible v
        | Err (UnknownLetter l) \<Rightarrow> l = letter \<and> letter \<notin> set type_letters
        | Err (BadValue l d) \<Rightarrow> l = letter \<and> letter \<in> set type_letters"
      using typed_value_letters [of letter raw] typed_value_known(2) [of letter raw]
      by (cases e) auto
  qed
qed

text \<open>
  C16: BITS texts denote exactly sets of positions up to 65535: the result has bit \<open>p\<close>, counted
  from the most significant bit of the first octet, set for the listed positions and no other,
  and has no octet after the last one that is needed.
\<close>

lemma parse_bits_exact:
  "parse_bits raw = Return (Ok out) \<longleftrightarrow>
     (\<exists>ps. map_try parse_u32 (bit_tokens raw) = Ok ps \<and> unat ` set ps \<subseteq> {0..65535}
        \<and> bits_canonical out \<and> {p. bits_at out p} = unat ` set ps)"
  unfolding parse_bits_result by (auto simp: set_eq_iff image_subset_iff)

end
