(* ===== verification/Errors.thy ===== *)
theory Errors
  imports IpAddr
begin

text \<open>
  \<open>src/error.rs\<close> and \<open>src/main.rs\<close>: the program's error type, the platform it names, its
  exit codes and the text it prints. Of \<open>std::io::Error\<close> the kind, the errno (by its libc
  name) and the message are kept, which is all the program looks at.
\<close>

section \<open>The operating system's errors\<close>

datatype target = TargetLinux | TargetMacos | TargetBsd | TargetOther

datatype errno =
    EPERM | EACCES | EMSGSIZE | EHOSTUNREACH | ENETUNREACH | EADDRNOTAVAIL | EADDRINUSE
  | ErrnoOther int

datatype io_kind =
    HostUnreachable | NetworkUnreachable | AddrNotAvailable | Interrupted | InvalidData
  | KindOther | KindUnnamed

record io_error =
  io_kind :: io_kind
  raw_os_error :: "errno option"
  io_text :: rstr

definition io_error_new :: "io_kind \<Rightarrow> rstr \<Rightarrow> io_error" where
  "io_error_new k msg = \<lparr>io_kind = k, raw_os_error = None, io_text = msg\<rparr>"

definition io_error_other :: "rstr \<Rightarrow> io_error" where
  "io_error_other msg = io_error_new KindOther msg"

section \<open>The program's errors\<close>

datatype platform = Linux | Macos | OtherPlatform

datatype error =
    Usage rstr
  | RawSocketDenied platform io_error
  | Unsupported rstr
  | PayloadExceedsMtu nat io_error
  | Routing io_error
  | Encode rstr
  | Other io_error

definition platform_current :: "target \<Rightarrow> platform" where
  "platform_current t =
     (if t = TargetLinux then Linux else if t = TargetMacos then Macos else OtherPlatform)"

definition exit_code :: "error \<Rightarrow> u8" where
  "exit_code e = (case e of Usage _ \<Rightarrow> 2 | _ \<Rightarrow> 1)"

definition error_from_io :: "io_error \<Rightarrow> error" where
  "error_from_io e = Other e"

section \<open>Display\<close>

definition newline :: rstr where
  "newline = [10]"

fun show_remediation :: "platform \<Rightarrow> rstr" where
  "show_remediation Linux =
     newline
     @ lit ''On Linux, grant it once with:'' @ newline
     @ newline
     @ lit ''    sudo setcap cap_net_raw+ep '' @ [34] @ lit ''$(command -v snmptrap-rs)'' @ [34]
     @ newline
     @ newline
     @ lit ''Or run as root.'' @ newline"
| "show_remediation Macos =
     newline
     @ lit ''On macOS, run as root (sudo). macOS has no per-binary capability grant.'' @ newline"
| "show_remediation OtherPlatform =
     newline
     @ lit ''On this platform, run as root.'' @ newline"

fun show_error :: "error \<Rightarrow> rstr" where
  "show_error (Usage msg) = msg"
| "show_error (RawSocketDenied platform underlying) =
     lit ''--src-addr requires raw IP socket capability, which this binary does not have.''
     @ newline
     @ show_remediation platform
     @ lit ''(raw socket open failed: '' @ io_text underlying @ lit '')''"
| "show_error (Unsupported msg) = msg"
| "show_error (PayloadExceedsMtu payload_len underlying) =
     (let total = payload_len + 20 + 8 in
      lit ''SNMP payload is '' @ dec payload_len @ lit '' bytes ('' @ dec total
      @ lit '' bytes on the wire after IP+UDP headers) and exceeds the egress interface path MTU.''
      @ newline
      @ newline
      @ lit ''The --src-addr code path sets the IPv4 Don'' @ [39]
      @ lit ''t-Fragment bit by design, so the kernel refuses to fragment and returns EMSGSIZE.''
      @ newline
      @ newline
      @ lit ''Reduce the trap size '' @ [8212]
      @ lit '' drop optional varbinds or split it across multiple traps '' @ [8212]
      @ lit '' or send without --src-addr to let the kernel fragment.''
      @ newline
      @ lit ''(raw send failed: '' @ io_text underlying @ lit '')'')"
| "show_error (Routing io) = lit ''send failed: '' @ io_text io"
| "show_error (Encode msg) = lit ''encoding error: '' @ msg"
| "show_error (Other io) = io_text io"

text \<open>What \<open>report_to_stderr\<close> writes.\<close>

definition report_to_stderr :: "error \<Rightarrow> rstr" where
  "report_to_stderr e = lit ''error: '' @ show_error e @ newline"

section \<open>The process result\<close>

text \<open>\<open>main\<close>: what reaches stderr from the error report, and the exit status.\<close>

definition main_result :: "(unit, error) result \<Rightarrow> rstr \<times> u8" where
  "main_result r =
     (case r of Ok _ \<Rightarrow> ([], 0) | Err err \<Rightarrow> (report_to_stderr err, exit_code err))"

lemma exit_code_cases: "exit_code e = (if (\<exists>m. e = Usage m) then 2 else 1)"
  by (cases e) (auto simp: exit_code_def)

lemma exit_code_nonzero [simp]: "exit_code e \<noteq> 0"
  by (simp add: exit_code_cases)

lemma lit_append [simp]: "lit (s @ t) = lit s @ lit t"
  by (simp add: lit_def)

lemma lit_Nil [simp]: "lit [] = []"
  by (simp add: lit_def)

lemma length_lit [simp]: "length (lit s) = length s"
  by (simp add: lit_def)

lemma lit_eq_Nil [simp]: "lit s = [] \<longleftrightarrow> s = []"
  by (simp add: lit_def)

lemma error_from_io_simps [simp]: "error_from_io e \<noteq> Usage m" "error_from_io e \<noteq> Encode m"
  by (simp_all add: error_from_io_def)

end
