(* ===== verification/Pdu.thy ===== *)
theory Pdu
  imports Varbind Errors
begin

text \<open>
  \<open>src/pdu.rs\<close>: the SNMPv1 and SNMPv2c trap messages. The message types are those of the
  crates \<open>rasn-smi\<close> and \<open>rasn-snmp\<close>, with the constructors the program builds; the BER
  encoder of the crate \<open>rasn\<close>, which may fail with a message, is the parameter \<open>codec\<close>.
\<close>

section \<open>Message types of the crates\<close>

type_synonym oid = "u32 list"

datatype simple_v2 = IntegerV2 int | StringV2 bytes | ObjectIdV2 oid
datatype application_v2 = UnsignedV2 u32 | TicksV2 u32 | AddressV2 bytes | BigCounterV2 u64
datatype object_v2 = SimpleV2 simple_v2 | ApplicationWideV2 application_v2
datatype value_v2 = ValueV2 object_v2 | UnspecifiedV2

record varbind_v2 =
  name_v2 :: oid
  value_v2 :: value_v2

record pdu_v2 =
  request_id :: i32
  error_status :: u32
  error_index :: u32
  variable_bindings :: "varbind_v2 list"

record message_v2c =
  v2c_version :: int
  v2c_community :: bytes
  v2c_data :: pdu_v2

datatype network_address = Internet bytes
datatype simple_v1 = NumberV1 int | StringV1 bytes | ObjectV1 oid | EmptyV1
datatype application_v1 = AddressV1 network_address | GaugeV1 u32 | TicksV1 u32
datatype object_v1 = SimpleV1 simple_v1 | ApplicationWideV1 application_v1

record varbind_v1 =
  name_v1 :: oid
  value_v1 :: object_v1

record trap_v1 =
  trap_enterprise :: oid
  trap_agent_addr :: network_address
  trap_generic :: int
  trap_specific :: int
  trap_time_stamp :: u32
  trap_bindings :: "varbind_v1 list"

record message_v1 =
  v1_version :: int
  v1_community :: bytes
  v1_data :: trap_v1

text \<open>The messages of SNMPv3: header, scoped PDU and security parameters.\<close>

record header_v3 =
  message_id :: int
  max_size :: int
  flags :: bytes
  security_model :: int

record scoped_pdu =
  scoped_engine_id :: bytes
  scoped_name :: bytes
  scoped_trap :: pdu_v2

datatype scoped_data = CleartextPdu scoped_pdu | EncryptedPdu bytes

record usm_params =
  authoritative_engine_id :: bytes
  authoritative_engine_boots :: int
  authoritative_engine_time :: int
  usm_user_name :: bytes
  authentication_parameters :: bytes
  privacy_parameters :: bytes

record message_v3 =
  v3_version :: int
  global_data :: header_v3
  security_parameters :: bytes
  v3_scoped_data :: scoped_data

text \<open>
  The encoder, one function per type it is used at, and the constants the crates define: the
  error status noError and the version numbers of SNMPv1 and SNMPv2c.
\<close>

record codec =
  encode_v1 :: "message_v1 \<Rightarrow> (bytes, rstr) result"
  encode_v2c :: "message_v2c \<Rightarrow> (bytes, rstr) result"
  encode_scoped :: "scoped_pdu \<Rightarrow> (bytes, rstr) result"
  encode_usm :: "usm_params \<Rightarrow> (bytes, rstr) result"
  encode_v3 :: "message_v3 \<Rightarrow> (bytes, rstr) result"
  no_error_status :: u32
  version_v1 :: int
  version_v2c :: int

section \<open>Traps\<close>

definition SYS_UPTIME_OID :: oid where
  "SYS_UPTIME_OID = [1, 3, 6, 1, 2, 1, 1, 3, 0]"

definition SNMP_TRAP_OID_OID :: oid where
  "SNMP_TRAP_OID_OID = [1, 3, 6, 1, 6, 3, 1, 1, 4, 1, 0]"

definition DEFAULT_V1_ENTERPRISE_OID :: oid where
  "DEFAULT_V1_ENTERPRISE_OID = [1, 3, 6, 1, 4, 1, 3, 1, 1]"

record v2c_trap =
  v2t_community :: bytes
  v2t_request_id :: i32
  v2t_uptime :: u32
  v2t_trap_oid :: oid
  v2t_varbinds :: "(oid \<times> varbind_value) list"

record v1_trap =
  v1t_community :: bytes
  v1t_enterprise :: oid
  v1t_agent_addr :: ipv4
  v1t_generic :: i32
  v1t_specific :: i32
  v1t_uptime :: u32
  v1t_varbinds :: "(oid \<times> varbind_value) list"

definition make_v2_varbind :: "oid \<Rightarrow> varbind_value \<Rightarrow> (varbind_v2, error) result" where
  "make_v2_varbind oid v =
     (let value = (case v of
          VInteger i \<Rightarrow> ValueV2 (SimpleV2 (IntegerV2 (sint i)))
        | VUnsigned32 u \<Rightarrow> ValueV2 (ApplicationWideV2 (UnsignedV2 u))
        | VTimeTicks t \<Rightarrow> ValueV2 (ApplicationWideV2 (TicksV2 t))
        | VIpAddress ip \<Rightarrow> ValueV2 (ApplicationWideV2 (AddressV2 (octets ip)))
        | VObjectId arcs \<Rightarrow> ValueV2 (SimpleV2 (ObjectIdV2 arcs))
        | VOctetString bs \<Rightarrow> ValueV2 (SimpleV2 (StringV2 bs))
        | VNull \<Rightarrow> UnspecifiedV2
        | VBits bs \<Rightarrow> ValueV2 (SimpleV2 (StringV2 bs))
        | VCounter64 n \<Rightarrow> ValueV2 (ApplicationWideV2 (BigCounterV2 n)))
      in Ok \<lparr>name_v2 = oid, value_v2 = value\<rparr>)"

definition make_v1_varbind :: "oid \<Rightarrow> varbind_value \<Rightarrow> (varbind_v1, error) result" where
  "make_v1_varbind oid v =
     andthen (case v of
          VInteger i \<Rightarrow> Ok (SimpleV1 (NumberV1 (sint i)))
        | VUnsigned32 u \<Rightarrow> Ok (ApplicationWideV1 (GaugeV1 u))
        | VTimeTicks t \<Rightarrow> Ok (ApplicationWideV1 (TicksV1 t))
        | VIpAddress ip \<Rightarrow> Ok (ApplicationWideV1 (AddressV1 (Internet (octets ip))))
        | VObjectId arcs \<Rightarrow> Ok (SimpleV1 (ObjectV1 arcs))
        | VOctetString bs \<Rightarrow> Ok (SimpleV1 (StringV1 bs))
        | VNull \<Rightarrow> Ok (SimpleV1 EmptyV1)
        | VBits _ \<Rightarrow> Err (Encode (lit ''BITS (type '' @ [39] @ lit ''b'' @ [39]
            @ lit '') is SMIv2-only; not representable in SNMPv1, use -v 2c instead''))
        | VCounter64 _ \<Rightarrow> Err (Encode (lit ''Counter64 (type '' @ [39] @ lit ''U'' @ [39]
            @ lit '') is not representable in SNMPv1; use -v 2c instead'')))
       (\<lambda>value. Ok \<lparr>name_v1 = oid, value_v1 = value\<rparr>)"

definition build_v2c_trap :: "codec \<Rightarrow> v2c_trap \<Rightarrow> (bytes, error) result" where
  "build_v2c_trap cd t =
     andthen (make_v2_varbind SYS_UPTIME_OID (VTimeTicks (v2t_uptime t))) (\<lambda>b0.
     andthen (make_v2_varbind SNMP_TRAP_OID_OID (VObjectId (v2t_trap_oid t))) (\<lambda>b1.
     andthen (map_try (\<lambda>(oid, v). make_v2_varbind oid v) (v2t_varbinds t)) (\<lambda>bs.
       let pdu = \<lparr>request_id = v2t_request_id t, error_status = no_error_status cd,
                  error_index = 0, variable_bindings = b0 # b1 # bs\<rparr>;
           message = \<lparr>v2c_version = version_v2c cd, v2c_community = v2t_community t,
                      v2c_data = pdu\<rparr>
       in map_err Encode (encode_v2c cd message))))"

definition build_v1_trap :: "codec \<Rightarrow> v1_trap \<Rightarrow> (bytes, error) result" where
  "build_v1_trap cd t =
     andthen (map_try (\<lambda>(oid, v). make_v1_varbind oid v) (v1t_varbinds t)) (\<lambda>bs.
       let trap = \<lparr>trap_enterprise = v1t_enterprise t,
                   trap_agent_addr = Internet (octets (v1t_agent_addr t)),
                   trap_generic = sint (v1t_generic t), trap_specific = sint (v1t_specific t),
                   trap_time_stamp = v1t_uptime t, trap_bindings = bs\<rparr>;
           message = \<lparr>v1_version = version_v1 cd, v1_community = v1t_community t,
                      v1_data = trap\<rparr>
       in map_err Encode (encode_v1 cd message))"

text \<open>
  The random number generator is a parameter: its answer to a request for a value between two
  bounds. The answer lies between them.
\<close>

type_synonym i32_draw = "i32 \<Rightarrow> i32 \<Rightarrow> i32"

definition fair_draw :: "i32_draw \<Rightarrow> bool" where
  "fair_draw rng \<longleftrightarrow>
     (\<forall>lo hi. sint lo \<le> sint hi \<longrightarrow> sint lo \<le> sint (rng lo hi) \<and> sint (rng lo hi) \<le> sint hi)"

definition I32_MAX :: i32 where "I32_MAX = 0x7FFFFFFF"

definition fresh_request_id :: "i32_draw \<Rightarrow> i32" where
  "fresh_request_id rng = rng 1 I32_MAX"

section \<open>Lemmas\<close>

text \<open>The value a binding carries in the second version of the SMI; it always exists.\<close>

fun smi_v2 :: "varbind_value \<Rightarrow> value_v2" where
  "smi_v2 (VInteger i) = ValueV2 (SimpleV2 (IntegerV2 (sint i)))"
| "smi_v2 (VUnsigned32 u) = ValueV2 (ApplicationWideV2 (UnsignedV2 u))"
| "smi_v2 (VTimeTicks t) = ValueV2 (ApplicationWideV2 (TicksV2 t))"
| "smi_v2 (VIpAddress ip) = ValueV2 (ApplicationWideV2 (AddressV2 (octets ip)))"
| "smi_v2 (VObjectId arcs) = ValueV2 (SimpleV2 (ObjectIdV2 arcs))"
| "smi_v2 (VOctetString bs) = ValueV2 (SimpleV2 (StringV2 bs))"
| "smi_v2 VNull = UnspecifiedV2"
| "smi_v2 (VBits bs) = ValueV2 (SimpleV2 (StringV2 bs))"
| "smi_v2 (VCounter64 n) = ValueV2 (ApplicationWideV2 (BigCounterV2 n))"

lemma make_v2_varbind_Ok [simp]: "make_v2_varbind oid v = Ok \<lparr>name_v2 = oid, value_v2 = smi_v2 v\<rparr>"
  by (cases v) (simp_all add: make_v2_varbind_def)

text \<open>Only the difference between BITS and an octet string is lost on the wire.\<close>

fun erase_bits :: "varbind_value \<Rightarrow> varbind_value" where
  "erase_bits (VBits bs) = VOctetString bs"
| "erase_bits v = v"

lemma smi_v2_eq_iff: "smi_v2 v = smi_v2 w \<longleftrightarrow> erase_bits v = erase_bits w"
  by (cases v; cases w) (auto)

text \<open>The two bindings every SNMPv2 trap starts with, and the caller's in their order.\<close>

definition v2_bindings :: "u32 \<Rightarrow> oid \<Rightarrow> (oid \<times> varbind_value) list \<Rightarrow> varbind_v2 list" where
  "v2_bindings uptime trap_oid vbs =
     \<lparr>name_v2 = SYS_UPTIME_OID, value_v2 = ValueV2 (ApplicationWideV2 (TicksV2 uptime))\<rparr>
     # \<lparr>name_v2 = SNMP_TRAP_OID_OID, value_v2 = ValueV2 (SimpleV2 (ObjectIdV2 trap_oid))\<rparr>
     # map (\<lambda>(oid, v). \<lparr>name_v2 = oid, value_v2 = smi_v2 v\<rparr>) vbs"

lemma map_try_v2 [simp]:
  "map_try (\<lambda>(oid, v). Ok (g oid v)) vbs = Ok (map (\<lambda>(oid, v). g oid v) vbs)"
  by (rule map_try_all_Ok) auto

lemma build_v2c_message:
  "build_v2c_trap cd t = map_err Encode (encode_v2c cd
     \<lparr>v2c_version = version_v2c cd, v2c_community = v2t_community t,
      v2c_data = \<lparr>request_id = v2t_request_id t, error_status = no_error_status cd, error_index = 0,
        variable_bindings = v2_bindings (v2t_uptime t) (v2t_trap_oid t) (v2t_varbinds t)\<rparr>\<rparr>)"
  by (simp add: build_v2c_trap_def v2_bindings_def)

text \<open>The values SNMPv1 can carry.\<close>

fun v1_representable :: "varbind_value \<Rightarrow> bool" where
  "v1_representable (VBits _) = False"
| "v1_representable (VCounter64 _) = False"
| "v1_representable _ = True"

lemma make_v1_is_ok: "is_ok (make_v1_varbind oid v) \<longleftrightarrow> v1_representable v"
  by (cases v) (simp_all add: make_v1_varbind_def)

lemma make_v1_Err: "make_v1_varbind oid v = Err e \<Longrightarrow> \<exists>m. e = Encode m"
  by (cases v) (auto simp: make_v1_varbind_def)

lemma make_v1_inj:
  "make_v1_varbind oid v = Ok b \<Longrightarrow> make_v1_varbind oid' w = Ok b \<Longrightarrow> oid = oid' \<and> v = w"
  by (cases v; cases w) (auto simp: make_v1_varbind_def)

lemma map_try_first_Err:
  "map_try f xs = Err e \<Longrightarrow> \<exists>x \<in> set xs. f x = Err e"
  by (induction xs) (auto simp: andthen_eq_Err)

lemma build_v1_representable:
  "build_v1_trap cd t = Ok bs \<Longrightarrow> (oid, v) \<in> set (v1t_varbinds t) \<Longrightarrow> v1_representable v"
proof -
  assume ok: "build_v1_trap cd t = Ok bs" and m: "(oid, v) \<in> set (v1t_varbinds t)"
  then have "is_ok (map_try (\<lambda>(oid, v). make_v1_varbind oid v) (v1t_varbinds t))"
    by (auto simp: build_v1_trap_def is_ok_iff)
  with m show ?thesis by (auto simp: map_try_is_ok make_v1_is_ok)
qed

lemma fresh_request_id_range:
  "fair_draw rng \<Longrightarrow> 1 \<le> sint (fresh_request_id rng) \<and> sint (fresh_request_id rng) < 2 ^ 31"
  unfolding fair_draw_def fresh_request_id_def I32_MAX_def
  by (drule spec [of _ 1], drule spec [of _ "0x7FFFFFFF"]) simp

section \<open>Properties\<close>

lemma map_try_v1_is_ok:
  "is_ok (map_try (\<lambda>(oid, v). make_v1_varbind oid v) vbs) \<longleftrightarrow> list_all (\<lambda>b. v1_representable (snd b)) vbs"
proof -
  have "is_ok (case b of (oid, v) \<Rightarrow> make_v1_varbind oid v) \<longleftrightarrow> v1_representable (snd b)" for b
    by (cases b) (simp add: make_v1_is_ok)
  then show ?thesis by (simp add: map_try_is_ok list_all_iff)
qed

text \<open>
  C20: An SNMPv1 trap is encoded exactly when every binding is representable: the message the
  encoder is given has the bindings in the caller's order, and a BITS or Counter64 value
  anywhere is an encoding error, so no value is ever silently converted.
\<close>

lemma v1_trap_representable:
  "if list_all (\<lambda>b. v1_representable (snd b)) (v1t_varbinds t)
   then \<exists>bs. build_v1_trap cd t = map_err Encode (encode_v1 cd
          \<lparr>v1_version = version_v1 cd, v1_community = v1t_community t,
           v1_data = \<lparr>trap_enterprise = v1t_enterprise t,
             trap_agent_addr = Internet (octets (v1t_agent_addr t)),
             trap_generic = sint (v1t_generic t), trap_specific = sint (v1t_specific t),
             trap_time_stamp = v1t_uptime t, trap_bindings = bs\<rparr>\<rparr>)
        \<and> map Ok bs = map (\<lambda>(oid, v). make_v1_varbind oid v) (v1t_varbinds t)
   else \<exists>m. build_v1_trap cd t = Err (Encode m)"
proof (cases "list_all (\<lambda>b. v1_representable (snd b)) (v1t_varbinds t)")
  case True
  then have "is_ok (map_try (\<lambda>(oid, v). make_v1_varbind oid v) (v1t_varbinds t))"
    by (simp add: map_try_v1_is_ok)
  then obtain bs where bs: "map_try (\<lambda>(oid, v). make_v1_varbind oid v) (v1t_varbinds t) = Ok bs"
    by (auto simp: is_ok_iff)
  then have m1: "map Ok bs = map (\<lambda>(oid, v). make_v1_varbind oid v) (v1t_varbinds t)"
    by (auto simp: map_try_Ok_iff list_all2_conv_all_nth intro!: nth_equalityI)
  have m2: "build_v1_trap cd t = map_err Encode (encode_v1 cd
      \<lparr>v1_version = version_v1 cd, v1_community = v1t_community t,
       v1_data = \<lparr>trap_enterprise = v1t_enterprise t,
         trap_agent_addr = Internet (octets (v1t_agent_addr t)),
         trap_generic = sint (v1t_generic t), trap_specific = sint (v1t_specific t),
         trap_time_stamp = v1t_uptime t, trap_bindings = bs\<rparr>\<rparr>)"
    by (simp add: build_v1_trap_def bs)
  show ?thesis unfolding if_P [OF True] by (rule exI [of _ bs]) (rule conjI [OF m2 m1])
next
  case False
  then have "\<not> is_ok (map_try (\<lambda>(oid, v). make_v1_varbind oid v) (v1t_varbinds t))"
    by (simp add: map_try_v1_is_ok)
  then obtain e where e: "map_try (\<lambda>(oid, v). make_v1_varbind oid v) (v1t_varbinds t) = Err e"
    by (auto simp: not_is_ok_iff)
  obtain b where "(case b of (oid, v) \<Rightarrow> make_v1_varbind oid v) = Err e"
    using map_try_first_Err [OF e] by blast
  then obtain m where "e = Encode m" by (cases b) (auto dest: make_v1_Err)
  with e have "build_v1_trap cd t = Err (Encode m)" by (simp add: build_v1_trap_def)
  then show ?thesis unfolding if_not_P [OF False] by blast
qed

end
