(* ===== verification/Engine.thy ===== *)
theory Engine
  imports Errors
begin

unbundle bit_operations_syntax

text \<open>
  \<open>src/engine.rs\<close>: SNMP engine identifiers. The constructors of the four RFC 3411 formats,
  the parser of user input, the choice of the host's MAC address and of its host name, and
  the cascade that picks the authoritative engine identifier.
\<close>

section \<open>Constructors\<close>

definition PEN_NO42_ORG :: u32 where "PEN_NO42_ORG = 61509"
definition FORMAT_IPV4 :: u8 where "FORMAT_IPV4 = 1"
definition FORMAT_MAC :: u8 where "FORMAT_MAC = 3"
definition FORMAT_TEXT :: u8 where "FORMAT_TEXT = 4"
definition FORMAT_OCTETS :: u8 where "FORMAT_OCTETS = 5"
definition MIN_ENGINE_ID :: nat where "MIN_ENGINE_ID = 5"
definition MAX_ENGINE_ID :: nat where "MAX_ENGINE_ID = 32"
definition MAX_PAYLOAD :: nat where "MAX_PAYLOAD = MAX_ENGINE_ID - 5"

datatype engine_id = EngineId (eid_bytes: bytes)

definition push_pen_prefix :: "bytes \<Rightarrow> bytes" where
  "push_pen_prefix buf =
     (let pen_bytes = be_bytes 4 PEN_NO42_ORG in
      buf @ [pen_bytes ! 0 OR 0x80, pen_bytes ! 1, pen_bytes ! 2, pen_bytes ! 3])"

definition from_ipv4 :: "ipv4 \<Rightarrow> engine_id" where
  "from_ipv4 addr = EngineId (push_pen_prefix [] @ [FORMAT_IPV4] @ octets addr)"

text \<open>A MAC address is an array of six bytes.\<close>

datatype mac = Mac u8 u8 u8 u8 u8 u8

fun mac_bytes :: "mac \<Rightarrow> bytes" where
  "mac_bytes (Mac a b c d e f) = [a, b, c, d, e, f]"

definition from_mac :: "mac \<Rightarrow> engine_id" where
  "from_mac m = EngineId (push_pen_prefix [] @ [FORMAT_MAC] @ mac_bytes m)"

definition from_text :: "rstr \<Rightarrow> engine_id" where
  "from_text s =
     (let bs = utf8 s; take_n = min (length bs) MAX_PAYLOAD in
      EngineId (push_pen_prefix [] @ [FORMAT_TEXT] @ take take_n bs))"

definition from_octets :: "bytes \<Rightarrow> engine_id" where
  "from_octets os =
     (let take_n = min (length os) MAX_PAYLOAD in
      EngineId (push_pen_prefix [] @ [FORMAT_OCTETS] @ take take_n os))"

definition eid_len :: "engine_id \<Rightarrow> nat" where
  "eid_len e = length (eid_bytes e)"

definition eid_is_empty :: "engine_id \<Rightarrow> bool" where
  "eid_is_empty e \<longleftrightarrow> eid_bytes e = []"

section \<open>Parsing user input\<close>

datatype engine_id_error =
    EidEmpty
  | EidTooShort nat nat
  | EidOddLength nat
  | EidBadHex rchar
  | EidTooLong nat nat

fun show_engine_id_error :: "engine_id_error \<Rightarrow> rstr" where
  "show_engine_id_error EidEmpty = lit ''engine-ID is empty''"
| "show_engine_id_error (EidTooShort got mn) =
     lit ''engine-ID is '' @ dec got @ lit '' octets long, RFC 3411 '' @ [167]
     @ lit ''5 requires at least '' @ dec mn"
| "show_engine_id_error (EidOddLength got) =
     lit ''engine-ID hex string has odd length ('' @ dec got @ lit '' chars)''"
| "show_engine_id_error (EidBadHex ch) =
     lit ''engine-ID contains non-hex character '' @ [39, ch, 39]"
| "show_engine_id_error (EidTooLong got mx) =
     lit ''engine-ID is '' @ dec got @ lit '' octets long, max is '' @ dec mx"

definition decode_hex_nibble :: "u8 \<Rightarrow> (u8, engine_id_error) result" where
  "decode_hex_nibble b =
     (if 48 \<le> b \<and> b \<le> 57 then Ok (b - 48)
      else if 97 \<le> b \<and> b \<le> 102 then Ok (b - 97 + 10)
      else if 65 \<le> b \<and> b \<le> 70 then Ok (b - 65 + 10)
      else Err (EidBadHex (unat b)))"

fun decode_pairs :: "bytes \<Rightarrow> (bytes, engine_id_error) result" where
  "decode_pairs (a # b # rest) =
     andthen (decode_hex_nibble a) (\<lambda>hi.
     andthen (decode_hex_nibble b) (\<lambda>lo.
     andthen (decode_pairs rest) (\<lambda>bs. Ok ((push_bit 4 hi OR lo) # bs))))"
| "decode_pairs _ = Ok []"

text \<open>Trimming, the optional prefix and the removal of separators.\<close>

definition strip_hex_prefix :: "rstr \<Rightarrow> rstr" where
  "strip_hex_prefix trimmed =
     (case strip_prefix (lit ''0x'') trimmed of
        Some b \<Rightarrow> b
      | None \<Rightarrow> (case strip_prefix (lit ''0X'') trimmed of Some b \<Rightarrow> b | None \<Rightarrow> trimmed))"

definition eid_clean :: "rstr \<Rightarrow> rstr" where
  "eid_clean s =
     filter (\<lambda>c. \<not> is_ascii_whitespace c \<and> c \<noteq> 58) (strip_hex_prefix (trim s))"

definition parse_user_input :: "rstr \<Rightarrow> (engine_id, engine_id_error) result" where
  "parse_user_input s =
     (let cleaned = eid_clean s; n = str_len cleaned in
      if cleaned = [] then Err EidEmpty
      else if MAX_ENGINE_ID * 2 < n then Err (EidTooLong (n div 2) MAX_ENGINE_ID)
      else if odd n then Err (EidOddLength n)
      else andthen (decode_pairs (utf8 cleaned)) (\<lambda>bs.
        if length bs < MIN_ENGINE_ID then Err (EidTooShort (length bs) MIN_ENGINE_ID)
        else if MAX_ENGINE_ID < length bs then Err (EidTooLong (length bs) MAX_ENGINE_ID)
        else Ok (EngineId bs)))"

section \<open>The host's identity\<close>

definition VIRTUAL_INTERFACE_PREFIXES :: "rstr list" where
  "VIRTUAL_INTERFACE_PREFIXES =
     map lit [''docker'', ''br-'', ''bond'', ''virbr'', ''veth'', ''tun'', ''tap'', ''wg'',
              ''cni'', ''kube'', ''flannel'', ''cilium'', ''ovs'', ''dummy'', ''vboxnet'',
              ''vmnet'']"

definition is_virtual_interface :: "rstr \<Rightarrow> bool" where
  "is_virtual_interface name \<longleftrightarrow> list_ex (\<lambda>p. starts_with p name) VIRTUAL_INTERFACE_PREFIXES"

definition is_physical_prefix :: "rstr \<Rightarrow> bool" where
  "is_physical_prefix name \<longleftrightarrow>
     starts_with (lit ''en'') name \<or> starts_with (lit ''eth'') name \<or> starts_with (lit ''wl'') name"

text \<open>
  One segment of a MAC address: exactly two bytes, both hexadecimal digits.
\<close>

definition parse_mac_part :: "rstr \<Rightarrow> u8 option" where
  "parse_mac_part p =
     (if str_len p \<noteq> 2 then None
      else Option.bind (to_option (decode_hex_nibble (utf8 p ! 0))) (\<lambda>hi.
           Option.bind (to_option (decode_hex_nibble (utf8 p ! 1))) (\<lambda>lo.
             Some (push_bit 4 hi OR lo))))"

definition parse_mac_text :: "rstr \<Rightarrow> mac option" where
  "parse_mac_text s =
     (case map parse_mac_part (split (\<lambda>c. c = 58) s) of
        [Some a, Some b, Some c, Some d, Some e, Some f] \<Rightarrow> Some (Mac a b c d e f)
      | _ \<Rightarrow> None)"

text \<open>
  The host: the interface names under \<open>/sys/class/net\<close> (\<open>None\<close> if the directory cannot be
  read), the content of each \<open>address\<close> file, and what \<open>gethostname\<close> left in its buffer
  (\<open>None\<close> on error).
\<close>

record host =
  host_target :: target
  net_names :: "rstr list option"
  net_address :: "rstr \<Rightarrow> rstr option"
  hostname_buf :: "bytes option"

text \<open>
  The comparator sorts names with a physical prefix first and by bytes within a tier; it is
  the order of the key \<open>iface_key\<close>, and the sort is stable.
\<close>

definition iface_key :: "rstr \<Rightarrow> bool \<times> bytes" where
  "iface_key name = (\<not> is_physical_prefix name, utf8 name)"

definition mac_candidates :: "rstr list \<Rightarrow> rstr list" where
  "mac_candidates names =
     sort_key iface_key (filter (\<lambda>n. n \<noteq> lit ''lo'' \<and> \<not> is_virtual_interface n) names)"

fun first_mac :: "(rstr \<Rightarrow> rstr option) \<Rightarrow> rstr list \<Rightarrow> mac option" where
  "first_mac address [] = None"
| "first_mac address (name # names) =
     (case address name of
        None \<Rightarrow> first_mac address names
      | Some text \<Rightarrow>
          (case parse_mac_text (trim text) of
             None \<Rightarrow> first_mac address names
           | Some m \<Rightarrow> if m = Mac 0 0 0 0 0 0 then first_mac address names else Some m))"

definition host_mac_linux :: "host \<Rightarrow> mac option" where
  "host_mac_linux h =
     Option.bind (net_names h) (\<lambda>names. first_mac (net_address h) (mac_candidates names))"

definition host_mac :: "host \<Rightarrow> mac option" where
  "host_mac h = (if host_target h = TargetLinux then host_mac_linux h else None)"

definition host_name :: "host \<Rightarrow> rstr option" where
  "host_name h =
     Option.bind (hostname_buf h) (\<lambda>buf.
     Option.bind (from_utf8 (takeWhile (\<lambda>b. b \<noteq> 0) buf)) (\<lambda>s.
       if s = [] then None else Some s))"

section \<open>The cascade\<close>

definition resolve :: "host \<Rightarrow> engine_id option \<Rightarrow> ipv4 option \<Rightarrow> engine_id" where
  "resolve h user_authoritative src_addr_v4 =
     (case user_authoritative of
        Some eid \<Rightarrow> eid
      | None \<Rightarrow> (case src_addr_v4 of
          Some addr \<Rightarrow> from_ipv4 addr
        | None \<Rightarrow> (case host_mac h of
            Some m \<Rightarrow> from_mac m
          | None \<Rightarrow>
              (let hostname = (case host_name h of Some n \<Rightarrow> n | None \<Rightarrow> lit ''snmptrap-rs'')
               in from_text hostname))))"


section \<open>The format contract\<close>

lemma pen_prefix [layout]: "push_pen_prefix buf = buf @ [0x80, 0x00, 0xF0, 0x45]"
proof -
  have "be_bytes 4 PEN_NO42_ORG = [0x00, 0x00, 0xF0, 0x45]"
    by (simp add: PEN_NO42_ORG_def be_bytes_4)
  then show ?thesis by (simp add: push_pen_prefix_def)
qed

text \<open>
  What every constructor promises: the enterprise prefix with the top bit set, the format
  octet, and at most 27 octets of payload. The interface of the four RFC 3411 formats.
\<close>

locale engine_format =
  fixes make :: "'a \<Rightarrow> engine_id"
    and tag :: u8
    and payload :: "'a \<Rightarrow> bytes"
  assumes make_layout:
    "eid_bytes (make x) = [0x80, 0x00, 0xF0, 0x45] @ [tag] @ take MAX_PAYLOAD (payload x)"
begin

lemma length_bounds: "5 \<le> length (eid_bytes (make x)) \<and> length (eid_bytes (make x)) \<le> 32"
  by (simp add: make_layout MAX_PAYLOAD_def MAX_ENGINE_ID_def)

lemma top_bit: "128 \<le> unat (eid_bytes (make x) ! 0)"
  by (simp add: make_layout)

lemma format_octet: "eid_bytes (make x) ! 4 = tag"
  by (simp add: make_layout)

lemma payload_kept: "length (payload x) \<le> 27 \<Longrightarrow> drop 5 (eid_bytes (make x)) = payload x"
  by (simp add: make_layout MAX_PAYLOAD_def MAX_ENGINE_ID_def)

lemma payload_determined:
  "length (payload x) \<le> 27 \<Longrightarrow> length (payload y) \<le> 27 \<Longrightarrow> make x = make y \<Longrightarrow> payload x = payload y"
  by (metis payload_kept)

end

lemma length_mac_bytes [simp]: "length (mac_bytes m) = 6"
  by (cases m) simp

interpretation ipv4_format: engine_format from_ipv4 FORMAT_IPV4 octets
  by unfold_locales (simp add: from_ipv4_def pen_prefix MAX_PAYLOAD_def MAX_ENGINE_ID_def)

interpretation mac_format: engine_format from_mac FORMAT_MAC mac_bytes
  by unfold_locales (simp add: from_mac_def pen_prefix MAX_PAYLOAD_def MAX_ENGINE_ID_def)

interpretation text_format: engine_format from_text FORMAT_TEXT utf8
  by unfold_locales (simp add: from_text_def pen_prefix Let_def min_def)

interpretation octets_format: engine_format from_octets FORMAT_OCTETS "\<lambda>os. os"
  by unfold_locales (simp add: from_octets_def pen_prefix Let_def min_def)

section \<open>Hexadecimal pairs\<close>

text \<open>A nibble is decoded exactly when the character is a hexadecimal digit.\<close>

lemma word_u8_le: "(a :: u8) \<le> b \<longleftrightarrow> unat a \<le> unat b"
  by (rule word_le_nat_alt)

lemma decode_hex_nibble_digit:
  "decode_hex_nibble b = (case to_digit 16 (unat b) of
     Some d \<Rightarrow> Ok (of_nat d) | None \<Rightarrow> Err (EidBadHex (unat b)))"
proof -
  have sub: "b - of_nat k + of_nat j = of_nat (unat b - k + j)" if "k \<le> unat b" for k j
    using that by (simp add: of_nat_diff)
  consider (num) "48 \<le> unat b" "unat b \<le> 57" | (low) "97 \<le> unat b" "unat b \<le> 102"
    | (up) "65 \<le> unat b" "unat b \<le> 70"
    | (other) "\<not> is_ascii_hexdigit (unat b)"
    by (auto simp: is_ascii_hexdigit_def)
  then show ?thesis
  proof cases
    case num
    then show ?thesis
      using sub [of 48 0] by (simp add: decode_hex_nibble_def to_digit_def word_u8_le Let_def)
  next
    case low
    then show ?thesis
      using sub [of 97 10] by (simp add: decode_hex_nibble_def to_digit_def word_u8_le Let_def)
  next
    case up
    then show ?thesis
      using sub [of 65 10] by (simp add: decode_hex_nibble_def to_digit_def word_u8_le Let_def)
  next
    case other
    then have "to_digit 16 (unat b) = None" using to_digit_16_iff by blast
    with other show ?thesis
      by (auto simp: decode_hex_nibble_def word_u8_le is_ascii_hexdigit_def)
  qed
qed

lemma nibbles_join:
  assumes "h < 16" and "l < 16"
  shows "push_bit 4 (of_nat h) OR of_nat l = (of_nat (h * 16 + l) :: u8)"
proof -
  have "take_bit 4 l = l" using assms(2) by (simp add: take_bit_nat_eq_self)
  then have l: "(of_nat l :: u8) = take_bit 4 (of_nat l)" by (metis of_nat_take_bit take_bit_of_nat)
  have "push_bit 4 (of_nat h) OR of_nat l = push_bit 4 (of_nat h) + (of_nat l :: u8)"
    by (subst disjunctive_add) (subst l, auto simp: bit_simps)
  then show ?thesis by (simp add: push_bit_eq_mult)
qed

text \<open>
  A byte string decodes exactly when all its bytes are hexadecimal digits, to the bytes whose
  hexadecimal text it is, up to case.
\<close>

lemma byte_of_digits:
  "(\<exists>h l. to_digit 16 (unat a) = Some h \<and> to_digit 16 (unat b) = Some l
      \<and> push_bit 4 (of_nat h) OR of_nat l = x)
    \<longleftrightarrow> to_ascii_lowercase [unat a, unat b] = hex2 x"
proof
  assume "\<exists>h l. to_digit 16 (unat a) = Some h \<and> to_digit 16 (unat b) = Some l
      \<and> push_bit 4 (of_nat h) OR of_nat l = x"
  then obtain h l where hl: "to_digit 16 (unat a) = Some h" "to_digit 16 (unat b) = Some l"
    "push_bit 4 (of_nat h) OR of_nat l = x" by blast
  then have lt: "h < 16" "l < 16" by (auto simp: to_digit_def Let_def split: if_splits)
  with hl have x: "x = of_nat (h * 16 + l)" by (metis nibbles_join)
  have "unat x = h * 16 + l"
    unfolding x using lt by (simp add: unat_of_nat del: of_nat_add of_nat_mult)
  with hl lt show "to_ascii_lowercase [unat a, unat b] = hex2 x" by (simp add: hex2_lower_iff)
next
  assume "to_ascii_lowercase [unat a, unat b] = hex2 x"
  then have "to_digit 16 (unat a) = Some (unat x div 16)"
    "to_digit 16 (unat b) = Some (unat x mod 16)" by (simp_all add: hex2_lower_iff)
  moreover have "push_bit 4 (of_nat (unat x div 16)) OR of_nat (unat x mod 16) = x"
    using unat_byte_split [of x] by (simp only: nibbles_join div_mult_mod_eq) simp
  ultimately show "\<exists>h l. to_digit 16 (unat a) = Some h \<and> to_digit 16 (unat b) = Some l
      \<and> push_bit 4 (of_nat h) OR of_nat l = x" by blast
qed

lemma decode_pairs_iff:
  "even (length cs) \<Longrightarrow>
    decode_pairs cs = Ok bs \<longleftrightarrow> to_ascii_lowercase (map unat cs) = hex_text bs"
proof (induction cs arbitrary: bs rule: decode_pairs.induct)
  case (1 a b rest)
  show ?case
  proof (cases bs)
    case Nil
    then show ?thesis by (simp add: to_ascii_lowercase_def)
  next
    case (Cons x xs)
    have "decode_pairs (a # b # rest) = Ok bs \<longleftrightarrow>
        (\<exists>h l. to_digit 16 (unat a) = Some h \<and> to_digit 16 (unat b) = Some l
          \<and> push_bit 4 (of_nat h) OR of_nat l = x) \<and> decode_pairs rest = Ok xs"
      by (auto simp: Cons decode_hex_nibble_digit split: option.splits)
    also have "decode_pairs rest = Ok xs \<longleftrightarrow> to_ascii_lowercase (map unat rest) = hex_text xs"
      using "1.prems" by (intro "1.IH") simp
    finally show ?thesis
      unfolding byte_of_digits by (auto simp: Cons to_ascii_lowercase_def hex2_def)
  qed
qed (auto simp: to_ascii_lowercase_def)

lemma lower_char_ascii: "lower_char c < 128 \<longleftrightarrow> c < 128"
  by (auto simp: lower_char_def)

lemma lower_is_hex_text_ascii: "to_ascii_lowercase cs = hex_text bs \<Longrightarrow> c \<in> set cs \<Longrightarrow> c < 128"
  by (metis hex_text_chars image_eqI list.set_map lower_char_ascii to_ascii_lowercase_def)

lemma map_unat_utf8: "(\<And>c. c \<in> set s \<Longrightarrow> c < 128) \<Longrightarrow> map unat (utf8 s) = s"
proof -
  assume a: "\<And>c. c \<in> set s \<Longrightarrow> c < 128"
  have "unat (of_nat c :: u8) = c" if "c < 128" for c using that by (simp add: unat_of_nat)
  then show ?thesis using a by (auto simp: utf8_ascii intro: map_idI)
qed

text \<open>For a \<open>str\<close>, decoding its bytes is decoding its characters.\<close>

lemma utf8_hex_iff:
  assumes "valid_str cs"
  shows "to_ascii_lowercase (map unat (utf8 cs)) = hex_text bs
     \<longleftrightarrow> to_ascii_lowercase cs = hex_text bs"
proof (cases "\<forall>c \<in> set cs. c < 128")
  case True
  then show ?thesis by (simp add: map_unat_utf8)
next
  case False
  then obtain c where c: "c \<in> set cs" "128 \<le> c" by auto
  with assms have "c < 0x110000" by (auto simp: valid_str_def list_all_iff is_scalar_def)
  with c obtain b r where "utf8_char c = b # r" "128 \<le> unat b"
    using utf8_char_non_ascii by blast
  with c have b: "unat b \<in> set (map unat (utf8 cs))" "\<not> unat b < 128"
    by (auto simp: utf8_def intro!: image_eqI [of _ unat b] bexI [of _ c])
  with lower_is_hex_text_ascii [of "map unat (utf8 cs)" bs] lower_is_hex_text_ascii [of cs bs] c
  show ?thesis by (metis not_less)
qed

section \<open>What \<open>parse_user_input\<close> accepts\<close>

lemma valid_str_filter: "valid_str s \<Longrightarrow> valid_str (filter P s)"
  by (auto simp: valid_str_def list_all_iff)

lemma set_trim: "set (trim s) \<subseteq> set s"
  by (auto simp: trim_def trim_end_def trim_start_def dest!: set_dropWhileD)

lemma set_strip_hex_prefix: "set (strip_hex_prefix s) \<subseteq> set s"
  by (auto simp: strip_hex_prefix_def strip_prefix_Some_iff split: option.splits)

lemma valid_eid_clean: "valid_str s \<Longrightarrow> valid_str (eid_clean s)"
  using set_trim [of s] set_strip_hex_prefix [of "trim s"]
  by (auto simp: eid_clean_def valid_str_def list_all_iff)

lemma parse_user_input_iff:
  assumes "valid_str s"
  shows "parse_user_input s = Ok (EngineId bs)
    \<longleftrightarrow> 5 \<le> length bs \<and> length bs \<le> 32 \<and> to_ascii_lowercase (eid_clean s) = hex_text bs"
proof -
  let ?c = "eid_clean s"
  have v: "valid_str ?c" using assms by (rule valid_eid_clean)
  have dec: "decode_pairs (utf8 ?c) = Ok bs \<longleftrightarrow> to_ascii_lowercase ?c = hex_text bs"
    if "even (str_len ?c)" for bs
    using that v by (simp add: decode_pairs_iff utf8_hex_iff str_len_def)
  have len: "str_len ?c = 2 * length bs" if h: "to_ascii_lowercase ?c = hex_text bs" for bs
  proof -
    have "str_len ?c = length ?c"
      by (rule str_len_ascii) (rule lower_is_hex_text_ascii [OF h])
    also have "\<dots> = length (hex_text bs)" using h by (metis length_map to_ascii_lowercase_def)
    finally show ?thesis by simp
  qed
  show ?thesis
  proof
    assume "parse_user_input s = Ok (EngineId bs)"
    then have "even (str_len ?c)" "decode_pairs (utf8 ?c) = Ok bs" "5 \<le> length bs" "length bs \<le> 32"
      by (auto simp: parse_user_input_def Let_def MIN_ENGINE_ID_def MAX_ENGINE_ID_def
          split: if_splits)
    with dec show "5 \<le> length bs \<and> length bs \<le> 32 \<and> to_ascii_lowercase ?c = hex_text bs"
      by blast
  next
    assume h: "5 \<le> length bs \<and> length bs \<le> 32 \<and> to_ascii_lowercase ?c = hex_text bs"
    with len [of bs] have n: "str_len ?c = 2 * length bs" by simp
    with h have "?c \<noteq> []" by auto
    moreover have "decode_pairs (utf8 ?c) = Ok bs" using n h dec by simp
    ultimately show "parse_user_input s = Ok (EngineId bs)"
      using n h by (simp add: parse_user_input_def Let_def MIN_ENGINE_ID_def MAX_ENGINE_ID_def)
  qed
qed


text \<open>The spellings of an engine identifier: plain, prefixed, and colon separated.\<close>

fun colon_text :: "bytes \<Rightarrow> rstr" where
  "colon_text [] = []"
| "colon_text [b] = hex2 b"
| "colon_text (b # bs) = hex2 b @ lit '':'' @ colon_text bs"

lemma hexdigit_plain:
  "is_ascii_hexdigit c \<Longrightarrow> \<not> is_whitespace c \<and> \<not> is_ascii_whitespace c \<and> c \<noteq> 58 \<and> c \<noteq> 120 \<and> c \<noteq> 88"
  by (auto simp: is_ascii_hexdigit_def is_whitespace_def is_ascii_whitespace_def)

lemma lit_0x [simp]: "lit ''0x'' = [48, 120]" "lit ''0X'' = [48, 88]"
  by (simp_all add: lit_def)

lemma trim_no_ws: "(\<And>c. c \<in> set s \<Longrightarrow> \<not> is_whitespace c) \<Longrightarrow> trim s = s"
  by (rule trim_id) (cases s; auto)

lemma strip_hex_prefix_id: "\<forall>c \<in> set s. c \<noteq> 120 \<and> c \<noteq> 88 \<Longrightarrow> strip_hex_prefix s = s"
  by (auto simp: strip_hex_prefix_def strip_prefix_Some_iff split: option.splits)

lemma colon_text_chars:
  "c \<in> set (colon_text bs) \<Longrightarrow> is_ascii_hexdigit c \<or> c = 58"
  by (induction bs rule: colon_text.induct) (auto dest: hex2_chars)

lemma filter_hex2: "filter (\<lambda>c. \<not> is_ascii_whitespace c \<and> c \<noteq> 58) (hex2 b) = hex2 b"
  by (rule filter_True) (auto dest!: hex2_chars hexdigit_plain)

lemma filter_colon_text:
  "filter (\<lambda>c. \<not> is_ascii_whitespace c \<and> c \<noteq> 58) (colon_text bs) = hex_text bs"
  by (induction bs rule: colon_text.induct) (auto simp: filter_hex2)

lemma filter_hex_text: "filter (\<lambda>c. \<not> is_ascii_whitespace c \<and> c \<noteq> 58) (hex_text bs) = hex_text bs"
  by (induction bs) (auto simp: filter_hex2)

lemma eid_clean_spellings:
  "eid_clean (hex_text bs) = hex_text bs"
  "eid_clean (lit ''0x'' @ hex_text bs) = hex_text bs"
  "eid_clean (lit ''0X'' @ hex_text bs) = hex_text bs"
  "eid_clean (colon_text bs) = hex_text bs"
proof -
  have nw: "\<not> is_whitespace 48" "\<not> is_whitespace 120" "\<not> is_whitespace 88" "\<not> is_whitespace 58"
    by (simp_all add: is_whitespace_def)
  have h: "trim (hex_text bs) = hex_text bs"
    "trim (lit ''0x'' @ hex_text bs) = lit ''0x'' @ hex_text bs"
    "trim (lit ''0X'' @ hex_text bs) = lit ''0X'' @ hex_text bs"
    "trim (colon_text bs) = colon_text bs"
    by (rule trim_no_ws, use nw in
      \<open>auto dest!: hex_text_chars colon_text_chars dest: hexdigit_plain\<close>)+
  have p: "strip_hex_prefix (hex_text bs) = hex_text bs"
    "strip_hex_prefix (colon_text bs) = colon_text bs"
    by (rule strip_hex_prefix_id, rule ballI,
        auto dest!: hex_text_chars colon_text_chars dest: hexdigit_plain)+
  show "eid_clean (hex_text bs) = hex_text bs"
    "eid_clean (lit ''0x'' @ hex_text bs) = hex_text bs"
    "eid_clean (lit ''0X'' @ hex_text bs) = hex_text bs"
    "eid_clean (colon_text bs) = hex_text bs"
    using h p
    by (simp_all add: eid_clean_def filter_hex_text filter_colon_text
        strip_hex_prefix_def strip_prefix_def)
qed

lemma valid_ascii: "(\<And>c. c \<in> set s \<Longrightarrow> c < 128) \<Longrightarrow> valid_str s"
  by (force simp: valid_str_def list_all_iff is_scalar_def)

lemma valid_spellings:
  "valid_str (hex_text bs)" "valid_str (lit ''0x'' @ hex_text bs)"
  "valid_str (lit ''0X'' @ hex_text bs)" "valid_str (colon_text bs)"
  by (rule valid_ascii,
      auto dest!: hex_text_chars colon_text_chars simp: is_ascii_hexdigit_def)+

section \<open>The host's identity\<close>

text \<open>An interface that can identify the host: real, readable, with a MAC that is not zero.\<close>

definition usable_mac :: "host \<Rightarrow> rstr \<Rightarrow> mac option" where
  "usable_mac h name =
     (if name = lit ''lo'' \<or> is_virtual_interface name then None
      else (case net_address h name of
              None \<Rightarrow> None
            | Some text \<Rightarrow>
                (case parse_mac_text (trim text) of
                   None \<Rightarrow> None
                 | Some m \<Rightarrow> if m = Mac 0 0 0 0 0 0 then None else Some m)))"

lemma first_mac_filter:
  "(\<And>n. n \<in> set names \<Longrightarrow> n \<noteq> lit ''lo'' \<and> \<not> is_virtual_interface n) \<Longrightarrow>
   first_mac (net_address h) names
     = (case filter (\<lambda>n. usable_mac h n \<noteq> None) names of [] \<Rightarrow> None | n # ns \<Rightarrow> usable_mac h n)"
proof (induction names)
  case (Cons a names)
  from Cons.prems [of a] show ?case
    using Cons.IH Cons.prems
    by (auto simp: usable_mac_def split: option.splits)
qed simp

lemma mac_candidates_set:
  "set (mac_candidates names) = {n \<in> set names. n \<noteq> lit ''lo'' \<and> \<not> is_virtual_interface n}"
  by (auto simp: mac_candidates_def)

lemma mac_candidates_sorted: "sorted (map iface_key (mac_candidates names))"
  by (simp add: mac_candidates_def)

lemma usable_candidates:
  "{n \<in> set (mac_candidates names). usable_mac h n \<noteq> None} = {n \<in> set names. usable_mac h n \<noteq> None}"
  by (auto simp: mac_candidates_set usable_mac_def split: if_splits)

text \<open>
  The MAC found belongs to an interface that comes first, in the order of \<open>iface_key\<close>,
  among all usable ones; none is found only when no interface is usable.
\<close>

lemma host_mac_linux_least:
  assumes "net_names h = Some names"
  shows "case host_mac_linux h of
      None \<Rightarrow> \<forall>k \<in> set names. usable_mac h k = None
    | Some m \<Rightarrow> \<exists>n \<in> set names. usable_mac h n = Some m
        \<and> (\<forall>k \<in> set names. usable_mac h k \<noteq> None \<longrightarrow> iface_key n \<le> iface_key k)"
proof -
  let ?us = "filter (\<lambda>n. usable_mac h n \<noteq> None) (mac_candidates names)"
  have us: "set ?us = {n \<in> set names. usable_mac h n \<noteq> None}"
    using usable_candidates [of names h] by simp
  have r: "host_mac_linux h = (case ?us of [] \<Rightarrow> None | n # ns \<Rightarrow> usable_mac h n)"
    using assms first_mac_filter [of "mac_candidates names" h]
    by (simp add: host_mac_linux_def mac_candidates_set)
  have srt: "sorted (map iface_key ?us)"
    by (rule sorted_filter) (rule mac_candidates_sorted)
  show ?thesis
  proof (cases ?us)
    case Nil
    with us have "usable_mac h k = None" if "k \<in> set names" for k
      using that by (metis (mono_tags, lifting) empty_iff empty_set mem_Collect_eq)
    with r Nil show ?thesis by simp
  next
    case (Cons n ns)
    have n: "n \<in> set names" "usable_mac h n \<noteq> None"
      using us list.set_intros(1) [of n ns] by (simp_all only: Cons [symmetric]) blast+
    then obtain m where m: "usable_mac h n = Some m" by blast
    have "iface_key n \<le> iface_key k" if "k \<in> set names" "usable_mac h k \<noteq> None" for k
    proof -
      have "k \<in> set (n # ns)" using us that by (simp only: Cons [symmetric]) blast
      with srt show ?thesis by (auto simp only: Cons set_ConsD list.map sorted_simps(2) list.set set_map)
    qed
    with r n m Cons show ?thesis by auto
  qed
qed

section \<open>The cascade\<close>

definition valid_engine_id :: "engine_id \<Rightarrow> bool" where
  "valid_engine_id e \<longleftrightarrow> 5 \<le> eid_len e \<and> eid_len e \<le> 32"

lemma parse_user_input_valid: "parse_user_input s = Ok e \<Longrightarrow> valid_engine_id e"
  by (auto simp: parse_user_input_def valid_engine_id_def eid_len_def Let_def
      MIN_ENGINE_ID_def MAX_ENGINE_ID_def split: if_splits)

lemma resolve_simps [simp]:
  "resolve h (Some e) src = e"
  "resolve h None (Some a) = from_ipv4 a"
  "host_mac h = Some m \<Longrightarrow> resolve h None None = from_mac m"
  by (simp_all add: resolve_def)

lemma resolve_valid_id:
  "(\<And>e. user = Some e \<Longrightarrow> valid_engine_id e) \<Longrightarrow> valid_engine_id (resolve h user src)"
  using ipv4_format.length_bounds mac_format.length_bounds text_format.length_bounds
  by (auto simp: resolve_def valid_engine_id_def eid_len_def Let_def split: option.splits)

section \<open>Properties\<close>

text \<open>
  C29: The engine identifier in force always has 5 to 32 octets when a user's own has, whatever
  the host answers; a user's own is taken as it is, and otherwise \<open>--src-addr\<close> determines it
  alone: the nine octets of format 1 that end with the address.
\<close>

lemma resolve_cascade:
  assumes "\<And>e. user = Some e \<Longrightarrow> valid_engine_id e"
  shows "valid_engine_id (resolve h user src)
    \<and> (user = Some e \<longrightarrow> resolve h user src = e)
    \<and> (user = None \<longrightarrow> src = Some a \<longrightarrow>
         eid_bytes (resolve h user src) = [0x80, 0x00, 0xF0, 0x45, 1] @ octets a)
    \<and> (user = None \<longrightarrow> src = None \<longrightarrow> host_mac h = Some m \<longrightarrow>
         eid_bytes (resolve h user src) = [0x80, 0x00, 0xF0, 0x45, 3] @ mac_bytes m)
    \<and> (user = None \<longrightarrow> src = None \<longrightarrow> host_mac h = None \<longrightarrow>
         eid_bytes (resolve h user src) = [0x80, 0x00, 0xF0, 0x45, 4]
           @ take 27 (utf8 (case host_name h of Some n \<Rightarrow> n | None \<Rightarrow> lit ''snmptrap-rs'')))"
  using resolve_valid_id [of user h src] assms
  by (auto simp: resolve_def from_ipv4_def from_mac_def from_text_def pen_prefix FORMAT_IPV4_def
      FORMAT_MAC_def FORMAT_TEXT_def MAX_PAYLOAD_def MAX_ENGINE_ID_def Let_def min_def
      split: option.splits)

definition sample_host :: host where
  "sample_host = \<lparr>host_target = TargetLinux,
     net_names = Some [lit ''lo'', lit ''docker0'', lit ''eth0''],
     net_address = (\<lambda>n. Some (lit ''de:ad:be:ef:12:34'')), hostname_buf = None\<rparr>"

lemma resolve_cascade_witness:
  "eid_bytes (resolve sample_host None (Some (Ipv4 198 51 100 42)))
     = [0x80, 0x00, 0xF0, 0x45, 1, 198, 51, 100, 42]"
  using resolve_cascade [of None sample_host "Some (Ipv4 198 51 100 42)" "EngineId []" "Ipv4 198 51 100 42"]
  by simp

text \<open>
  C30: A user's engine identifier is read exactly from the texts that spell 5 to 32 octets in
  hexadecimal digits of either case, after trimming, one optional prefix and removing colons
  and ASCII white space.
\<close>

lemma engine_id_parse_exact:
  assumes "valid_str s"
  shows "parse_user_input s = Ok (EngineId bs) \<longleftrightarrow>
    5 \<le> length bs \<and> length bs \<le> 32 \<and> to_ascii_lowercase (eid_clean s) = hex_text bs"
  using assms by (rule parse_user_input_iff)

lemma engine_id_parse_exact_witness:
  "parse_user_input (hex_text [0x80, 0, 0xF0, 0x45, 9]) = Ok (EngineId [0x80, 0, 0xF0, 0x45, 9])"
  using engine_id_parse_exact [OF valid_spellings(1), of "[0x80, 0, 0xF0, 0x45, 9]"
      "[0x80, 0, 0xF0, 0x45, 9]"]
  by (simp add: eid_clean_spellings del: hex_text_simps)

text \<open>
  C31: Every engine identifier of legal length can be given back on the command line: its plain
  hexadecimal text, the text with either prefix, and the colon separated text all parse to it.
\<close>

lemma engine_id_roundtrip:
  assumes "valid_engine_id e"
    and "s \<in> {hex_text (eid_bytes e), lit ''0x'' @ hex_text (eid_bytes e),
              lit ''0X'' @ hex_text (eid_bytes e), colon_text (eid_bytes e)}"
  shows "parse_user_input s = Ok e"
proof (cases e)
  case (EngineId bs)
  with assms(2) valid_spellings [of bs] have "valid_str s" by auto
  moreover have "eid_clean s = hex_text bs"
    using assms(2) eid_clean_spellings [of bs] EngineId by auto
  ultimately show ?thesis
    using assms(1) EngineId by (simp add: parse_user_input_iff valid_engine_id_def eid_len_def)
qed

lemma engine_id_roundtrip_witness:
  "parse_user_input (colon_text [0x80, 0, 0xF0, 0x45, 9]) = Ok (EngineId [0x80, 0, 0xF0, 0x45, 9])"
  by (rule engine_id_roundtrip) (simp_all add: valid_engine_id_def eid_len_def)

text \<open>
  C32: The hardware address the identifier is built from does not depend on the order in which
  the system lists the interfaces: it is the address of the least usable interface, those with
  a physical name before the others and each group in the order of names, where loopback,
  virtual interfaces and zero or malformed addresses are never used.
\<close>

lemma host_mac_least:
  assumes "net_names h = Some names"
  shows "case host_mac_linux h of
      None \<Rightarrow> \<forall>k \<in> set names. usable_mac h k = None
    | Some m \<Rightarrow> \<exists>n \<in> set names. usable_mac h n = Some m
        \<and> (\<forall>k \<in> set names. usable_mac h k \<noteq> None \<longrightarrow> iface_key n \<le> iface_key k)"
  using assms by (rule host_mac_linux_least)

lemma host_mac_least_witness:
  "case host_mac_linux sample_host of
      None \<Rightarrow> \<forall>k \<in> {lit ''lo'', lit ''docker0'', lit ''eth0''}. usable_mac sample_host k = None
    | Some m \<Rightarrow> \<exists>n \<in> {lit ''lo'', lit ''docker0'', lit ''eth0''}. usable_mac sample_host n = Some m"
  using host_mac_least [of sample_host "[lit ''lo'', lit ''docker0'', lit ''eth0'']"]
  by (auto simp: sample_host_def split: option.splits)

text \<open>
  An engine identifier text of 65 hexadecimal digits is refused as 32 octets long where at
  most 32 are allowed: the length in the message is rounded down, so it contradicts itself.
\<close>

lemma too_long_message:
  assumes "str_len (eid_clean s) = 65"
  shows "parse_user_input s = Err (EidTooLong 32 32)
    \<and> show_engine_id_error (EidTooLong 32 32) = lit ''engine-ID is 32 octets long, max is 32''"
proof -
  have "eid_clean s \<noteq> []" using assms by auto
  then show ?thesis
    using assms by (simp add: parse_user_input_def Let_def MAX_ENGINE_ID_def dec.simps lit_def)
qed

lemma too_long_message_witness:
  "parse_user_input (replicate 65 48) = Err (EidTooLong 32 32)"
proof -
  have "trim (replicate 65 48) = replicate 65 48" "strip_hex_prefix (replicate 65 48) = replicate 65 48"
    by (rule trim_no_ws, auto simp: is_whitespace_def) (rule strip_hex_prefix_id, auto)
  then have "eid_clean (replicate 65 48) = replicate 65 48"
    by (auto simp: eid_clean_def is_ascii_whitespace_def filter_id_conv)
  moreover have "str_len (replicate 65 48) = 65"
    by (simp add: str_len_def utf8_def utf8_char_def)
  ultimately show ?thesis using too_long_message [of "replicate 65 48"] by simp
qed

end
