(* ===== verification/Usm.thy ===== *)
theory Usm
  imports Engine
begin

unbundle bit_operations_syntax

text \<open>
  \<open>src/usm.rs\<close>: the authentication and privacy protocols of the User-based Security Model,
  the localisation of passwords to keys, the message tag and the encryption of the scoped
  PDU. The hash functions, HMAC and the AES-CFB encryptor come from crates; they are the
  fields of the parameter \<open>crypto\<close>, with their documented behaviour in \<open>lawful_crypto\<close>.
\<close>

section \<open>Protocols\<close>

datatype auth_protocol = Sha1 | Sha224 | Sha256 | Sha384 | Sha512

fun digest_len :: "auth_protocol \<Rightarrow> nat" where
  "digest_len Sha1 = 20"
| "digest_len Sha224 = 28"
| "digest_len Sha256 = 32"
| "digest_len Sha384 = 48"
| "digest_len Sha512 = 64"

fun auth_param_len :: "auth_protocol \<Rightarrow> nat" where
  "auth_param_len Sha1 = 12"
| "auth_param_len Sha224 = 16"
| "auth_param_len Sha256 = 24"
| "auth_param_len Sha384 = 32"
| "auth_param_len Sha512 = 48"

definition auth_from_str :: "rstr \<Rightarrow> (auth_protocol, error) result" where
  "auth_from_str s =
     (let u = to_ascii_uppercase s in
      if u = lit ''SHA'' \<or> u = lit ''SHA-1'' \<or> u = lit ''SHA1'' then Ok Sha1
      else if u = lit ''SHA-224'' \<or> u = lit ''SHA224'' then Ok Sha224
      else if u = lit ''SHA-256'' \<or> u = lit ''SHA256'' then Ok Sha256
      else if u = lit ''SHA-384'' \<or> u = lit ''SHA384'' then Ok Sha384
      else if u = lit ''SHA-512'' \<or> u = lit ''SHA512'' then Ok Sha512
      else if u = lit ''MD5'' \<or> u = lit ''HMAC-MD5'' then
        Err (Usage (lit ''HMAC-MD5 (RFC 3414 default) is not supported by this build; ''
                    @ lit ''use SHA, SHA-224, SHA-256, SHA-384, or SHA-512 (RFC 7860).''))
      else
        Err (Usage (lit ''unknown auth protocol '' @ [39] @ s @ [39]
                    @ lit ''; supported: SHA, SHA-224, SHA-256, SHA-384, SHA-512'')))"

datatype priv_protocol = Aes128 | Aes192 | Aes256

fun key_len :: "priv_protocol \<Rightarrow> nat" where
  "key_len Aes128 = 16"
| "key_len Aes192 = 24"
| "key_len Aes256 = 32"

fun show_auth :: "auth_protocol \<Rightarrow> rstr" where
  "show_auth Sha1 = lit ''SHA-1''"
| "show_auth Sha224 = lit ''SHA-224''"
| "show_auth Sha256 = lit ''SHA-256''"
| "show_auth Sha384 = lit ''SHA-384''"
| "show_auth Sha512 = lit ''SHA-512''"

fun show_priv :: "priv_protocol \<Rightarrow> rstr" where
  "show_priv Aes128 = lit ''AES-128''"
| "show_priv Aes192 = lit ''AES-192''"
| "show_priv Aes256 = lit ''AES-256''"

definition priv_from_str :: "rstr \<Rightarrow> (priv_protocol, error) result" where
  "priv_from_str s =
     (let u = to_ascii_uppercase s in
      if u = lit ''AES'' \<or> u = lit ''AES-128'' \<or> u = lit ''AES128'' then Ok Aes128
      else if u = lit ''AES-192'' \<or> u = lit ''AES192'' then Ok Aes192
      else if u = lit ''AES-256'' \<or> u = lit ''AES256'' then Ok Aes256
      else if u = lit ''DES'' \<or> u = lit ''DES-CBC'' then
        Err (Usage (lit ''DES-CBC (RFC 3414 default) is not supported by this build; ''
                    @ lit ''use AES, AES-192, or AES-256.''))
      else if u = lit ''3DES'' \<or> u = lit ''3DES-CBC'' \<or> u = lit ''TDES'' then
        Err (Usage (lit ''3DES-CBC is not supported by this build; use AES-256.''))
      else
        Err (Usage (lit ''unknown priv protocol '' @ [39] @ s @ [39]
                    @ lit ''; supported: AES, AES-192, AES-256'')))"

section \<open>The cryptographic crates\<close>

text \<open>
  \<open>'h\<close> is the state of a streaming hasher. \<open>hmac_tag\<close> and \<open>cfb_encrypt\<close> are \<open>None\<close> when the
  constructor rejects the key (or the IV); \<open>cfb_decrypt\<close> is the receiver's inverse, which
  the program itself never calls.
\<close>

record 'h crypto =
  hasher_new :: "auth_protocol \<Rightarrow> 'h"
  hasher_update :: "'h \<Rightarrow> bytes \<Rightarrow> 'h"
  hasher_finalize :: "'h \<Rightarrow> bytes"
  digest :: "auth_protocol \<Rightarrow> bytes \<Rightarrow> bytes"
  hmac_tag :: "auth_protocol \<Rightarrow> bytes \<Rightarrow> bytes \<Rightarrow> bytes option"
  cfb_encrypt :: "priv_protocol \<Rightarrow> bytes \<Rightarrow> bytes \<Rightarrow> bytes \<Rightarrow> bytes option"
  cfb_decrypt :: "priv_protocol \<Rightarrow> bytes \<Rightarrow> bytes \<Rightarrow> bytes \<Rightarrow> bytes option"

text \<open>Streaming and one-shot hashing agree.\<close>

definition streaming_law :: "'h crypto \<Rightarrow> bool" where
  "streaming_law C \<longleftrightarrow>
     (\<forall>p cs. hasher_finalize C (foldl (hasher_update C) (hasher_new C p) cs) = digest C p (concat cs))"

text \<open>The sizes the algorithms fix.\<close>

definition size_law :: "'h crypto \<Rightarrow> bool" where
  "size_law C \<longleftrightarrow>
     (\<forall>p m. length (digest C p m) = digest_len p)
     \<and> (\<forall>p k m. \<exists>t. hmac_tag C p k m = Some t \<and> length t = digest_len p)
     \<and> (\<forall>p k iv m. length k = key_len p \<longrightarrow> length iv = 16 \<longrightarrow>
          (\<exists>c. cfb_encrypt C p k iv m = Some c \<and> length c = length m))"

text \<open>Decryption with the same key and IV inverts encryption.\<close>

definition cipher_law :: "'h crypto \<Rightarrow> bool" where
  "cipher_law C \<longleftrightarrow>
     (\<forall>p k iv m c. cfb_encrypt C p k iv m = Some c \<longrightarrow> cfb_decrypt C p k iv c = Some m)"

section \<open>Hashing\<close>

definition hash :: "'h crypto \<Rightarrow> bytes \<Rightarrow> auth_protocol \<Rightarrow> bytes" where
  "hash C input proto = digest C proto input"

text \<open>
  The loop of \<open>incremental_digest\<close>; with an empty password it would never end.
\<close>

partial_function (option) digest_loop ::
  "('h \<Rightarrow> bytes \<Rightarrow> 'h) \<Rightarrow> bytes \<Rightarrow> nat \<Rightarrow> 'h \<Rightarrow> nat \<Rightarrow> 'h option"
where
  "digest_loop upd pw target hasher written =
     (if written < target then
        (let take_n = min (target - written) (length pw) in
         digest_loop upd pw target (upd hasher (take take_n pw)) (written + take_n))
      else Some hasher)"

definition incremental_digest :: "'h crypto \<Rightarrow> auth_protocol \<Rightarrow> bytes \<Rightarrow> nat \<Rightarrow> bytes option" where
  "incremental_digest C proto pw target =
     map_option (hasher_finalize C) (digest_loop (hasher_update C) pw target (hasher_new C proto) 0)"

definition DIGEST_TARGET :: nat where "DIGEST_TARGET = 1024 * 1024"

definition password_intermediate_digest :: "'h crypto \<Rightarrow> rstr \<Rightarrow> auth_protocol \<Rightarrow> bytes outcome" where
  "password_intermediate_digest C password proto =
     (let pw = utf8 password in
      if pw = [] then Return (hash C [] proto)
      else looped (incremental_digest C proto pw DIGEST_TARGET))"

section \<open>Keys\<close>

definition MIN_USM_PASSWORD_LEN :: nat where "MIN_USM_PASSWORD_LEN = 8"

definition password_to_key ::
  "'h crypto \<Rightarrow> rstr \<Rightarrow> engine_id \<Rightarrow> auth_protocol \<Rightarrow> (bytes, error) result outcome"
where
  "password_to_key C password engine_id proto =
     (if str_len password < MIN_USM_PASSWORD_LEN
      then Return (Err (Usage (lit ''USM password must be at least '' @ dec MIN_USM_PASSWORD_LEN
             @ lit '' characters (RFC 3414 '' @ [167] @ lit ''11.2); got '' @ dec (str_len password))))
      else and_run (password_intermediate_digest C password proto) (\<lambda>intermediate.
        let localizer = intermediate @ eid_bytes engine_id @ intermediate in
        Return (Ok (hash C localizer proto))))"

definition priv_key_from_password ::
  "'h crypto \<Rightarrow> rstr \<Rightarrow> engine_id \<Rightarrow> auth_protocol \<Rightarrow> priv_protocol
     \<Rightarrow> (bytes, error) result outcome"
where
  "priv_key_from_password C password engine_id auth_proto priv_proto =
     and_try (password_to_key C password engine_id auth_proto) (\<lambda>key.
       let need = key_len priv_proto in
       if length key < need
       then Return (Err (Usage (lit ''auth protocol '' @ show_auth auth_proto @ lit '' produces a ''
              @ dec (length key) @ lit ''-byte localized key, but priv protocol ''
              @ show_priv priv_proto @ lit '' requires '' @ dec need
              @ lit '' bytes. Use SHA-224 or higher with AES-192, or SHA-256 or higher with AES-256.'')))
       else map_outcome Ok (slice_to need key))"

section \<open>Tag and encryption\<close>

definition auth_sign :: "'h crypto \<Rightarrow> bytes \<Rightarrow> bytes \<Rightarrow> auth_protocol \<Rightarrow> bytes outcome" where
  "auth_sign C message auth_key proto =
     (if length auth_key \<noteq> digest_len proto then Panic
      else and_run (expect (hmac_tag C proto auth_key message)) (\<lambda>full.
             slice_to (auth_param_len proto) full))"

definition make_aes_iv :: "u32 \<Rightarrow> u32 \<Rightarrow> u64 \<Rightarrow> bytes" where
  "make_aes_iv engine_boots engine_time salt =
     be_bytes 4 engine_boots @ be_bytes 4 engine_time @ be_bytes 8 salt"

definition priv_encrypt ::
  "'h crypto \<Rightarrow> bytes \<Rightarrow> bytes \<Rightarrow> u32 \<Rightarrow> u32 \<Rightarrow> u64 \<Rightarrow> priv_protocol \<Rightarrow> bytes outcome"
where
  "priv_encrypt C plaintext priv_key engine_boots engine_time salt proto =
     (if length priv_key < key_len proto then Panic
      else
        let iv = make_aes_iv engine_boots engine_time salt in
        and_run (slice_to (key_len proto) priv_key) (\<lambda>key.
          expect (cfb_encrypt C proto key iv plaintext)))"

section \<open>Protocols by strength\<close>

text \<open>Authentication protocols are ordered by the length of their digest.\<close>

instantiation auth_protocol :: linorder
begin

definition less_eq_auth_protocol :: "auth_protocol \<Rightarrow> auth_protocol \<Rightarrow> bool" where
  "less_eq_auth_protocol a b \<longleftrightarrow> digest_len a \<le> digest_len b"

definition less_auth_protocol :: "auth_protocol \<Rightarrow> auth_protocol \<Rightarrow> bool" where
  "less_auth_protocol a b \<longleftrightarrow> digest_len a < digest_len b"

instance
proof
  fix x y z :: auth_protocol
  show "x < y \<longleftrightarrow> x \<le> y \<and> \<not> y \<le> x" "x \<le> x" "x \<le> y \<or> y \<le> x"
    by (auto simp: less_eq_auth_protocol_def less_auth_protocol_def)
  show "x \<le> y \<Longrightarrow> y \<le> z \<Longrightarrow> x \<le> z" by (simp add: less_eq_auth_protocol_def)
  show "x \<le> y \<Longrightarrow> y \<le> x \<Longrightarrow> x = y"
    by (cases x; cases y) (simp_all add: less_eq_auth_protocol_def)
qed

end


section \<open>Keyword parsers\<close>

text \<open>
  What \<open>FromStr\<close> of a keyword type promises: the case of ASCII letters is immaterial, every
  value has a name, and everything else is a usage error.
\<close>

locale keyword_parser =
  fixes fold_case :: "rstr \<Rightarrow> rstr"
    and parse :: "rstr \<Rightarrow> ('a, error) result"
    and name :: "'a \<Rightarrow> rstr"
  assumes parse_fold: "to_option (parse s) = to_option (parse (fold_case s))"
    and rejects: "parse s = Err e \<Longrightarrow> \<exists>m. e = Usage m"
    and parse_name: "parse (name v) = Ok v"
begin

lemma case_insensitive: "fold_case s = fold_case t \<Longrightarrow> to_option (parse s) = to_option (parse t)"
  by (metis parse_fold)

lemma name_any_case: "fold_case s = fold_case (name v) \<Longrightarrow> parse s = Ok v"
  using case_insensitive [of s "name v"] by (simp add: parse_name)

lemma name_inj: "name v = name w \<Longrightarrow> v = w"
  by (metis parse_name result.inject(1))

lemma accept_or_usage: "(\<exists>v. parse s = Ok v) \<or> (\<exists>m. parse s = Err (Usage m))"
  by (cases "parse s") (auto dest: rejects)

end

lemma lit_eq_iff [simp]: "lit s = lit t \<longleftrightarrow> s = t"
  by (simp add: lit_def inj_map_eq_map inj_of_char)

lemma upper_show [simp]:
  "to_ascii_uppercase (show_auth a) = show_auth a" "to_ascii_uppercase (show_priv p) = show_priv p"
  by (cases a; simp add: to_ascii_uppercase_def lit_def upper_char_def)
     (cases p; simp add: to_ascii_uppercase_def lit_def upper_char_def)

interpretation auth_kw: keyword_parser to_ascii_uppercase auth_from_str show_auth
proof
  show "to_option (auth_from_str s) = to_option (auth_from_str (to_ascii_uppercase s))" for s
    by (simp add: auth_from_str_def Let_def)
  show "auth_from_str s = Err e \<Longrightarrow> \<exists>m. e = Usage m" for s e
    by (auto simp: auth_from_str_def Let_def split: if_splits)
  show "auth_from_str (show_auth v) = Ok v" for v
    by (simp add: auth_from_str_def Let_def) (cases v; simp)
qed

interpretation priv_kw: keyword_parser to_ascii_uppercase priv_from_str show_priv
proof
  show "to_option (priv_from_str s) = to_option (priv_from_str (to_ascii_uppercase s))" for s
    by (simp add: priv_from_str_def Let_def)
  show "priv_from_str s = Err e \<Longrightarrow> \<exists>m. e = Usage m" for s e
    by (auto simp: priv_from_str_def Let_def split: if_splits)
  show "priv_from_str (show_priv v) = Ok v" for v
    by (simp add: priv_from_str_def Let_def) (cases v; simp)
qed

text \<open>The withdrawn protocols are refused in any case.\<close>

lemma withdrawn_auth:
  "to_ascii_uppercase s \<in> {lit ''MD5'', lit ''HMAC-MD5''} \<Longrightarrow> to_option (auth_from_str s) = None"
  by (auto simp: auth_from_str_def Let_def)

lemma withdrawn_priv:
  "to_ascii_uppercase s \<in> {lit ''DES'', lit ''DES-CBC'', lit ''3DES'', lit ''3DES-CBC'', lit ''TDES''} \<Longrightarrow>
   to_option (priv_from_str s) = None"
  by (auto simp: priv_from_str_def Let_def)

section \<open>The password stream\<close>

text \<open>RFC 3414 A.2: the first \<open>n\<close> bytes of the password repeated for ever.\<close>

definition password_stream :: "bytes \<Rightarrow> nat \<Rightarrow> bytes" where
  "password_stream pw n = map (\<lambda>i. pw ! (i mod length pw)) [0..<n]"

lemma length_password_stream [simp]: "length (password_stream pw n) = n"
  by (simp add: password_stream_def)

lemma password_stream_short: "n \<le> length pw \<Longrightarrow> password_stream pw n = take n pw"
  by (rule nth_equalityI) (auto simp: password_stream_def)

lemma password_stream_step:
  assumes "pw \<noteq> []" and "length pw \<le> n"
  shows "password_stream pw n = pw @ password_stream pw (n - length pw)"
proof (rule nth_equalityI)
  show "length (password_stream pw n) = length (pw @ password_stream pw (n - length pw))"
    using assms by simp
  fix i assume i: "i < length (password_stream pw n)"
  show "password_stream pw n ! i = (pw @ password_stream pw (n - length pw)) ! i"
  proof (cases "i < length pw")
    case True
    with i show ?thesis by (simp add: password_stream_def nth_append)
  next
    case False
    then have "i mod length pw = (i - length pw) mod length pw"
      by (simp add: le_mod_geq)
    moreover have "i - length pw < n - length pw" using False i by simp
    ultimately show ?thesis using False i by (simp add: password_stream_def nth_append)
  qed
qed

lemma digest_loop_stream:
  "pw \<noteq> [] \<Longrightarrow> \<exists>ps. digest_loop upd pw target h written = Some (foldl upd h ps)
     \<and> concat ps = password_stream pw (target - written)"
proof (induction "target - written" arbitrary: h written rule: less_induct)
  case less
  show ?case
  proof (cases "written < target")
    case False
    then have "digest_loop upd pw target h written = Some (foldl upd h [])"
      by (subst digest_loop.simps) simp
    with False show ?thesis by (intro exI [of _ "[]"]) (simp add: password_stream_def)
  next
    case True
    let ?k = "min (target - written) (length pw)"
    have k: "0 < ?k" using True less.prems by simp
    have step: "digest_loop upd pw target h written
        = digest_loop upd pw target (upd h (take ?k pw)) (written + ?k)"
      using True by (subst digest_loop.simps) (simp add: Let_def)
    have "target - (written + ?k) < target - written" using True k by linarith
    from less.hyps [OF this less.prems] obtain ps where
      ps: "digest_loop upd pw target (upd h (take ?k pw)) (written + ?k)
             = Some (foldl upd (upd h (take ?k pw)) ps)"
        "concat ps = password_stream pw (target - (written + ?k))"
      by blast
    have "password_stream pw (target - written) = take ?k pw @ concat ps"
    proof (cases "target - written \<le> length pw")
      case True
      then show ?thesis using ps(2) by (simp add: password_stream_short min_def)
    next
      case False
      then have "?k = length pw" by simp
      with False less.prems show ?thesis using ps(2) by (simp add: password_stream_step)
    qed
    with step ps(1) show ?thesis by (intro exI [of _ "take ?k pw # ps"]) simp
  qed
qed

text \<open>With an empty password the loop makes no progress and never ends.\<close>

lemma digest_loop_empty:
  fixes upd :: "'h \<Rightarrow> bytes \<Rightarrow> 'h"
  shows "written < target \<Longrightarrow> digest_loop upd [] target h written = None"
proof -
  have "pw = [] \<longrightarrow> target \<le> written" if "digest_loop upd pw target h written = Some y"
    for upd :: "'h \<Rightarrow> bytes \<Rightarrow> 'h" and pw target h written y
    by (rule digest_loop.raw_induct
        [where P = "\<lambda>upd pw target h written y. pw = [] \<longrightarrow> target \<le> written", OF _ that])
      (force simp: Let_def split: if_splits)
  from this [of upd "[]" target h written] show "written < target \<Longrightarrow> ?thesis"
    by (cases "digest_loop upd [] target h written") auto
qed

lemma incremental_digest_stream:
  "streaming_law C \<Longrightarrow> pw \<noteq> [] \<Longrightarrow>
   incremental_digest C proto pw target = Some (digest C proto (password_stream pw target))"
  using digest_loop_stream [of pw "hasher_update C" target "hasher_new C proto" 0]
  by (auto simp: incremental_digest_def streaming_law_def)

lemma incremental_digest_empty:
  fixes C :: "'h crypto"
  shows "incremental_digest C proto [] target = None \<longleftrightarrow> 0 < target"
proof (cases "0 < target")
  case True
  then show ?thesis by (simp add: incremental_digest_def digest_loop_empty)
next
  case False
  have "digest_loop upd [] 0 h 0 = Some h" for upd :: "'h \<Rightarrow> bytes \<Rightarrow> 'h" and h
    by (subst digest_loop.simps) simp
  with False show ?thesis by (simp add: incremental_digest_def)
qed


section \<open>Keys, tags and encryption\<close>

text \<open>The weakest authentication protocol whose digest covers the key of a cipher.\<close>

fun min_auth :: "priv_protocol \<Rightarrow> auth_protocol" where
  "min_auth Aes128 = Sha1"
| "min_auth Aes192 = Sha224"
| "min_auth Aes256 = Sha256"

lemma key_fits_iff: "key_len p \<le> digest_len a \<longleftrightarrow> min_auth p \<le> a"
  by (cases a; cases p) (simp_all add: less_eq_auth_protocol_def)

text \<open>The localised key of RFC 3414 A.2.\<close>

definition localized_key :: "'h crypto \<Rightarrow> rstr \<Rightarrow> engine_id \<Rightarrow> auth_protocol \<Rightarrow> bytes" where
  "localized_key C password engine_id proto =
     (let d = digest C proto (password_stream (utf8 password) (2 ^ 20)) in
      digest C proto (d @ eid_bytes engine_id @ d))"

lemma password_to_key_result:
  assumes "streaming_law C"
  shows "password_to_key C password e proto =
     (if str_len password < 8
      then Return (Err (Usage (lit ''USM password must be at least '' @ dec 8
             @ lit '' characters (RFC 3414 '' @ [167] @ lit ''11.2); got '' @ dec (str_len password))))
      else Return (Ok (localized_key C password e proto)))"
proof (cases "str_len password < 8")
  case False
  then have "password \<noteq> []" by auto
  then show ?thesis
    using False
    by (simp add: password_to_key_def MIN_USM_PASSWORD_LEN_def password_intermediate_digest_def
        DIGEST_TARGET_def incremental_digest_stream [OF assms] Let_def localized_key_def hash_def)
qed (simp add: password_to_key_def MIN_USM_PASSWORD_LEN_def)

lemma length_localized_key: "size_law C \<Longrightarrow> length (localized_key C pw e proto) = digest_len proto"
  by (simp add: localized_key_def size_law_def Let_def)

lemma priv_key_result:
  assumes "streaming_law C" and "size_law C"
  shows "priv_key_from_password C pw e a p = Return (Ok key) \<longleftrightarrow>
     8 \<le> str_len pw \<and> min_auth p \<le> a \<and> key = take (key_len p) (localized_key C pw e a)"
  using assms
  by (auto simp: priv_key_from_password_def password_to_key_result Let_def length_localized_key
      key_fits_iff [symmetric])

lemma password_to_key_returns [returning]: "streaming_law C \<Longrightarrow> returns (password_to_key C pw e a)"
  by (simp add: password_to_key_result)

lemma priv_key_returns [returning]:
  "streaming_law C \<Longrightarrow> returns (priv_key_from_password C pw e a p)"
  by (auto simp: priv_key_from_password_def returns_and_try password_to_key_returns Let_def)

lemma auth_param_fits: "auth_param_len a \<le> digest_len a"
  by (cases a) simp_all

lemma auth_sign_result:
  assumes "size_law C" and "length key = digest_len a"
  obtains t where "hmac_tag C a key m = Some t" and "auth_sign C m key a = Return (take (auth_param_len a) t)"
    and "length (take (auth_param_len a) t) = auth_param_len a"
proof -
  obtain t where t: "hmac_tag C a key m = Some t" "length t = digest_len a"
    using assms(1) unfolding size_law_def by blast
  with auth_param_fits [of a] assms(2) show ?thesis
    by (intro that [of t]) (simp_all add: auth_sign_def slice_to_def)
qed

lemma auth_sign_wrong_key: "length key \<noteq> digest_len a \<Longrightarrow> auth_sign C m key a = Panic"
  by (simp add: auth_sign_def)

lemma length_make_aes_iv [simp]: "length (make_aes_iv b t s) = 16"
  by (simp add: make_aes_iv_def)

lemma make_aes_iv_inj:
  "make_aes_iv b t s = make_aes_iv b' t' s' \<longleftrightarrow> b = b' \<and> t = t' \<and> s = s'"
  by (auto simp: make_aes_iv_def append_eq_append_conv dest: be_bytes_inj [rotated])

lemma priv_encrypt_result:
  assumes "size_law C" and "key_len p \<le> length key"
  obtains c where "priv_encrypt C m key b t s p = Return c" and "length c = length m"
    and "cfb_encrypt C p (take (key_len p) key) (make_aes_iv b t s) m = Some c"
proof -
  have "length (take (key_len p) key) = key_len p" using assms(2) by simp
  with assms(1) obtain c where
    c: "cfb_encrypt C p (take (key_len p) key) (make_aes_iv b t s) m = Some c" "length c = length m"
    unfolding size_law_def by (metis length_make_aes_iv)
  then show ?thesis
    using assms(2) by (intro that [of c]) (simp_all add: priv_encrypt_def slice_to_def)
qed

lemma priv_encrypt_short_key: "length key < key_len p \<Longrightarrow> priv_encrypt C m key b t s p = Panic"
  by (simp add: priv_encrypt_def)

lemma priv_encrypt_decrypts:
  assumes "cipher_law C" and "priv_encrypt C m key b t s p = Return c"
  shows "cfb_decrypt C p (take (key_len p) key) (make_aes_iv b t s) c = Some m"
  using assms by (auto simp: priv_encrypt_def cipher_law_def Let_def split: if_splits)

section \<open>An instance of the laws\<close>

text \<open>
  Small functions that satisfy the laws, for evaluating the theorems at concrete inputs:
  a padded prefix as digest, and an exclusive or with one key byte as cipher.
\<close>

definition pad_to :: "nat \<Rightarrow> bytes \<Rightarrow> bytes" where
  "pad_to n m = take n m @ replicate (n - length m) 0"

definition xor_cipher :: "priv_protocol \<Rightarrow> bytes \<Rightarrow> bytes \<Rightarrow> bytes \<Rightarrow> bytes option" where
  "xor_cipher p k iv m =
     (if length k = key_len p \<and> length iv = 16 then Some (map (\<lambda>b. b XOR (hd k XOR hd iv)) m) else None)"

definition sample_crypto :: "(auth_protocol \<times> bytes) crypto" where
  "sample_crypto = \<lparr>
     hasher_new = (\<lambda>p. (p, [])),
     hasher_update = (\<lambda>h m. (fst h, snd h @ m)),
     hasher_finalize = (\<lambda>h. pad_to (digest_len (fst h)) (snd h)),
     digest = (\<lambda>p m. pad_to (digest_len p) m),
     hmac_tag = (\<lambda>p k m. Some (pad_to (digest_len p) (map2 (XOR) k m))),
     cfb_encrypt = xor_cipher,
     cfb_decrypt = xor_cipher \<rparr>"

lemma length_pad_to [simp]: "length (pad_to n m) = n"
  by (simp add: pad_to_def)

lemma sample_stream: "foldl (\<lambda>h m. (fst h, snd h @ m)) (p, xs) cs = (p, xs @ concat cs)"
  by (induction cs arbitrary: xs) auto

lemma sample_streaming [simp]: "streaming_law sample_crypto"
  by (simp add: streaming_law_def sample_crypto_def sample_stream)

lemma sample_sizes [simp]: "size_law sample_crypto"
  by (simp add: size_law_def sample_crypto_def xor_cipher_def)

lemma xor_twice: "(b XOR x) XOR x = (b :: u8)"
  by (rule bit_word_eqI) (auto simp: bit_xor_iff)

lemma sample_cipher [simp]: "cipher_law sample_crypto"
  by (auto simp: cipher_law_def sample_crypto_def xor_cipher_def o_def xor_twice
      split: if_splits)

section \<open>Properties\<close>

text \<open>
  C7: Password localisation computes the key of RFC 3414 A.2: the digest of the first 2 to the
  20 octets of the password repeated for ever, hashed again around the engine identifier, for
  every password of at least 8 octets; a shorter one is a usage error. It never panics and
  never runs for ever.
\<close>

lemma password_to_key_rfc3414:
  assumes "streaming_law C"
  shows "if 8 \<le> str_len password
    then password_to_key C password e proto = Return (Ok
           (let d = digest C proto (map (\<lambda>i. utf8 password ! (i mod str_len password)) [0..<1048576])
            in digest C proto (d @ eid_bytes e @ d)))
    else \<exists>m. password_to_key C password e proto = Return (Err (Usage m))"
  using assms
  by (simp add: password_to_key_result localized_key_def password_stream_def str_len_def)

lemma password_to_key_rfc3414_witness:
  "(\<exists>k. password_to_key sample_crypto (lit ''maplesyrup'') (EngineId [0, 0, 0, 0, 2]) Sha1 = Return (Ok k))
   \<and> (\<exists>m. password_to_key sample_crypto (lit ''maple'') (EngineId [0, 0, 0, 0, 2]) Sha1 = Return (Err (Usage m)))"
proof -
  have "str_len (lit ''maplesyrup'') = 10" "str_len (lit ''maple'') = 5"
    by (simp_all add: str_len_def utf8_def utf8_char_def lit_def)
  then show ?thesis
    using password_to_key_rfc3414 [OF sample_streaming, of "lit ''maplesyrup''" "EngineId [0, 0, 0, 0, 2]" Sha1]
      password_to_key_rfc3414 [OF sample_streaming, of "lit ''maple''" "EngineId [0, 0, 0, 0, 2]" Sha1]
    by (auto simp del: upt_rec_numeral upt_conv_Cons)
qed

text \<open>
  C26: The loop that feeds the password to the hasher returns exactly when the password is not
  empty or nothing has to be fed; the digest of a password is always returned all the same,
  because the only caller answers the empty password without entering the loop.
\<close>

lemma digest_loop_termination:
  assumes "streaming_law C"
  shows "(incremental_digest C proto pw target \<noteq> None \<longleftrightarrow> pw \<noteq> [] \<or> target = 0)
    \<and> returns (password_intermediate_digest C password proto)"
  using incremental_digest_empty [of C proto target] incremental_digest_stream [OF assms]
  by (cases "pw = []") (auto simp: password_intermediate_digest_def Let_def)

lemma digest_loop_termination_witness:
  "incremental_digest sample_crypto Sha256 [] 5 = None
   \<and> incremental_digest sample_crypto Sha256 [1, 2] 5 \<noteq> None"
  using digest_loop_termination [OF sample_streaming, of Sha256 "[]" 5 "[]"]
    digest_loop_termination [OF sample_streaming, of Sha256 "[1, 2]" 5 "[]"]
  by simp

text \<open>
  C27: A privacy key is derived exactly for passwords of at least 8 octets and authentication
  protocols whose digest covers the key of the cipher: SHA-1 or better for AES-128, SHA-224
  for AES-192, SHA-256 for AES-256; it is the localised key cut to the length the cipher
  takes. The derivation never panics.
\<close>

lemma priv_key_exact:
  assumes "streaming_law C" and "size_law C"
  shows "returns (priv_key_from_password C pw e a p)
    \<and> (priv_key_from_password C pw e a p = Return (Ok key) \<longleftrightarrow>
         8 \<le> str_len pw \<and> min_auth p \<le> a \<and> key = take (key_len p) (localized_key C pw e a)
         \<and> length key = key_len p)"
  using priv_key_result [OF assms, of pw e a p key] priv_key_returns [OF assms(1)]
    length_localized_key [OF assms(2), of pw e a] key_fits_iff [of p a]
  by auto

lemma priv_key_exact_witness:
  "priv_key_from_password sample_crypto (lit ''maplesyrup'') (EngineId [0, 0, 0, 0, 2]) Sha256 Aes128
     = Return (Ok (take 16 (localized_key sample_crypto (lit ''maplesyrup'') (EngineId [0, 0, 0, 0, 2]) Sha256)))"
  using priv_key_exact [OF sample_streaming sample_sizes, of "lit ''maplesyrup''"
      "EngineId [0, 0, 0, 0, 2]" Sha256 Aes128]
  by (simp add: less_eq_auth_protocol_def str_len_def utf8_def utf8_char_def lit_def
      length_localized_key)

text \<open>
  C28: A tag is computed exactly for keys of the digest length of the protocol, and has the
  length RFC 7860 prescribes; a message is encrypted exactly when the key is long enough for
  the cipher, to as many octets, and the receiver's decryption under the initialisation vector
  made of boots, time and salt gives it back. Other keys stop the program.
\<close>

lemma usm_primitives_exact:
  assumes "size_law C" and "cipher_law C"
  shows "(if length auth_key = digest_len a
          then \<exists>t. hmac_tag C a auth_key m = Some t
                \<and> auth_sign C m auth_key a = Return (take (auth_param_len a) t)
                \<and> length (take (auth_param_len a) t) = auth_param_len a
          else auth_sign C m auth_key a = Panic)
    \<and> (if key_len p \<le> length key
       then \<exists>c. priv_encrypt C m key b t s p = Return c \<and> length c = length m
              \<and> cfb_decrypt C p (take (key_len p) key) (be_bytes 4 b @ be_bytes 4 t @ be_bytes 8 s) c = Some m
       else priv_encrypt C m key b t s p = Panic)"
proof (intro conjI)
  show "if length auth_key = digest_len a
    then \<exists>t. hmac_tag C a auth_key m = Some t \<and> auth_sign C m auth_key a = Return (take (auth_param_len a) t)
      \<and> length (take (auth_param_len a) t) = auth_param_len a
    else auth_sign C m auth_key a = Panic"
    using auth_sign_wrong_key [of auth_key a C m] auth_sign_result [OF assms(1), of auth_key a m]
    by (metis (no_types))
  show "if key_len p \<le> length key
    then \<exists>c. priv_encrypt C m key b t s p = Return c \<and> length c = length m
      \<and> cfb_decrypt C p (take (key_len p) key) (be_bytes 4 b @ be_bytes 4 t @ be_bytes 8 s) c = Some m
    else priv_encrypt C m key b t s p = Panic"
  proof (cases "key_len p \<le> length key")
    case True
    from assms(1) True obtain c where
      c: "priv_encrypt C m key b t s p = Return c" "length c = length m"
      by (rule priv_encrypt_result)
    with priv_encrypt_decrypts [OF assms(2) c(1)] True show ?thesis
      by (simp add: make_aes_iv_def)
  qed (simp add: priv_encrypt_short_key not_le)
qed

lemma usm_primitives_exact_witness:
  "auth_sign sample_crypto [1, 2] [7] Sha1 = Panic
   \<and> (\<exists>c. priv_encrypt sample_crypto [1, 2] (replicate 16 9) 1 0 5 Aes128 = Return c \<and> length c = 2)"
  using usm_primitives_exact [OF sample_sizes sample_cipher, of "[7]" Sha1 "[1, 2]" Aes128
      "replicate 16 9" 1 0 5]
  by auto

text \<open>
  The names of the protocols are read without regard to the case of letters; every
  protocol has a name, distinct protocols have distinct names, and the withdrawn ones, HMAC-MD5,
  DES and 3DES, are refused with a usage error in any case.
\<close>

lemma protocol_names:
  assumes "to_ascii_uppercase s = to_ascii_uppercase t"
  shows "to_option (auth_from_str s) = to_option (auth_from_str t)
    \<and> to_option (priv_from_str s) = to_option (priv_from_str t)
    \<and> (t = show_auth a \<longrightarrow> auth_from_str s = Ok a) \<and> (t = show_priv p \<longrightarrow> priv_from_str s = Ok p)
    \<and> (show_auth a = show_auth a' \<longrightarrow> a = a') \<and> (show_priv p = show_priv p' \<longrightarrow> p = p')
    \<and> (t \<in> {lit ''MD5'', lit ''HMAC-MD5''} \<longrightarrow> (\<exists>m. auth_from_str s = Err (Usage m)))
    \<and> (t \<in> {lit ''DES'', lit ''DES-CBC'', lit ''3DES'', lit ''3DES-CBC'', lit ''TDES''} \<longrightarrow>
         (\<exists>m. priv_from_str s = Err (Usage m)))"
proof -
  have md5: "t \<in> {lit ''MD5'', lit ''HMAC-MD5''} \<Longrightarrow> to_option (auth_from_str s) = None"
    using assms withdrawn_auth [of s] by (auto simp: to_ascii_uppercase_def lit_def upper_char_def)
  have des: "t \<in> {lit ''DES'', lit ''DES-CBC'', lit ''3DES'', lit ''3DES-CBC'', lit ''TDES''} \<Longrightarrow>
      to_option (priv_from_str s) = None"
    using assms withdrawn_priv [of s] by (auto simp: to_ascii_uppercase_def lit_def upper_char_def)
  show ?thesis
    using assms md5 des auth_kw.case_insensitive [of s t] priv_kw.case_insensitive [of s t]
      auth_kw.name_any_case [of s a] priv_kw.name_any_case [of s p]
      auth_kw.name_inj [of a a'] priv_kw.name_inj [of p p']
      auth_kw.accept_or_usage [of s] priv_kw.accept_or_usage [of s]
    by auto
qed

end
