(* ===== verification/V3.thy ===== *)
theory V3
  imports Pdu Usm
begin

unbundle bit_operations_syntax

text \<open>
  \<open>src/v3.rs\<close>: the SNMPv3 message around a trap: scoped PDU, optional encryption, security
  parameters with a zero placeholder, the tag over the encoded message and the second
  encoding with the tag in the placeholder's place.
\<close>

section \<open>Messages\<close>

definition SECURITY_MODEL_USM :: u32 where "SECURITY_MODEL_USM = 3"
definition MSG_VERSION_V3 :: u32 where "MSG_VERSION_V3 = 3"
definition MSG_MAX_SIZE :: u32 where "MSG_MAX_SIZE = 65507"

definition FLAG_AUTH :: u8 where "FLAG_AUTH = 1"
definition FLAG_PRIV :: u8 where "FLAG_PRIV = 2"

datatype v3_security =
    SecNoAuthNoPriv
  | SecAuthNoPriv auth_protocol bytes
  | SecAuthPriv auth_protocol bytes priv_protocol bytes u64

record v3_trap_message =
  m_authoritative_engine_id :: engine_id
  m_context_engine_id :: engine_id
  m_context_name :: bytes
  m_user_name :: bytes
  m_engine_boots :: u32
  m_engine_time :: u32
  m_msg_id :: i32
  m_security :: v3_security
  m_trap :: v2c_trap

fun flag_byte :: "v3_security \<Rightarrow> u8" where
  "flag_byte SecNoAuthNoPriv = 0"
| "flag_byte (SecAuthNoPriv _ _) = FLAG_AUTH"
| "flag_byte (SecAuthPriv _ _ _ _ _) = FLAG_AUTH OR FLAG_PRIV"

fun auth :: "v3_security \<Rightarrow> (auth_protocol \<times> bytes) option" where
  "auth SecNoAuthNoPriv = None"
| "auth (SecAuthNoPriv proto auth_key) = Some (proto, auth_key)"
| "auth (SecAuthPriv auth_proto auth_key _ _ _) = Some (auth_proto, auth_key)"

definition build_scoped_pdu :: "codec \<Rightarrow> v3_trap_message \<Rightarrow> (scoped_pdu, error) result" where
  "build_scoped_pdu cd m =
     andthen (make_v2_varbind SYS_UPTIME_OID (VTimeTicks (v2t_uptime (m_trap m)))) (\<lambda>b0.
     andthen (make_v2_varbind SNMP_TRAP_OID_OID (VObjectId (v2t_trap_oid (m_trap m)))) (\<lambda>b1.
     andthen (map_try (\<lambda>(oid, v). make_v2_varbind oid v) (v2t_varbinds (m_trap m))) (\<lambda>bs.
       let pdu = \<lparr>request_id = v2t_request_id (m_trap m), error_status = no_error_status cd,
                  error_index = 0, variable_bindings = b0 # b1 # bs\<rparr>
       in Ok \<lparr>scoped_engine_id = eid_bytes (m_context_engine_id m),
              scoped_name = m_context_name m, scoped_trap = pdu\<rparr>)))"

definition build_usm_params :: "v3_trap_message \<Rightarrow> bytes \<Rightarrow> bytes \<Rightarrow> usm_params" where
  "build_usm_params m auth_params priv_params =
     \<lparr>authoritative_engine_id = eid_bytes (m_authoritative_engine_id m),
      authoritative_engine_boots = uint (m_engine_boots m),
      authoritative_engine_time = uint (m_engine_time m),
      usm_user_name = m_user_name m,
      authentication_parameters = auth_params,
      privacy_parameters = priv_params\<rparr>"

text \<open>\<open>encode\<close>, at the three types it is used at.\<close>

definition encode_with :: "('a \<Rightarrow> (bytes, rstr) result) \<Rightarrow> 'a \<Rightarrow> (bytes, error) result" where
  "encode_with enc value = map_err Encode (enc value)"

text \<open>The scoped PDU as it is sent, with the privacy parameters.\<close>

definition scoped_data_of ::
  "'h crypto \<Rightarrow> codec \<Rightarrow> v3_trap_message \<Rightarrow> scoped_pdu \<Rightarrow> (scoped_data \<times> bytes, error) result outcome"
where
  "scoped_data_of C cd m scoped_pdu =
     (case m_security m of
        SecAuthPriv _ _ priv_proto priv_key salt \<Rightarrow>
          and_try (Return (encode_with (encode_scoped cd) scoped_pdu)) (\<lambda>plaintext.
          and_run (priv_encrypt C plaintext priv_key (m_engine_boots m) (m_engine_time m) salt
                     priv_proto) (\<lambda>ct.
            Return (Ok (EncryptedPdu ct, be_bytes 8 salt))))
      | _ \<Rightarrow> Return (Ok (CleartextPdu scoped_pdu, [])))"

definition placeholder_len :: "v3_security \<Rightarrow> nat" where
  "placeholder_len s =
     (case s of
        SecNoAuthNoPriv \<Rightarrow> 0
      | SecAuthNoPriv proto _ \<Rightarrow> auth_param_len proto
      | SecAuthPriv auth_proto _ _ _ _ \<Rightarrow> auth_param_len auth_proto)"

definition v3_header :: "v3_trap_message \<Rightarrow> header_v3" where
  "v3_header m =
     \<lparr>message_id = sint (m_msg_id m), max_size = uint MSG_MAX_SIZE,
      flags = [flag_byte (m_security m)], security_model = uint SECURITY_MODEL_USM\<rparr>"

text \<open>\<open>debug\<close> says whether the build checks \<open>debug_assert\<close>.\<close>

definition build_v3_trap_message ::
  "bool \<Rightarrow> 'h crypto \<Rightarrow> codec \<Rightarrow> v3_trap_message \<Rightarrow> (bytes, error) result outcome"
where
  "build_v3_trap_message debug C cd m =
     and_try (Return (build_scoped_pdu cd m)) (\<lambda>scoped_pdu.
     and_try (scoped_data_of C cd m scoped_pdu) (\<lambda>(scoped_data, priv_params_bytes).
     let auth_param_len = placeholder_len (m_security m);
         usm_params_placeholder =
           build_usm_params m (replicate auth_param_len 0) priv_params_bytes in
     and_try (Return (encode_with (encode_usm cd) usm_params_placeholder)) (\<lambda>security_params_bytes.
     let header = v3_header m;
         message_placeholder =
           \<lparr>v3_version = uint MSG_VERSION_V3, global_data = header,
            security_parameters = security_params_bytes, v3_scoped_data = scoped_data\<rparr> in
     and_try (Return (encode_with (encode_v3 cd) message_placeholder)) (\<lambda>bytes_with_placeholder.
     case auth (m_security m) of
       None \<Rightarrow> Return (Ok bytes_with_placeholder)
     | Some (proto, key) \<Rightarrow>
         and_run (auth_sign C bytes_with_placeholder key proto) (\<lambda>tag.
         if length tag \<noteq> auth_param_len then Panic
         else
           let usm_params_signed = build_usm_params m tag priv_params_bytes in
           and_try (Return (encode_with (encode_usm cd) usm_params_signed)) (\<lambda>security_params_signed.
           let message_signed =
             \<lparr>v3_version = uint MSG_VERSION_V3, global_data = header,
              security_parameters = security_params_signed, v3_scoped_data = scoped_data\<rparr> in
           and_try (Return (encode_with (encode_v3 cd) message_signed)) (\<lambda>bytes_signed.
           if debug \<and> length bytes_signed \<noteq> length bytes_with_placeholder then Panic
           else Return (Ok bytes_signed))))))))"

definition fresh_msg_id :: "i32_draw \<Rightarrow> i32" where
  "fresh_msg_id rng = rng 1 I32_MAX"


section \<open>The splice\<close>

text \<open>
  What BER promises of an OCTET STRING inside a message: strings of one length leave the bytes
  around them unchanged. This is what the two encodings of an authenticated message rest on.
\<close>

definition splices :: "(bytes \<Rightarrow> (bytes, 'e) result) \<Rightarrow> bool" where
  "splices f \<longleftrightarrow>
     (\<forall>n. (\<exists>pre post. \<forall>a. length a = n \<longrightarrow> f a = Ok (pre @ a @ post))
        \<or> (\<forall>a. length a = n \<longrightarrow> \<not> is_ok (f a)))"

definition splice_law :: "codec \<Rightarrow> bool" where
  "splice_law cd \<longleftrightarrow>
     (\<forall>p. splices (\<lambda>a. encode_usm cd (p\<lparr>authentication_parameters := a\<rparr>)))
     \<and> (\<forall>m. splices (\<lambda>s. encode_v3 cd (m\<lparr>security_parameters := s\<rparr>)))"

lemma splices_map_err [simp]: "splices (\<lambda>a. map_err g (f a)) \<longleftrightarrow> splices f"
proof -
  have "is_ok (map_err g r) \<longleftrightarrow> is_ok r" for r :: "(bytes, 'b) result" by (cases r) simp_all
  then show ?thesis by (simp add: splices_def)
qed

lemma splices_andthen:
  assumes "splices f" and "splices g"
  shows "splices (\<lambda>a. andthen (f a) g)"
  unfolding splices_def
proof
  fix n
  show "(\<exists>pre post. \<forall>a. length a = n \<longrightarrow> andthen (f a) g = Ok (pre @ a @ post))
        \<or> (\<forall>a. length a = n \<longrightarrow> \<not> is_ok (andthen (f a) g))"
  proof (cases "\<exists>pre post. \<forall>a. length a = n \<longrightarrow> f a = Ok (pre @ a @ post)")
    case False
    with assms(1) have "\<forall>a. length a = n \<longrightarrow> \<not> is_ok (f a)" unfolding splices_def by blast
    then show ?thesis by (auto simp: not_is_ok_iff)
  next
    case True
    then obtain pre post where f: "\<forall>a. length a = n \<longrightarrow> f a = Ok (pre @ a @ post)" by blast
    let ?k = "length pre + n + length post"
    consider pre' post' where "\<forall>s. length s = ?k \<longrightarrow> g s = Ok (pre' @ s @ post')"
      | "\<forall>s. length s = ?k \<longrightarrow> \<not> is_ok (g s)"
      using assms(2) unfolding splices_def by blast
    then show ?thesis
    proof cases
      case 1
      with f have "\<forall>a. length a = n \<longrightarrow> andthen (f a) g = Ok ((pre' @ pre) @ a @ (post @ post'))"
        by simp
      then show ?thesis by blast
    next
      case 2
      with f show ?thesis by simp
    qed
  qed
qed

lemma splices_same_length:
  "splices f \<Longrightarrow> f a = Ok x \<Longrightarrow> length b = length a \<Longrightarrow>
   \<exists>pre post. x = pre @ a @ post \<and> f b = Ok (pre @ b @ post)"
  unfolding splices_def by (metis is_ok.simps(1) result.inject(1))

text \<open>The encoded message as a function of the authentication parameters.\<close>

definition v3_message ::
  "v3_trap_message \<Rightarrow> scoped_data \<Rightarrow> bytes \<Rightarrow> message_v3"
where
  "v3_message m sd s =
     \<lparr>v3_version = 3, global_data = v3_header m, security_parameters = s, v3_scoped_data = sd\<rparr>"

definition wire :: "codec \<Rightarrow> v3_trap_message \<Rightarrow> scoped_data \<Rightarrow> bytes \<Rightarrow> bytes \<Rightarrow> (bytes, rstr) result" where
  "wire cd m sd pp a =
     andthen (encode_usm cd (build_usm_params m a pp)) (\<lambda>s. encode_v3 cd (v3_message m sd s))"

lemma wire_splices: "splice_law cd \<Longrightarrow> splices (wire cd m sd pp)"
proof -
  assume l: "splice_law cd"
  have u: "splices (\<lambda>a. encode_usm cd (build_usm_params m a pp))"
    using l [unfolded splice_law_def, THEN conjunct1, rule_format, of "build_usm_params m [] pp"]
    by (simp add: build_usm_params_def)
  have "splices (\<lambda>s. encode_v3 cd (v3_message m sd s))"
    using l [unfolded splice_law_def, THEN conjunct2, rule_format, of "v3_message m sd []"]
    by (simp add: v3_message_def)
  with u show ?thesis unfolding wire_def by (rule splices_andthen)
qed

section \<open>What a message is made of\<close>

definition scoped_of :: "codec \<Rightarrow> v3_trap_message \<Rightarrow> scoped_pdu" where
  "scoped_of cd m =
     \<lparr>scoped_engine_id = eid_bytes (m_context_engine_id m), scoped_name = m_context_name m,
      scoped_trap = \<lparr>request_id = v2t_request_id (m_trap m), error_status = no_error_status cd,
        error_index = 0, variable_bindings =
          v2_bindings (v2t_uptime (m_trap m)) (v2t_trap_oid (m_trap m)) (v2t_varbinds (m_trap m))\<rparr>\<rparr>"

lemma build_scoped_pdu_eq: "build_scoped_pdu cd m = Ok (scoped_of cd m)"
  by (simp add: build_scoped_pdu_def scoped_of_def v2_bindings_def)

text \<open>The two encodings of the code are two values of \<open>wire\<close>.\<close>

lemma build_v3_wire:
  "build_v3_trap_message debug C cd m =
     and_try (scoped_data_of C cd m (scoped_of cd m)) (\<lambda>(sd, pp).
     and_try (Return (map_err Encode (wire cd m sd pp (replicate (placeholder_len (m_security m)) 0)))) (\<lambda>b0.
     case auth (m_security m) of
       None \<Rightarrow> Return (Ok b0)
     | Some (proto, key) \<Rightarrow>
         and_run (auth_sign C b0 key proto) (\<lambda>tag.
         if length tag \<noteq> placeholder_len (m_security m) then Panic
         else and_try (Return (map_err Encode (wire cd m sd pp tag))) (\<lambda>b1.
           if debug \<and> length b1 \<noteq> length b0 then Panic else Return (Ok b1)))))"
proof -
  have w: "and_try (Return (map_err Encode (wire cd m sd pp a))) K
      = and_try (Return (encode_with (encode_usm cd) (build_usm_params m a pp))) (\<lambda>s.
        and_try (Return (encode_with (encode_v3 cd) (v3_message m sd s))) K)"
    for sd pp a and K :: "bytes \<Rightarrow> (bytes, error) result outcome"
    unfolding wire_def encode_with_def
    by (cases "encode_usm cd (build_usm_params m a pp)") simp_all
  have version: "uint MSG_VERSION_V3 = 3" by (simp add: MSG_VERSION_V3_def)
  show ?thesis
    unfolding build_v3_trap_message_def w version v3_message_def Let_def
    by (simp add: build_scoped_pdu_eq)
qed

lemma placeholder_len_auth: "auth s = Some (p, k) \<Longrightarrow> placeholder_len s = auth_param_len p"
  by (cases s) (simp_all add: placeholder_len_def)

text \<open>Keys of the sizes the protocols ask for.\<close>

fun keys_fit :: "v3_security \<Rightarrow> bool" where
  "keys_fit SecNoAuthNoPriv \<longleftrightarrow> True"
| "keys_fit (SecAuthNoPriv proto key) \<longleftrightarrow> length key = digest_len proto"
| "keys_fit (SecAuthPriv proto key priv priv_key _) \<longleftrightarrow>
     length key = digest_len proto \<and> key_len priv \<le> length priv_key"

lemma keys_fit_auth: "keys_fit s \<Longrightarrow> auth s = Some (p, k) \<Longrightarrow> length k = digest_len p"
  by (cases s) auto

lemma scoped_data_returns:
  assumes "size_law C" and "keys_fit (m_security m)"
  shows "returns (scoped_data_of C cd m sp)"
proof (cases "m_security m")
  case (SecAuthPriv a k p pk salt)
  show ?thesis
  proof (cases "encode_scoped cd sp")
    case (Ok plain)
    obtain c where "priv_encrypt C plain pk (m_engine_boots m) (m_engine_time m) salt p = Return c"
      by (rule priv_encrypt_result [OF assms(1), of p pk plain]) (use assms(2) SecAuthPriv in auto)
    with SecAuthPriv Ok show ?thesis by (simp add: scoped_data_of_def encode_with_def)
  qed (simp add: SecAuthPriv scoped_data_of_def encode_with_def)
qed (simp_all add: scoped_data_of_def)

text \<open>Signing: the tag takes the place of the zeroes, so the second encoding succeeds.\<close>

lemma signing_returns:
  assumes "size_law C" and "splice_law cd" and "length k = digest_len p"
    and w: "wire cd m sd pp (replicate (auth_param_len p) 0) = Ok b0"
  shows "returns (and_run (auth_sign C b0 k p) (\<lambda>tag.
     if length tag \<noteq> auth_param_len p then Panic
     else and_try (Return (map_err Encode (wire cd m sd pp tag))) (\<lambda>b1.
       if debug \<and> length b1 \<noteq> length b0 then Panic else Return (Ok b1))))"
proof -
  obtain t where t: "auth_sign C b0 k p = Return (take (auth_param_len p) t)"
      "length (take (auth_param_len p) t) = auth_param_len p"
    by (rule auth_sign_result [OF assms(1,3)])
  from splices_same_length [OF wire_splices [OF assms(2)] w, of "take (auth_param_len p) t"]
  obtain b1 where "wire cd m sd pp (take (auth_param_len p) t) = Ok b1" "length b1 = length b0"
    using t(2) by auto
  with t show ?thesis by simp
qed

lemma build_v3_returns [returning]:
  assumes "size_law C" and "splice_law cd" and "keys_fit (m_security m)"
  shows "returns (build_v3_trap_message debug C cd m)"
  unfolding build_v3_wire
proof (rule and_try_returns, rule scoped_data_returns [OF assms(1,3)])
  fix x assume "scoped_data_of C cd m (scoped_of cd m) = Return (Ok x)"
  obtain sd pp where x: "x = (sd, pp)" by (cases x)
  let ?z = "replicate (placeholder_len (m_security m)) (0 :: u8)"
  show "returns (case x of (sd, pp) \<Rightarrow>
     and_try (Return (map_err Encode (wire cd m sd pp ?z))) (\<lambda>b0.
     case auth (m_security m) of
       None \<Rightarrow> Return (Ok b0)
     | Some (proto, key) \<Rightarrow>
         and_run (auth_sign C b0 key proto) (\<lambda>tag.
         if length tag \<noteq> placeholder_len (m_security m) then Panic
         else and_try (Return (map_err Encode (wire cd m sd pp tag))) (\<lambda>b1.
           if debug \<and> length b1 \<noteq> length b0 then Panic else Return (Ok b1)))))"
  proof (cases "auth (m_security m)")
    case None
    then show ?thesis by (simp add: x returns_and_try)
  next
    case (Some pk)
    obtain p k where pk: "pk = (p, k)" by (cases pk)
    with Some have "placeholder_len (m_security m) = auth_param_len p" "length k = digest_len p"
      using assms(3) by (auto simp: placeholder_len_auth keys_fit_auth)
    with Some pk x signing_returns [OF assms(1,2)] show ?thesis by (auto simp: returns_and_try)
  qed
qed


section \<open>What was sent\<close>

lemma build_v3_Ok:
  assumes "build_v3_trap_message debug C cd m = Return (Ok out)"
  obtains sd pp a where "scoped_data_of C cd m (scoped_of cd m) = Return (Ok (sd, pp))"
    and "wire cd m sd pp a = Ok out"
    and "length a = placeholder_len (m_security m)"
    and "auth (m_security m) = None \<Longrightarrow> a = []"
    and "\<And>p k. auth (m_security m) = Some (p, k) \<Longrightarrow>
           \<exists>b0. wire cd m sd pp (replicate (auth_param_len p) 0) = Ok b0 \<and> auth_sign C b0 k p = Return a"
proof -
  let ?z = "replicate (placeholder_len (m_security m)) (0 :: u8)"
  from assms obtain sd pp b0 where
    sd: "scoped_data_of C cd m (scoped_of cd m) = Return (Ok (sd, pp))" and
    b0: "wire cd m sd pp ?z = Ok b0" and
    rest: "(case auth (m_security m) of
       None \<Rightarrow> Return (Ok b0)
     | Some (proto, key) \<Rightarrow>
         and_run (auth_sign C b0 key proto) (\<lambda>tag.
         if length tag \<noteq> placeholder_len (m_security m) then Panic
         else and_try (Return (map_err Encode (wire cd m sd pp tag))) (\<lambda>b1.
           if debug \<and> length b1 \<noteq> length b0 then Panic else Return (Ok b1)))) = Return (Ok out)"
    unfolding build_v3_wire by auto
  show ?thesis
  proof (cases "auth (m_security m)")
    case None
    then have "placeholder_len (m_security m) = 0"
      by (cases "m_security m") (simp_all add: placeholder_len_def)
    with None sd b0 rest show ?thesis by (intro that [of sd pp "[]"]) simp_all
  next
    case (Some pk)
    obtain p k where pk: "pk = (p, k)" by (cases pk)
    from rest Some pk obtain tag where
      "auth_sign C b0 k p = Return tag" "length tag = placeholder_len (m_security m)"
      "wire cd m sd pp tag = Ok out"
      by (auto split: if_splits)
    moreover have "placeholder_len (m_security m) = auth_param_len p"
      using Some pk by (simp add: placeholder_len_auth)
    ultimately show ?thesis using sd b0 Some pk by (intro that [of sd pp tag]) simp_all
  qed
qed

text \<open>
  The message a successful build encodes: its header, and its scoped PDU in clear or, when
  privacy is on, encrypted under the IV made of boots, time and the salt that is sent along.
\<close>

fun carries :: "'h crypto \<Rightarrow> codec \<Rightarrow> v3_trap_message \<Rightarrow> scoped_data \<Rightarrow> bytes \<Rightarrow> bool" where
  "carries C cd m (CleartextPdu sp) pp \<longleftrightarrow>
     sp = scoped_of cd m \<and> pp = [] \<and> flag_byte (m_security m) \<in> {0, 1}"
| "carries C cd m (EncryptedPdu ct) pp \<longleftrightarrow>
     (\<exists>a k p key salt plain. m_security m = SecAuthPriv a k p key salt
        \<and> encode_scoped cd (scoped_of cd m) = Ok plain
        \<and> cfb_decrypt C p (take (key_len p) key)
            (be_bytes 4 (m_engine_boots m) @ be_bytes 4 (m_engine_time m) @ pp) ct = Some plain
        \<and> of_be pp = unat salt \<and> length pp = 8 \<and> flag_byte (m_security m) = 3)"

lemma scoped_data_carries:
  assumes "cipher_law C" and "scoped_data_of C cd m (scoped_of cd m) = Return (Ok (sd, pp))"
  shows "carries C cd m sd pp"
proof (cases "m_security m")
  case (SecAuthPriv a k p key salt)
  with assms(2) obtain plain ct where
    e: "encode_scoped cd (scoped_of cd m) = Ok plain" and
    c: "priv_encrypt C plain key (m_engine_boots m) (m_engine_time m) salt p = Return ct" and
    r: "sd = EncryptedPdu ct" "pp = be_bytes 8 salt"
    by (auto simp: scoped_data_of_def encode_with_def)
  have "of_be (be_bytes 8 salt) = unat salt" by (rule of_be_be_bytes_exact) simp
  with SecAuthPriv e r priv_encrypt_decrypts [OF assms(1) c] show ?thesis
    by (simp add: make_aes_iv_def FLAG_AUTH_def FLAG_PRIV_def)
qed (use assms(2) in \<open>auto simp: scoped_data_of_def FLAG_AUTH_def\<close>)

lemma build_v3_message:
  assumes "cipher_law C" and "build_v3_trap_message debug C cd m = Return (Ok out)"
  shows "\<exists>sp a pp sd. encode_v3 cd \<lparr>v3_version = 3, global_data = v3_header m,
             security_parameters = sp, v3_scoped_data = sd\<rparr> = Ok out
     \<and> encode_usm cd (build_usm_params m a pp) = Ok sp \<and> carries C cd m sd pp"
proof (rule build_v3_Ok [OF assms(2)])
  fix sd pp a
  assume "scoped_data_of C cd m (scoped_of cd m) = Return (Ok (sd, pp))" "wire cd m sd pp a = Ok out"
  with scoped_data_carries [OF assms(1)] show ?thesis
    unfolding wire_def v3_message_def by fastforce
qed

lemma fresh_msg_id_range:
  "fair_draw rng \<Longrightarrow> 1 \<le> sint (fresh_msg_id rng) \<and> sint (fresh_msg_id rng) < 2 ^ 31"
  using fresh_request_id_range [of rng] by (simp add: fresh_msg_id_def fresh_request_id_def)

end
