(* ===== verification/Cli.thy ===== *)
theory Cli
  imports Usm
begin

text \<open>
  \<open>src/cli.rs\<close>: the command line, its validation after parsing, and the resolution of the
  destination. The argument parser generated by the crate \<open>clap\<close> and the resolver of host
  names are parameters.
\<close>

section \<open>Keywords\<close>

definition DEFAULT_TRAP_PORT :: u16 where "DEFAULT_TRAP_PORT = 162"

datatype snmp_version = V1 | V2c | V3

definition version_from_str :: "rstr \<Rightarrow> (snmp_version, error) result" where
  "version_from_str s =
     (if s = lit ''1'' then Ok V1
      else if s = lit ''2c'' then Ok V2c
      else if s = lit ''3'' then Ok V3
      else Err (Usage (lit ''unsupported SNMP version '' @ [39] @ s @ [39]
                       @ lit ''; supported: 1, 2c, 3'')))"

datatype security_level = NoAuthNoPriv | AuthNoPriv | AuthPriv

definition level_from_str :: "rstr \<Rightarrow> (security_level, error) result" where
  "level_from_str s =
     (let l = to_ascii_lowercase s in
      if l = lit ''noauthnopriv'' then Ok NoAuthNoPriv
      else if l = lit ''authnopriv'' then Ok AuthNoPriv
      else if l = lit ''authpriv'' then Ok AuthPriv
      else Err (Usage (lit ''unknown security level '' @ [39] @ s @ [39]
                       @ lit ''; supported: noAuthNoPriv, authNoPriv, authPriv'')))"

section \<open>The parsed command line\<close>

record cli =
  cli_version :: snmp_version
  cli_community :: rstr
  cli_retries :: u8
  cli_timeout :: u32
  cli_src_addr :: "rstr option"
  cli_src_port :: "u16 option"
  cli_debug_print_pdu :: bool
  cli_security_level :: "security_level option"
  cli_user_name :: "rstr option"
  cli_auth_protocol :: "auth_protocol option"
  cli_auth_password :: "rstr option"
  cli_priv_protocol :: "priv_protocol option"
  cli_priv_password :: "rstr option"
  cli_context_engine_id :: "rstr option"
  cli_authoritative_engine_id :: "rstr option"
  cli_context_name :: "rstr option"
  cli_agent :: rstr
  cli_trap_args :: "rstr list"

section \<open>Validation\<close>

definition require_some :: "'a option \<Rightarrow> rstr \<Rightarrow> rstr \<Rightarrow> (unit, error) result" where
  "require_some value flag level =
     (if value = None then Err (Usage (flag @ lit '' is required with -l '' @ level)) else Ok ())"

definition require_password :: "rstr option \<Rightarrow> rstr \<Rightarrow> rstr \<Rightarrow> (unit, error) result" where
  "require_password value flag level =
     (case value of
        None \<Rightarrow> Err (Usage (flag @ lit '' is required with -l '' @ level))
      | Some s \<Rightarrow>
          if s = [] then Err (Usage (flag @ lit '' must be a non-empty password''))
          else if str_len s < MIN_USM_PASSWORD_LEN
          then Err (Usage (flag @ lit '' must be at least '' @ dec MIN_USM_PASSWORD_LEN
                 @ lit '' characters (RFC 3414 '' @ [167] @ lit ''11.2); got '' @ dec (str_len s)))
          else Ok ())"

definition v3_flag_pairs :: "cli \<Rightarrow> (rstr \<times> bool) list" where
  "v3_flag_pairs c =
     [(lit ''-l/--security-level'', cli_security_level c \<noteq> None),
      (lit ''-u/--user'', cli_user_name c \<noteq> None),
      (lit ''-a/--auth-protocol'', cli_auth_protocol c \<noteq> None),
      (lit ''-A/--auth-password'', cli_auth_password c \<noteq> None),
      (lit ''-x/--priv-protocol'', cli_priv_protocol c \<noteq> None),
      (lit ''-X/--priv-password'', cli_priv_password c \<noteq> None),
      (lit ''-e/--context-engine-id'', cli_context_engine_id c \<noteq> None),
      (lit ''-E/--authoritative-engine-id'', cli_authoritative_engine_id c \<noteq> None),
      (lit ''-n/--context-name'', cli_context_name c \<noteq> None)]"

text \<open>The loop over the flags; \<open>unreachable!()\<close> is a panic.\<close>

definition validate_v3_flag_scope :: "cli \<Rightarrow> (unit, error) result outcome" where
  "validate_v3_flag_scope c =
     (if cli_version c = V3 then Return (Ok ())
      else and_run (case cli_version c of
               V1 \<Rightarrow> Return (lit ''-v 1'') | V2c \<Rightarrow> Return (lit ''-v 2c'') | V3 \<Rightarrow> Panic) (\<lambda>v_label.
             Return (case find snd (v3_flag_pairs c) of
                 Some (flag, _) \<Rightarrow>
                   Err (Usage (flag @ lit '' is an SNMPv3 flag and is not valid with '' @ v_label))
               | None \<Rightarrow> Ok ())))"

definition validate_v3_required :: "cli \<Rightarrow> (unit, error) result outcome" where
  "validate_v3_required c =
     and_run (expect (cli_security_level c)) (\<lambda>level.
       if cli_user_name c = None \<or> cli_user_name c = Some []
       then Return (Err (Usage (lit ''-u <USER> is required with -v 3 (USM identifies the sender by user name)'')))
       else Return (case level of
           NoAuthNoPriv \<Rightarrow> Ok ()
         | AuthNoPriv \<Rightarrow>
             andthen (require_some (cli_auth_protocol c) (lit ''-a'') (lit ''authNoPriv'')) (\<lambda>_.
             require_password (cli_auth_password c) (lit ''-A'') (lit ''authNoPriv''))
         | AuthPriv \<Rightarrow>
             andthen (require_some (cli_auth_protocol c) (lit ''-a'') (lit ''authPriv'')) (\<lambda>_.
             andthen (require_password (cli_auth_password c) (lit ''-A'') (lit ''authPriv'')) (\<lambda>_.
             andthen (require_some (cli_priv_protocol c) (lit ''-x'') (lit ''authPriv'')) (\<lambda>_.
             require_password (cli_priv_password c) (lit ''-X'') (lit ''authPriv''))))))"

definition check_src_addr :: "cli \<Rightarrow> (unit, error) result" where
  "check_src_addr c =
     (case cli_src_addr c of
        None \<Rightarrow> Ok ()
      | Some s \<Rightarrow>
          (case parse_ip s of
             Some (V4 _) \<Rightarrow> Ok ()
           | Some V6 \<Rightarrow> Err (Usage (lit ''--src-addr accepts IPv4 only; IPv6 source spoofing is not supported''))
           | None \<Rightarrow> Err (Usage (lit ''--src-addr must be a valid IPv4 literal, got '' @ [39] @ s @ [39]))))"

definition validate :: "cli \<Rightarrow> (cli, error) result outcome" where
  "validate c =
     (if cli_version c \<noteq> V3 \<and> cli_community c = []
      then Return (Err (Usage (lit ''community string (-c) must be non-empty for SNMPv1 and SNMPv2c'')))
      else if cli_timeout c = 0
      then Return (Err (Usage (lit ''--timeout must be > 0 (in seconds)'')))
      else if cli_src_port c = Some 0
      then Return (Err (Usage (lit ''--src-port 0 is not allowed; on UDP it means '' @ [39]
             @ lit ''kernel-selected ephemeral'' @ [39]
             @ lit ''. Omit the flag to get an ephemeral port.'')))
      else and_try (Return (check_src_addr c)) (\<lambda>_.
           and_try (validate_v3_flag_scope c) (\<lambda>_.
           if cli_version c = V3
           then
             let c' = (if cli_security_level c = None
                       then c\<lparr>cli_security_level := Some NoAuthNoPriv\<rparr> else c)
             in and_try (validate_v3_required c') (\<lambda>_. Return (Ok c'))
           else Return (Ok c))))"

section \<open>Parsing the arguments\<close>

text \<open>
  \<open>try_parse\<close> of the generated parser gives the record or an error with a kind and a text;
  help and version requests are printed and end the process.
\<close>

datatype clap_kind = DisplayHelp | DisplayVersion | OtherKind

datatype argv_result = Parsed "(cli, error) result outcome" | Exit u8

definition parse_argv :: "(cli, clap_kind \<times> rstr) result \<Rightarrow> argv_result" where
  "parse_argv try_parse =
     (case try_parse of
        Ok c \<Rightarrow> Parsed (validate c)
      | Err (kind, text) \<Rightarrow>
          if kind = DisplayHelp \<or> kind = DisplayVersion then Exit 0
          else Parsed (Return (Err (Usage text))))"

definition parse_from_iter :: "(cli, clap_kind \<times> rstr) result \<Rightarrow> (cli, error) result outcome" where
  "parse_from_iter try_parse =
     (case try_parse of Ok c \<Rightarrow> validate c | Err (kind, text) \<Rightarrow> Return (Err (Usage text)))"

section \<open>Addresses\<close>

definition src_addr_v4 :: "cli \<Rightarrow> ipv4 option" where
  "src_addr_v4 c = Option.bind (cli_src_addr c) parse_ipv4"

text \<open>
  \<open>(host, port).to_socket_addrs()\<close>: an address literal is used as it is, any other host
  goes to the resolver.
\<close>

type_synonym resolver = "rstr \<Rightarrow> u16 \<Rightarrow> (sock list, io_error) result"

definition to_socket_addrs :: "resolver \<Rightarrow> rstr \<Rightarrow> u16 \<Rightarrow> (sock list, io_error) result" where
  "to_socket_addrs dns host port =
     (case parse_ipv4 host of
        Some ip \<Rightarrow> Ok [SockV4 \<lparr>sa_ip = ip, sa_port = port\<rparr>]
      | None \<Rightarrow> if read_ipv6 host = Some [] then Ok [SockV6] else dns host port)"

fun first_v4 :: "sock list \<Rightarrow> socket_addr option" where
  "first_v4 [] = None"
| "first_v4 (SockV4 sa # _) = Some sa"
| "first_v4 (SockV6 # rest) = first_v4 rest"

definition split_host_port :: "rstr \<Rightarrow> rstr \<Rightarrow> (rstr \<times> u16, error) result" where
  "split_host_port agent stripped =
     (case rsplit_once 58 stripped of
        Some (h, p) \<Rightarrow>
          if h \<noteq> [] \<and> 58 \<notin> set h
          then andthen (map_err (\<lambda>_. Usage (lit ''invalid port in AGENT: '' @ agent)) (parse_u16 p))
                 (\<lambda>port. Ok (h, port))
          else Ok (stripped, DEFAULT_TRAP_PORT)
      | None \<Rightarrow> Ok (stripped, DEFAULT_TRAP_PORT))"

definition resolve_agent_string :: "resolver \<Rightarrow> rstr \<Rightarrow> (socket_addr, error) result" where
  "resolve_agent_string dns agent =
     (let stripped = (case strip_prefix (lit ''udp:'') agent of Some t \<Rightarrow> t | None \<Rightarrow> agent) in
      if starts_with (lit ''['') stripped \<or> 2 \<le> length (filter (\<lambda>c. c = 58) stripped)
      then Err (Usage (lit ''AGENT '' @ [39] @ agent @ [39]
                       @ lit '' looks like IPv6; only IPv4 destinations are supported''))
      else andthen (split_host_port agent stripped) (\<lambda>(host, port).
           andthen (map_err (\<lambda>e. Usage (lit ''could not resolve AGENT '' @ [39] @ agent @ [39]
                                        @ lit '': '' @ io_text e))
                      (to_socket_addrs dns host port)) (\<lambda>addrs.
             case first_v4 addrs of
               Some sa \<Rightarrow> Ok sa
             | None \<Rightarrow> Err (Usage (lit ''AGENT '' @ [39] @ agent @ [39]
                                   @ lit '' did not resolve to any IPv4 address'')))))"

definition resolve_agent :: "resolver \<Rightarrow> cli \<Rightarrow> (socket_addr, error) result" where
  "resolve_agent dns c = resolve_agent_string dns (cli_agent c)"


section \<open>Keywords: the contract\<close>

fun show_version :: "snmp_version \<Rightarrow> rstr" where
  "show_version V1 = lit ''1''"
| "show_version V2c = lit ''2c''"
| "show_version V3 = lit ''3''"

fun show_level :: "security_level \<Rightarrow> rstr" where
  "show_level NoAuthNoPriv = lit ''noAuthNoPriv''"
| "show_level AuthNoPriv = lit ''authNoPriv''"
| "show_level AuthPriv = lit ''authPriv''"

lemma lower_show_level [simp]:
  "to_ascii_lowercase (show_level l) = (case l of NoAuthNoPriv \<Rightarrow> lit ''noauthnopriv''
     | AuthNoPriv \<Rightarrow> lit ''authnopriv'' | AuthPriv \<Rightarrow> lit ''authpriv'')"
  by (cases l) (simp_all add: to_ascii_lowercase_def lit_def lower_char_def)

interpretation level_kw: keyword_parser to_ascii_lowercase level_from_str show_level
proof
  show "to_option (level_from_str s) = to_option (level_from_str (to_ascii_lowercase s))" for s
    by (simp add: level_from_str_def Let_def)
  show "level_from_str s = Err e \<Longrightarrow> \<exists>m. e = Usage m" for s e
    by (auto simp: level_from_str_def Let_def split: if_splits)
  show "level_from_str (show_level v) = Ok v" for v
    by (simp add: level_from_str_def Let_def) (cases v; simp)
qed

text \<open>Versions are matched exactly.\<close>

interpretation version_kw: keyword_parser "\<lambda>s. s" version_from_str show_version
proof
  show "to_option (version_from_str s) = to_option (version_from_str s)" for s by simp
  show "version_from_str s = Err e \<Longrightarrow> \<exists>m. e = Usage m" for s e
    by (auto simp: version_from_str_def split: if_splits)
  show "version_from_str (show_version v) = Ok v" for v
    by (cases v) (simp_all add: version_from_str_def)
qed

text \<open>The security levels in the order of RFC 3411.\<close>

instantiation security_level :: linorder
begin

fun level_rank :: "security_level \<Rightarrow> nat" where
  "level_rank NoAuthNoPriv = 0"
| "level_rank AuthNoPriv = 1"
| "level_rank AuthPriv = 2"

definition less_eq_security_level :: "security_level \<Rightarrow> security_level \<Rightarrow> bool" where
  "less_eq_security_level a b \<longleftrightarrow> level_rank a \<le> level_rank b"

definition less_security_level :: "security_level \<Rightarrow> security_level \<Rightarrow> bool" where
  "less_security_level a b \<longleftrightarrow> level_rank a < level_rank b"

instance
proof
  fix x y z :: security_level
  show "x < y \<longleftrightarrow> x \<le> y \<and> \<not> y \<le> x" "x \<le> x" "x \<le> y \<or> y \<le> x"
    by (auto simp: less_eq_security_level_def less_security_level_def)
  show "x \<le> y \<Longrightarrow> y \<le> z \<Longrightarrow> x \<le> z" by (simp add: less_eq_security_level_def)
  show "x \<le> y \<Longrightarrow> y \<le> x \<Longrightarrow> x = y"
    by (cases x; cases y) (simp_all add: less_eq_security_level_def)
qed

end

lemma level_le_simps [simp]:
  "AuthNoPriv \<le> l \<longleftrightarrow> l \<noteq> NoAuthNoPriv" "AuthPriv \<le> l \<longleftrightarrow> l = AuthPriv"
  by (cases l; simp add: less_eq_security_level_def)+

section \<open>What validation accepts\<close>

text \<open>The level in force: the one given, or noAuthNoPriv.\<close>

definition effective_level :: "cli \<Rightarrow> security_level" where
  "effective_level c = (case cli_security_level c of Some l \<Rightarrow> l | None \<Rightarrow> NoAuthNoPriv)"

definition good_password :: "rstr option \<Rightarrow> bool" where
  "good_password p \<longleftrightarrow> (\<exists>s. p = Some s \<and> 8 \<le> str_len s)"

definition no_v3_flags :: "cli \<Rightarrow> bool" where
  "no_v3_flags c \<longleftrightarrow>
     cli_security_level c = None \<and> cli_user_name c = None \<and> cli_auth_protocol c = None
     \<and> cli_auth_password c = None \<and> cli_priv_protocol c = None \<and> cli_priv_password c = None
     \<and> cli_context_engine_id c = None \<and> cli_authoritative_engine_id c = None
     \<and> cli_context_name c = None"

definition v3_credentials :: "cli \<Rightarrow> bool" where
  "v3_credentials c \<longleftrightarrow>
     (\<exists>u. cli_user_name c = Some u \<and> u \<noteq> [])
     \<and> (AuthNoPriv \<le> effective_level c \<longrightarrow>
          cli_auth_protocol c \<noteq> None \<and> good_password (cli_auth_password c))
     \<and> (AuthPriv \<le> effective_level c \<longrightarrow>
          cli_priv_protocol c \<noteq> None \<and> good_password (cli_priv_password c))"

text \<open>The command lines the program goes on with.\<close>

definition acceptable :: "cli \<Rightarrow> bool" where
  "acceptable c \<longleftrightarrow>
     cli_timeout c \<noteq> 0 \<and> cli_src_port c \<noteq> Some 0
     \<and> (cli_src_addr c \<noteq> None \<longrightarrow> src_addr_v4 c \<noteq> None)
     \<and> (if cli_version c = V3 then v3_credentials c else cli_community c \<noteq> [] \<and> no_v3_flags c)"

definition with_default_level :: "cli \<Rightarrow> cli" where
  "with_default_level c =
     (if cli_version c = V3 then c\<lparr>cli_security_level := Some (effective_level c)\<rparr> else c)"

lemma require_some_Ok [simp]: "require_some v f l = Ok u \<longleftrightarrow> v \<noteq> None"
  by (simp add: require_some_def)

lemma require_password_Ok [simp]: "require_password v f l = Ok u \<longleftrightarrow> good_password v"
  by (auto simp: require_password_def good_password_def MIN_USM_PASSWORD_LEN_def split: option.splits)

lemma check_src_addr_Ok: "check_src_addr c = Ok u \<longleftrightarrow> (cli_src_addr c \<noteq> None \<longrightarrow> src_addr_v4 c \<noteq> None)"
proof (cases "cli_src_addr c")
  case (Some s)
  have "(\<exists>a. parse_ip s = Some (V4 a)) \<longleftrightarrow> parse_ipv4 s \<noteq> None"
    by (simp add: parse_ip_V4_iff)
  with Some show ?thesis
    by (auto simp: check_src_addr_def src_addr_v4_def split: option.splits ip_addr.splits)
qed (simp add: check_src_addr_def)

lemma flag_scope_Ok:
  "validate_v3_flag_scope c = Return (Ok u) \<longleftrightarrow> cli_version c = V3 \<or> no_v3_flags c"
proof -
  have f: "find snd (v3_flag_pairs c) = None \<longleftrightarrow> no_v3_flags c"
    by (simp add: v3_flag_pairs_def no_v3_flags_def)
  show ?thesis
  proof (cases "find snd (v3_flag_pairs c)")
    case None
    with f show ?thesis by (cases "cli_version c") (simp_all add: validate_v3_flag_scope_def)
  next
    case (Some x)
    with f have "\<not> no_v3_flags c" by simp
    with Some show ?thesis
      by (cases "cli_version c") (simp_all add: validate_v3_flag_scope_def split_beta)
  qed
qed

lemma flag_scope_returns [returning]: "returns (validate_v3_flag_scope c)"
  by (cases "cli_version c") (simp_all add: validate_v3_flag_scope_def)

lemma v3_required_Ok:
  "cli_security_level c \<noteq> None \<Longrightarrow> validate_v3_required c = Return (Ok u) \<longleftrightarrow> v3_credentials c"
  by (cases "the (cli_security_level c)")
     (auto simp: validate_v3_required_def v3_credentials_def effective_level_def)

lemma v3_required_returns [returning]:
  "cli_security_level c \<noteq> None \<Longrightarrow> returns (validate_v3_required c)"
  by (auto simp: validate_v3_required_def)

lemma v3_credentials_default:
  "v3_credentials (c\<lparr>cli_security_level := Some (effective_level c)\<rparr>) \<longleftrightarrow> v3_credentials c"
  by (simp add: v3_credentials_def effective_level_def)

lemma default_level_eq:
  "(if cli_security_level c = None then c\<lparr>cli_security_level := Some NoAuthNoPriv\<rparr> else c)
     = c\<lparr>cli_security_level := Some (effective_level c)\<rparr>"
  by (cases "cli_security_level c") (simp_all add: effective_level_def)

lemma validate_result:
  "validate c = Return (Ok c') \<longleftrightarrow> acceptable c \<and> c' = with_default_level c"
proof (cases "cli_version c = V3")
  case True
  have "validate_v3_required (c\<lparr>cli_security_level := Some (effective_level c)\<rparr>) = Return (Ok ())
      \<longleftrightarrow> v3_credentials c"
    using v3_required_Ok [of "c\<lparr>cli_security_level := Some (effective_level c)\<rparr>"]
    by (simp add: v3_credentials_default)
  with True show ?thesis
    unfolding validate_def default_level_eq
    by (auto simp: check_src_addr_Ok flag_scope_Ok acceptable_def with_default_level_def Let_def)
next
  case False
  then show ?thesis
    by (auto simp: validate_def check_src_addr_Ok flag_scope_Ok acceptable_def
        with_default_level_def)
qed

lemma validate_returns_always [returning]: "returns (validate c)"
  by (auto simp: validate_def Let_def intro!: returning)

lemma find_label: "find P xs = Some x \<Longrightarrow> x \<in> set xs"
  by (auto simp: find_Some_iff)

lemma validate_Err_usage: "validate c = Return (Err e) \<Longrightarrow> \<exists>m. e = Usage m"
  by (auto simp: validate_def Let_def and_try_eq_Err check_src_addr_def validate_v3_flag_scope_def
      validate_v3_required_def require_some_def require_password_def andthen_eq_Err
      split: if_splits option.splits ip_addr.splits security_level.splits snmp_version.splits)

lemma effective_level_default [simp]: "effective_level (with_default_level c) = effective_level c"
  by (simp add: with_default_level_def effective_level_def)

lemma with_default_level_idem: "with_default_level (with_default_level c) = with_default_level c"
  by (simp add: with_default_level_def effective_level_def)

lemma acceptable_default: "acceptable (with_default_level c) \<longleftrightarrow> acceptable c"
  by (auto simp: acceptable_def with_default_level_def v3_credentials_def effective_level_def
      src_addr_v4_def)


section \<open>Destinations\<close>

lemma show_ipv4_chars: "c \<in> set (show_ipv4 a) \<Longrightarrow> c = 46 \<or> (48 \<le> c \<and> c \<le> 57)"
  by (cases a) (auto dest: dec_digits)

lemma show_ipv4_no_colon [simp]: "58 \<notin> set (show_ipv4 a)"
  using show_ipv4_chars [of 58 a] by auto

lemma dec_no_colon [simp]: "58 \<notin> set (dec n)"
  using dec_digits [of 58 n] by auto

lemma show_ipv4_hd: "48 \<le> hd (show_ipv4 a) \<and> hd (show_ipv4 a) \<le> 57"
proof (cases a)
  case (Ipv4 w x y z)
  have "hd (show_ipv4 a) = hd (dec (unat w))" by (simp add: Ipv4)
  with dec_hd [of "unat w"] show ?thesis by simp
qed

lemma colon_count: "length (filter (\<lambda>c. c = 58) s) = (if 58 \<in> set s then length (filter (\<lambda>c. c = 58) s) else 0)"
  by (auto simp: filter_empty_conv)

text \<open>An optional transport prefix.\<close>

lemma udp_prefix:
  "s \<noteq> [] \<Longrightarrow> hd s \<noteq> 117 \<Longrightarrow> strip_prefix (lit ''udp:'') s = None"
  by (cases s) (simp_all add: strip_prefix_def lit_def)

lemma to_option_andthen: "to_option (andthen r f) = Option.bind (to_option r) (\<lambda>x. to_option (f x))"
  by (cases r) simp_all

lemma to_option_map_err: "to_option (map_err g r) = to_option r"
  by (cases r) simp_all

lemma split_host_port_agent: "to_option (split_host_port agent s) = to_option (split_host_port [] s)"
  by (cases "rsplit_once 58 s")
    (auto simp: split_host_port_def to_option_andthen to_option_map_err)

text \<open>The destination, without the messages.\<close>

definition destination :: "resolver \<Rightarrow> rstr \<Rightarrow> socket_addr option" where
  "destination dns s =
     (if starts_with (lit ''['') s \<or> 2 \<le> length (filter (\<lambda>c. c = 58) s) then None
      else Option.bind (to_option (split_host_port [] s)) (\<lambda>(host, port).
           Option.bind (to_option (to_socket_addrs dns host port)) first_v4))"

lemma to_option_resolve:
  "to_option (resolve_agent_string dns agent)
     = destination dns (case strip_prefix (lit ''udp:'') agent of Some t \<Rightarrow> t | None \<Rightarrow> agent)"
proof -
  have v: "to_option (case first_v4 addrs of Some sa \<Rightarrow> Ok sa | None \<Rightarrow> Err e) = first_v4 addrs"
    for addrs and e :: error
    by (cases "first_v4 addrs") simp_all
  show ?thesis
    unfolding resolve_agent_string_def destination_def Let_def
    by (simp add: to_option_andthen to_option_map_err case_prod_unfold v split_host_port_agent [of agent])
qed

lemma resolve_udp:
  "s \<noteq> [] \<Longrightarrow> hd s \<noteq> 117 \<Longrightarrow>
   to_option (resolve_agent_string dns (lit ''udp:'' @ s)) = to_option (resolve_agent_string dns s)"
  by (simp add: to_option_resolve udp_prefix)

lemma resolve_literal:
  "resolve_agent_string dns (show_ipv4 a) = Ok \<lparr>sa_ip = a, sa_port = 162\<rparr>"
  "resolve_agent_string dns (show_socket_addr sa) = Ok sa"
proof -
  have hd: "show_ipv4 a \<noteq> [] \<and> hd (show_ipv4 a) \<noteq> 117 \<and> hd (show_ipv4 a) \<noteq> 91" for a
    using show_ipv4_hd [of a] by auto
  have b: "\<not> starts_with (lit ''['') s" if "s \<noteq> []" "hd s \<noteq> 91" for s
    using that by (cases s) (simp_all add: starts_with_def lit_def)
  show "resolve_agent_string dns (show_ipv4 a) = Ok \<lparr>sa_ip = a, sa_port = 162\<rparr>"
    using hd [of a] b [of "show_ipv4 a"] udp_prefix [of "show_ipv4 a"]
    by (simp add: resolve_agent_string_def Let_def split_host_port_def to_socket_addrs_def
        DEFAULT_TRAP_PORT_def colon_count)
  let ?s = "show_socket_addr sa"
  have s: "?s = show_ipv4 (sa_ip sa) @ 58 # dec (unat (sa_port sa))"
    by (simp add: show_socket_addr_def)
  then have "?s \<noteq> []" "hd ?s = hd (show_ipv4 (sa_ip sa))" using hd by auto
  moreover have "length (filter (\<lambda>c. c = 58) ?s) = 1"
    using colon_count [of "show_ipv4 (sa_ip sa)"] colon_count [of "dec (unat (sa_port sa))"]
    by (simp add: s)
  moreover have "rsplit_once 58 ?s = Some (show_ipv4 (sa_ip sa), dec (unat (sa_port sa)))"
    unfolding s by (rule rsplit_once_append) simp
  ultimately show "resolve_agent_string dns ?s = Ok sa"
    using hd [of "sa_ip sa"] b [of ?s] udp_prefix [of ?s]
    by (simp add: resolve_agent_string_def Let_def split_host_port_def to_socket_addrs_def)
qed

lemma resolve_ipv6_refused:
  assumes "starts_with (lit ''['') agent \<or> 2 \<le> length (filter (\<lambda>c. c = 58) agent)"
    and "strip_prefix (lit ''udp:'') agent = None"
  shows "\<exists>m. resolve_agent_string dns agent = Err (Usage m)"
  using assms by (simp add: resolve_agent_string_def Let_def)

lemma resolve_Err_usage: "resolve_agent_string dns agent = Err e \<Longrightarrow> \<exists>m. e = Usage m"
  by (auto simp: resolve_agent_string_def Let_def andthen_eq_Err split_host_port_def
      split: if_splits option.splits prod.splits)

text \<open>A resolved destination comes from the first IPv4 answer of the resolver.\<close>

lemma first_v4_set: "first_v4 ss = Some sa \<Longrightarrow> SockV4 sa \<in> set ss"
  by (induction ss rule: first_v4.induct) auto

lemma first_v4_None: "first_v4 ss = None \<longleftrightarrow> (\<forall>sa. SockV4 sa \<notin> set ss)"
  by (induction ss rule: first_v4.induct) auto

text \<open>
  What an AGENT text names, without the functions of the code: after an optional \<open>udp:\<close>, a host
  alone, with the trap port, or a host, a colon and a port. A text with an empty host before its
  only colon is itself the host. Brackets and two colons are the marks of IPv6.
\<close>

definition body_names :: "rstr \<Rightarrow> rstr \<Rightarrow> u16 \<Rightarrow> bool" where
  "body_names body host port \<longleftrightarrow>
     58 \<notin> set body \<and> host = body \<and> port = 162
     \<or> (\<exists>p. body = 58 # p \<and> 58 \<notin> set p \<and> host = body \<and> port = 162)
     \<or> (\<exists>p. body = host @ 58 # p \<and> host \<noteq> [] \<and> 58 \<notin> set host \<and> 58 \<notin> set p
          \<and> parse_u16 p = Ok port)"

definition agent_names :: "rstr \<Rightarrow> rstr \<Rightarrow> u16 \<Rightarrow> bool" where
  "agent_names agent host port \<longleftrightarrow>
     (\<exists>body. (agent = lit ''udp:'' @ body \<or> agent = body \<and> \<not> starts_with (lit ''udp:'') agent)
        \<and> \<not> starts_with (lit ''['') body \<and> body_names body host port)"

text \<open>
  The address of a host: an IPv4 literal is its own address; for a name it is the first IPv4
  answer of the resolver to this name and port.
\<close>

definition host_address :: "resolver \<Rightarrow> rstr \<Rightarrow> u16 \<Rightarrow> socket_addr \<Rightarrow> bool" where
  "host_address dns host port d \<longleftrightarrow>
     (case parse_ipv4 host of
        Some ip \<Rightarrow> d = \<lparr>sa_ip = ip, sa_port = port\<rparr>
      | None \<Rightarrow> read_ipv6 host \<noteq> Some []
          \<and> (\<exists>v6 rest. dns host port = Ok (v6 @ SockV4 d # rest) \<and> set v6 \<subseteq> {SockV6}))"

lemma first_v4_split:
  "first_v4 ss = Some d \<longleftrightarrow> (\<exists>v6 rest. ss = v6 @ SockV4 d # rest \<and> set v6 \<subseteq> {SockV6})"
proof
  show "first_v4 ss = Some d \<Longrightarrow> \<exists>v6 rest. ss = v6 @ SockV4 d # rest \<and> set v6 \<subseteq> {SockV6}"
  proof (induction ss rule: first_v4.induct)
    case (3 ss)
    then obtain v6 rest where "ss = v6 @ SockV4 d # rest" "set v6 \<subseteq> {SockV6}" by auto
    then show ?case by (intro exI [of _ "SockV6 # v6"] exI [of _ rest]) simp
  qed force+
  have "set v6 \<subseteq> {SockV6} \<Longrightarrow> first_v4 (v6 @ SockV4 d # rest) = Some d" for v6 rest
    by (induction v6) auto
  then show "\<exists>v6 rest. ss = v6 @ SockV4 d # rest \<and> set v6 \<subseteq> {SockV6} \<Longrightarrow> first_v4 ss = Some d"
    by blast
qed

lemma to_socket_addrs_v4:
  "Option.bind (to_option (to_socket_addrs dns host port)) first_v4 = Some d
     \<longleftrightarrow> host_address dns host port d"
  by (cases "dns host port")
    (auto simp: to_socket_addrs_def host_address_def first_v4_split Cons_eq_append_conv
      split: option.splits)

lemma two_colons:
  "2 \<le> length (filter (\<lambda>c. c = 58) s) \<longleftrightarrow> (\<exists>a b c. s = a @ 58 # b @ 58 # c)"
proof
  assume "2 \<le> length (filter (\<lambda>c. c = 58) s)"
  then have "58 \<in> set s" using colon_count [of s] by (auto split: if_splits)
  then obtain a t where s: "s = a @ 58 # t" "58 \<notin> set a" by (meson split_list_first)
  with \<open>2 \<le> length _\<close> have "58 \<in> set t" using colon_count [of t] colon_count [of a]
    by (auto split: if_splits)
  with s show "\<exists>a b c. s = a @ 58 # b @ 58 # c" by (metis split_list)
qed auto

text \<open>A text without the marks of IPv6 has at most one colon, and this is how it is split.\<close>

lemma split_host_port_cases:
  "58 \<notin> set s \<Longrightarrow> split_host_port [] s = Ok (s, 162)"
  "58 \<notin> set p \<Longrightarrow> split_host_port [] (58 # p) = Ok (58 # p, 162)"
  "58 \<notin> set p \<Longrightarrow> 58 \<notin> set h \<Longrightarrow> h \<noteq> [] \<Longrightarrow>
     to_option (split_host_port [] (h @ 58 # p)) = map_option (Pair h) (to_option (parse_u16 p))"
  using rsplit_once_append [of 58 p "[]"]
  by (simp_all add: split_host_port_def DEFAULT_TRAP_PORT_def rsplit_once_append)
    (cases "parse_u16 p"; simp)

lemma colon_unique:
  "58 \<notin> set h \<Longrightarrow> 58 \<notin> set h' \<Longrightarrow> h @ 58 # p = h' @ 58 # p' \<longleftrightarrow> h = h' \<and> p = p'" for h :: rstr
proof (induction h arbitrary: h')
  case Nil
  then show ?case by (cases h') auto
next
  case (Cons c h)
  then show ?case by (cases h') auto
qed

lemma body_names_cases:
  assumes "58 \<notin> set p"
  shows "58 \<notin> set s \<Longrightarrow> body_names s host port \<longleftrightarrow> host = s \<and> port = 162"
    and "body_names (58 # p) host port \<longleftrightarrow> host = 58 # p \<and> port = 162"
    and "58 \<notin> set h \<Longrightarrow> h \<noteq> [] \<Longrightarrow>
      body_names (h @ 58 # p) host port \<longleftrightarrow> host = h \<and> parse_u16 p = Ok port"
proof -
  show "58 \<notin> set s \<Longrightarrow> body_names s host port \<longleftrightarrow> host = s \<and> port = 162"
    by (auto simp: body_names_def)
  have "58 # p \<noteq> host @ 58 # q" if "host \<noteq> []" "58 \<notin> set host" for q
    using colon_unique [of "[]" host p q] that by simp
  then show "body_names (58 # p) host port \<longleftrightarrow> host = 58 # p \<and> port = 162"
    using assms by (simp add: body_names_def) blast
  assume h: "58 \<notin> set h" "h \<noteq> []"
  then have "h @ 58 # p \<noteq> 58 # q" for q
    using colon_unique [of h "[]" p q] by simp
  moreover have "h @ 58 # p = host @ 58 # q \<longleftrightarrow> h = host \<and> p = q" if "58 \<notin> set host" for q
    using colon_unique [of h host p q] h that by simp
  ultimately show "body_names (h @ 58 # p) host port \<longleftrightarrow> host = h \<and> parse_u16 p = Ok port"
    using assms h unfolding body_names_def by (metis Un_iff list.set_intros(1) set_append)
qed

lemma one_colon_cases:
  assumes "\<nexists>a b c. body = a @ 58 # b @ 58 # c"
  obtains (none) "58 \<notin> set body" | (first) p where "body = 58 # p" "58 \<notin> set p"
    | (inner) h p where "body = h @ 58 # p" "58 \<notin> set h" "h \<noteq> []" "58 \<notin> set p"
proof (cases "58 \<in> set body")
  case True
  then obtain h p where b: "body = h @ 58 # p" "58 \<notin> set h" by (meson split_list_first)
  with assms have "58 \<notin> set p" by (metis split_list)
  with b first inner show ?thesis by (cases "h = []") simp_all
qed (rule none)

lemma body_names_split:
  assumes "\<nexists>a b c. body = a @ 58 # b @ 58 # c"
  shows "body_names body host port \<longleftrightarrow> to_option (split_host_port [] body) = Some (host, port)"
  using assms
proof (cases rule: one_colon_cases)
  case none
  then show ?thesis using body_names_cases(1) [of "[]" body] by (auto simp: split_host_port_cases)
next
  case (first p)
  then show ?thesis by (auto simp: body_names_cases split_host_port_cases)
next
  case (inner h p)
  then show ?thesis by (cases "parse_u16 p") (auto simp: body_names_cases split_host_port_cases)
qed

lemma no_colon: "58 \<notin> set s \<Longrightarrow> filter (\<lambda>c. c = 58) s = []"
  by (auto simp: filter_empty_conv)

lemma body_names_one_colon: "body_names body host port \<Longrightarrow> \<nexists>a b c. body = a @ 58 # b @ 58 # c"
  unfolding two_colons [symmetric] body_names_def by (auto simp: no_colon)

lemma destination_names:
  "destination dns body = Some d \<longleftrightarrow>
     \<not> starts_with (lit ''['') body \<and> (\<exists>host port. body_names body host port \<and> host_address dns host port d)"
proof (cases "\<exists>a b c. body = a @ 58 # b @ 58 # c")
  case True
  then have "\<not> body_names body host port" for host port using body_names_one_colon by blast
  with True two_colons [of body] show ?thesis by (simp add: destination_def)
next
  case False
  with two_colons [of body] show ?thesis
    by (auto simp: destination_def bind_eq_Some_conv to_socket_addrs_v4 [symmetric] body_names_split)
qed

lemma agent_body:
  "(case strip_prefix (lit ''udp:'') agent of Some t \<Rightarrow> t | None \<Rightarrow> agent) = body
     \<longleftrightarrow> agent = lit ''udp:'' @ body \<or> agent = body \<and> \<not> starts_with (lit ''udp:'') agent"
  by (cases "strip_prefix (lit ''udp:'') agent")
    (auto simp: strip_prefix_Some_iff starts_with_iff strip_prefix_append)

lemma resolve_names:
  "resolve_agent_string dns agent = Ok d
     \<longleftrightarrow> (\<exists>host port. agent_names agent host port \<and> host_address dns host port d)"
proof -
  have "resolve_agent_string dns agent = Ok d \<longleftrightarrow> to_option (resolve_agent_string dns agent) = Some d"
    by (cases "resolve_agent_string dns agent") simp_all
  then show ?thesis
    unfolding to_option_resolve destination_names agent_names_def agent_body [symmetric] by auto
qed

lemma agent_names_unique:
  assumes "agent_names agent host port" and "agent_names agent host' port'"
  shows "host = host' \<and> port = port'"
proof -
  obtain body where b: "body_names body host port" "body_names body host' port'"
    using assms unfolding agent_names_def agent_body [symmetric] by blast
  then show ?thesis using body_names_split [OF body_names_one_colon [OF b(1)]] by simp
qed

section \<open>Properties\<close>

text \<open>
  C5: Validation accepts exactly the acceptable command lines, a positive timeout, a source
  port that is not zero, an IPv4 source address, and either a community and no SNMPv3 flag or a
  user with the protocols and passwords of 8 octets its level needs; it changes nothing but the
  level that was left out, reports everything else as a usage error, and never panics.
\<close>

lemma validate_exact:
  "if acceptable c then validate c = Return (Ok (with_default_level c))
   else \<exists>m. validate c = Return (Err (Usage m))"
proof -
  obtain r where "validate c = Return r" using validate_returns_always [of c] by (auto simp: returns_def)
  then show ?thesis
    using validate_result [of c] validate_Err_usage [of c] by (cases r) auto
qed

text \<open>
  C33: What validation lets through is a fixed point of it: it is acceptable, validating it
  again changes nothing, an SNMPv3 command line has a level, and SNMPv1 or SNMPv2c ones carry
  no SNMPv3 setting at all.
\<close>

lemma validate_invariant:
  assumes "validate c = Return (Ok c')"
  shows "acceptable c' \<and> validate c' = Return (Ok c')
    \<and> (cli_security_level c' = None) = (cli_version c' \<noteq> V3)
    \<and> (cli_version c' \<noteq> V3 \<longrightarrow> no_v3_flags c' \<and> c' = c)"
proof -
  from assms have a: "acceptable c" and c': "c' = with_default_level c"
    by (simp_all add: validate_result)
  then have "acceptable c' \<and> validate c' = Return (Ok c')"
    by (simp add: validate_result acceptable_default with_default_level_idem)
  moreover have "(cli_security_level c' = None) = (cli_version c' \<noteq> V3)"
    "cli_version c' \<noteq> V3 \<longrightarrow> no_v3_flags c' \<and> c' = c"
    using a by (cases "cli_version c"; simp add: c' with_default_level_def acceptable_def no_v3_flags_def)+
  ultimately show ?thesis by blast
qed

definition sample_cli :: cli where
  "sample_cli = \<lparr>cli_version = V3, cli_community = [], cli_retries = 0, cli_timeout = 1,
     cli_src_addr = None, cli_src_port = None, cli_debug_print_pdu = False,
     cli_security_level = None, cli_user_name = Some (lit ''trapuser''), cli_auth_protocol = None,
     cli_auth_password = None, cli_priv_protocol = None, cli_priv_password = None,
     cli_context_engine_id = None, cli_authoritative_engine_id = None, cli_context_name = None,
     cli_agent = lit ''192.0.2.50'',
     cli_trap_args = [lit ''42'', lit ''1.3.6.1.6.3.1.1.5.1'']\<rparr>"

lemma sample_cli_acceptable: "acceptable sample_cli"
  by (simp add: acceptable_def sample_cli_def v3_credentials_def effective_level_def lit_def)

lemma validate_invariant_witness:
  "validate (with_default_level sample_cli) = Return (Ok (with_default_level sample_cli))"
  using validate_invariant [of sample_cli "with_default_level sample_cli"]
  by (simp add: validate_result sample_cli_acceptable)

text \<open>
  C39: A command line is sent to exactly one address, or refused: the text after \<open>udp:\<close> names one
  host and one port, 162 where none is given; an IPv4 literal is its own address, whatever the
  resolver says, and for a name the address is the first IPv4 answer of the resolver to this
  name and port. A text that names nothing, or a host without such an answer, is a usage error.
  Addresses written out with their port are taken as they are.
\<close>

lemma resolve_agent_exact:
  "(resolve_agent_string dns agent = Ok d
      \<longleftrightarrow> (\<exists>host port. agent_names agent host port \<and> host_address dns host port d))
   \<and> (agent_names agent host port \<and> agent_names agent host' port' \<longrightarrow> host = host' \<and> port = port')
   \<and> resolve_agent_string dns (show_ipv4 a) = Ok \<lparr>sa_ip = a, sa_port = 162\<rparr>
   \<and> resolve_agent_string dns (show_socket_addr sa) = Ok sa
   \<and> resolve_agent_string dns (lit ''udp:'' @ show_socket_addr sa) = Ok sa
   \<and> (resolve_agent_string dns agent = Err e \<longrightarrow> (\<exists>m. e = Usage m))"
proof -
  have "show_socket_addr sa \<noteq> []" "hd (show_socket_addr sa) \<noteq> 117"
    using show_ipv4_hd [of "sa_ip sa"] by (auto simp: show_socket_addr_def hd_append)
  then have "to_option (resolve_agent_string dns (lit ''udp:'' @ show_socket_addr sa)) = Some sa"
    by (simp add: resolve_udp resolve_literal)
  then have "resolve_agent_string dns (lit ''udp:'' @ show_socket_addr sa) = Ok sa"
    by (cases "resolve_agent_string dns (lit ''udp:'' @ show_socket_addr sa)") simp_all
  with resolve_names agent_names_unique resolve_literal resolve_Err_usage show ?thesis by blast
qed

text \<open>A resolver that knows one name and answers with an IPv6 address first.\<close>

definition sample_resolver :: resolver where
  "sample_resolver host port =
     (if host = lit ''nms'' then Ok [SockV6, SockV4 \<lparr>sa_ip = Ipv4 192 0 2 50, sa_port = port\<rparr>] else Ok [])"

lemma nms_no_literal: "parse_ipv4 (lit ''nms'') = None" "read_ipv6 (lit ''nms'') \<noteq> Some []"
proof -
  have n: "read_number radix m z l (lit ''nms'') = None" if "radix \<le> 16" for radix m z l
    using that by (simp add: read_number_def to_digit_def lit_def Let_def)
  have v4: "read_ipv4 (lit ''nms'') = None"
    by (simp add: read_ipv4_def read_octet_def read_separator_def n)
  then show "parse_ipv4 (lit ''nms'') = None" by (simp add: parse_ipv4_def)
  have "read_groups 0 8 (lit ''nms'') = (0, False, lit ''nms'')"
    using read_groups.simps(2) [of 0 7 "lit ''nms''"] by (simp add: read_separator_def v4 n)
  then show "read_ipv6 (lit ''nms'') \<noteq> Some []"
    by (simp add: read_ipv6_def read_given_char_def lit_def)
qed

lemma resolve_agent_exact_witness:
  "resolve_agent_string sample_resolver (lit ''udp:nms:9162'')
     = Ok \<lparr>sa_ip = Ipv4 192 0 2 50, sa_port = 9162\<rparr>"
proof -
  have p: "parse_u16 (lit ''9162'') = Ok 9162"
    by (simp add: parse_u16_def parse_unsigned_def lit_def number_value_def to_digit_def)
  have "body_names (lit ''nms:9162'') (lit ''nms'') 9162"
    using p unfolding body_names_def
    by (intro disjI2 exI [of _ "lit ''9162''"] conjI) (simp_all add: lit_def)
  then have "agent_names (lit ''udp:nms:9162'') (lit ''nms'') 9162"
    unfolding agent_names_def
    by (intro exI [of _ "lit ''nms:9162''"]) (simp add: lit_def starts_with_def)
  moreover have "host_address sample_resolver (lit ''nms'') 9162
      \<lparr>sa_ip = Ipv4 192 0 2 50, sa_port = 9162\<rparr>"
    by (simp add: host_address_def nms_no_literal sample_resolver_def Cons_eq_append_conv)
  ultimately show ?thesis using resolve_agent_exact by blast
qed

end
