(* ===== verification/Helpers.thy ===== *)
theory Helpers
  imports Errors
begin

text \<open>
  \<open>src/helpers.rs\<close>: the host's uptime in hundredths of a second and the address the kernel
  would send from. Files, clocks and sockets are inputs. Of binary floating point only the two
  operations of the code are used, parsing a number and taking its centiseconds as \<open>u64\<close>;
  they are a parameter.
\<close>

section \<open>Uptime\<close>

record timeval =
  tv_sec :: "64 word"
  tv_usec :: "32 word"

record 'f float_ops =
  parse_f64 :: "rstr \<Rightarrow> ('f, rstr) result"
  centi_as_u64 :: "'f \<Rightarrow> u64"

record clocks =
  up_target :: target
  proc_uptime :: "(rstr, io_error) result"
  boottime :: "(timeval, io_error) result"
  timeofday :: "(timeval, io_error) result"

definition U32_MAX_u64 :: u64 where "U32_MAX_u64 = 0xFFFFFFFF"

text \<open>\<open>v.min(u32::MAX as u64) as u32\<close>.\<close>

definition cap_u32 :: "u64 \<Rightarrow> u32" where
  "cap_u32 v = ucast (min v U32_MAX_u64)"

definition linux_uptime :: "'f float_ops \<Rightarrow> (rstr, io_error) result \<Rightarrow> (u32, io_error) result" where
  "linux_uptime F proc =
     andthen proc (\<lambda>raw.
       case first_word raw of
         None \<Rightarrow> Err (io_error_new InvalidData (lit ''/proc/uptime had no content''))
       | Some first \<Rightarrow>
           andthen (map_err (\<lambda>e. io_error_new InvalidData e) (parse_f64 F first)) (\<lambda>secs.
             Ok (cap_u32 (centi_as_u64 F secs))))"

text \<open>
  Signed 64-bit arithmetic: an overflow panics in a build with overflow checks and wraps in
  one without. \<open>saturating_mul\<close> and \<open>saturating_add\<close> stop at the largest value.
\<close>

definition sub_i64 :: "bool \<Rightarrow> 64 word \<Rightarrow> 64 word \<Rightarrow> 64 word outcome" where
  "sub_i64 checks a b =
     (if checks \<and> \<not> (- (2 ^ 63) \<le> sint a - sint b \<and> sint a - sint b < 2 ^ 63)
      then Panic else Return (a - b))"

definition saturating_mul :: "u64 \<Rightarrow> u64 \<Rightarrow> u64" where
  "saturating_mul a b = (if 2 ^ 64 \<le> unat a * unat b then - 1 else a * b)"

definition saturating_add :: "u64 \<Rightarrow> u64 \<Rightarrow> u64" where
  "saturating_add a b = (if 2 ^ 64 \<le> unat a + unat b then - 1 else a + b)"

definition macos_uptime ::
  "bool \<Rightarrow> (timeval, io_error) result \<Rightarrow> (timeval, io_error) result \<Rightarrow> (u32, io_error) result outcome"
where
  "macos_uptime checks sysctl gettimeofday =
     and_try (Return sysctl) (\<lambda>boot.
     and_try (Return gettimeofday) (\<lambda>now.
     and_run (sub_i64 checks (tv_sec now) (tv_sec boot)) (\<lambda>secs.
     and_run (sub_i64 checks (scast (tv_usec now)) (scast (tv_usec boot))) (\<lambda>usecs.
     and_run (if sint usecs < 0
              then and_run (sub_i64 checks secs 1) (\<lambda>s. Return (s, usecs + 1000000))
              else Return (secs, usecs)) (\<lambda>(secs, usecs).
       if sint secs < 0 then Return (Ok 0)
       else
         let total_us = saturating_add (saturating_mul secs 1000000) usecs;
             centi = total_us div 10000
         in Return (Ok (cap_u32 centi)))))))"

definition host_uptime_centiseconds ::
  "bool \<Rightarrow> 'f float_ops \<Rightarrow> clocks \<Rightarrow> (u32, io_error) result outcome"
where
  "host_uptime_centiseconds checks F ck =
     (if up_target ck = TargetLinux then Return (linux_uptime F (proc_uptime ck))
      else if up_target ck = TargetMacos then macos_uptime checks (boottime ck) (timeofday ck)
      else Return (Ok 0))"

section \<open>The egress address\<close>

text \<open>Binding a UDP socket, connecting it, and reading its local address.\<close>

record egress_os =
  eg_bind :: "(unit, io_error) result"
  eg_connect :: "socket_addr \<Rightarrow> (unit, io_error) result"
  eg_local_addr :: "socket_addr \<Rightarrow> (sock, io_error) result"

definition egress_ipv4_for :: "egress_os \<Rightarrow> socket_addr \<Rightarrow> (ipv4, io_error) result" where
  "egress_ipv4_for os dst =
     andthen (eg_bind os) (\<lambda>_.
     andthen (eg_connect os dst) (\<lambda>_.
     andthen (eg_local_addr os dst) (\<lambda>a.
       case a of
         SockV4 v4 \<Rightarrow> Ok (sa_ip v4)
       | SockV6 \<Rightarrow> Err (io_error_new AddrNotAvailable
                        (lit ''kernel selected an IPv6 source for IPv4 destination'')))))"

section \<open>Lemmas\<close>

lemma unat_cap_u32: "unat (cap_u32 v) = min (unat v) (2 ^ 32 - 1)"
proof (cases "v \<le> U32_MAX_u64")
  case True
  then have "unat v \<le> 2 ^ 32 - 1" by (simp add: U32_MAX_u64_def word_le_nat_alt)
  then show ?thesis
    using True by (simp add: cap_u32_def min_def unsigned_ucast_eq take_bit_nat_eq_self)
next
  case False
  then have "2 ^ 32 - 1 < unat v" by (simp add: U32_MAX_u64_def word_le_nat_alt)
  then show ?thesis
    using False by (simp add: cap_u32_def min_def U32_MAX_u64_def)
qed

lemma linux_uptime_capped:
  "linux_uptime F proc = Ok cs \<longleftrightarrow>
     (\<exists>raw w f. proc = Ok raw \<and> first_word raw = Some w \<and> parse_f64 F w = Ok f
        \<and> unat cs = min (unat (centi_as_u64 F f)) (2 ^ 32 - 1))"
proof -
  have c: "cap_u32 v = cs \<longleftrightarrow> unat cs = min (unat v) (2 ^ 32 - 1)" for v
    using unat_cap_u32 [of v] by (metis unsigned_word_eqI)
  then show ?thesis
    by (cases proc) (auto simp: linux_uptime_def c split: option.splits)
qed

lemma unat_saturating_mul: "unat (saturating_mul a b) = min (unat a * unat b) (2 ^ 64 - 1)"
  by (auto simp: saturating_mul_def unat_mult_lem [THEN iffD1] unsigned_minus_1_eq_mask mask_eq_exp_minus_1)

lemma unat_saturating_add: "unat (saturating_add a b) = min (unat a + unat b) (2 ^ 64 - 1)"
  by (auto simp: saturating_add_def unat_add_lem [THEN iffD1] unsigned_minus_1_eq_mask mask_eq_exp_minus_1)


lemma sint_sub_exact:
  "- (2 ^ 63) \<le> sint a - sint b \<Longrightarrow> sint a - sint b < 2 ^ 63 \<Longrightarrow>
   sint (a - b :: 64 word) = sint a - sint b"
  by (simp add: sint_word_ariths(2) signed_take_bit_int_eq_self)

lemma sub_i64_exact:
  assumes "- (2 ^ 63) \<le> sint a - sint b" and "sint a - sint b < 2 ^ 63"
  shows "sub_i64 checks a b = Return (a - b) \<and> sint (a - b) = sint a - sint b"
  using assms sint_sub_exact [OF assms] by (simp add: sub_i64_def)

text \<open>A clock reading as an integer number of microseconds, and the readings a kernel gives.\<close>

definition micros :: "timeval \<Rightarrow> int" where
  "micros tv = sint (tv_sec tv) * 1000000 + sint (tv_usec tv)"

definition sane_time :: "timeval \<Rightarrow> bool" where
  "sane_time tv \<longleftrightarrow>
     0 \<le> sint (tv_sec tv) \<and> sint (tv_sec tv) < 2 ^ 62
     \<and> 0 \<le> sint (tv_usec tv) \<and> sint (tv_usec tv) < 1000000"

lemma sint_scast_usec: "sint (scast (w :: 32 word) :: 64 word) = sint w"
proof -
  have "- (2 ^ 63) \<le> sint w" "sint w < 2 ^ 63"
    using sint_ge [of w] sint_lt [of w] by simp_all
  then show ?thesis by (simp add: signed_scast_eq signed_take_bit_int_eq_self)
qed

lemma unat_nonneg: "0 \<le> sint (w :: 64 word) \<Longrightarrow> int (unat w) = sint w"
proof -
  assume "0 \<le> sint w"
  moreover have "sint w < 2 ^ 64" using sint_lt [of w] by simp
  ultimately have "uint w = sint w"
    using uint_sint [of w] by (simp add: take_bit_int_eq_self)
  then show ?thesis by simp
qed

lemma total_centis:
  assumes "0 \<le> sint s" and "0 \<le> sint u" and "sint u < 1000000"
  shows "int (unat (cap_u32 (saturating_add (saturating_mul s 1000000) u div 10000)))
           = min ((sint s * 1000000 + sint u) div 10000) (2 ^ 32 - 1)"
proof -
  let ?t = "unat s * 1000000 + unat u"
  have su: "int (unat s) = sint s" "int (unat u) = sint u"
    by (rule unat_nonneg, rule assms)+
  then have u: "unat u < 1000000" using assms(3) by linarith
  have "unat (saturating_add (saturating_mul s 1000000) u)
      = min (min (unat s * 1000000) (2 ^ 64 - 1) + unat u) (2 ^ 64 - 1)"
    by (simp add: unat_saturating_add unat_saturating_mul)
  also have "\<dots> = min ?t (2 ^ 64 - 1)" by auto
  finally have t: "unat (saturating_add (saturating_mul s 1000000) u) = min ?t (2 ^ 64 - 1)" .
  have "min (min ?t (2 ^ 64 - 1) div 10000) (2 ^ 32 - 1) = min (?t div 10000) (2 ^ 32 - 1 :: nat)"
  proof (cases "?t \<le> 2 ^ 64 - 1")
    case False
    then have "(2 ^ 64 - 1) div 10000 \<le> ?t div 10000" by (intro div_le_mono) simp
    moreover have "(2 ^ 32 - 1 :: nat) \<le> (2 ^ 64 - 1) div 10000" by simp
    ultimately have "2 ^ 32 - 1 \<le> ?t div 10000" by (rule order_trans [rotated])
    moreover have "min ?t (2 ^ 64 - 1) = 2 ^ 64 - 1" using False by simp
    ultimately show ?thesis by simp
  qed (simp add: min_absorb1)
  then have "unat (cap_u32 (saturating_add (saturating_mul s 1000000) u div 10000))
      = min (?t div 10000) (2 ^ 32 - 1)"
    by (simp add: unat_cap_u32 unat_div t)
  then show ?thesis using su by (simp add: of_nat_min zdiv_int)
qed

text \<open>The borrow of a second keeps the difference and leaves microseconds of one second.\<close>

lemma borrow_exact:
  fixes ds du :: "64 word"
  assumes "- (2 ^ 62) < sint ds" "sint ds < 2 ^ 62" and "- 1000000 < sint du" "sint du < 1000000"
  obtains s u where
    "(if sint du < 0 then and_run (sub_i64 checks ds 1) (\<lambda>s. Return (s, du + 1000000))
      else Return (ds, du)) = Return (s, u)"
    and "sint s * 1000000 + sint u = sint ds * 1000000 + sint du" and "0 \<le> sint u" "sint u < 1000000"
proof
  let ?s = "if sint du < 0 then ds - 1 else ds" and ?u = "if sint du < 0 then du + 1000000 else du"
  show "(if sint du < 0 then and_run (sub_i64 checks ds 1) (\<lambda>s. Return (s, du + 1000000))
      else Return (ds, du)) = Return (?s, ?u)"
    using assms sub_i64_exact [of ds 1 checks] by auto
  have su: "sint ?s = (if sint du < 0 then sint ds - 1 else sint ds)"
      "sint ?u = (if sint du < 0 then sint du + 1000000 else sint du)"
    using sint_sub_exact [of ds 1] sint_sub_exact [of du "- 1000000"] assms by auto
  show "sint ?s * 1000000 + sint ?u = sint ds * 1000000 + sint du" "0 \<le> sint ?u" "sint ?u < 1000000"
    unfolding su using assms by auto
qed

lemma macos_uptime_result:
  assumes "sane_time boot" and "sane_time now"
  shows "\<exists>cs. macos_uptime checks (Ok boot) (Ok now) = Return (Ok cs)
     \<and> int (unat cs) = (if micros now < micros boot then 0
                         else min ((micros now - micros boot) div 10000) (2 ^ 32 - 1))"
proof -
  let ?ds = "tv_sec now - tv_sec boot"
  let ?du = "scast (tv_usec now) - scast (tv_usec boot) :: 64 word"
  have ds: "sub_i64 checks (tv_sec now) (tv_sec boot) = Return ?ds"
      "sint ?ds = sint (tv_sec now) - sint (tv_sec boot)"
    using assms sub_i64_exact [of "tv_sec now" "tv_sec boot"] by (auto simp: sane_time_def)
  have du: "sub_i64 checks (scast (tv_usec now)) (scast (tv_usec boot)) = Return ?du"
      "sint ?du = sint (tv_usec now) - sint (tv_usec boot)"
    using assms sub_i64_exact [of "scast (tv_usec now)" "scast (tv_usec boot)"]
    by (auto simp: sane_time_def sint_scast_usec)
  have "- (2 ^ 62) < sint ?ds" "sint ?ds < 2 ^ 62" "- 1000000 < sint ?du" "sint ?du < 1000000"
    using assms by (auto simp: ds(2) du(2) sane_time_def)
  then obtain s u where
    su: "(if sint ?du < 0 then and_run (sub_i64 checks ?ds 1) (\<lambda>s. Return (s, ?du + 1000000))
          else Return (?ds, ?du)) = Return (s, u)"
    and sum: "sint s * 1000000 + sint u = sint ?ds * 1000000 + sint ?du"
    and u: "0 \<le> sint u" "sint u < 1000000"
    by (rule borrow_exact)
  have t: "micros now - micros boot = sint s * 1000000 + sint u"
    unfolding sum ds(2) du(2) by (simp add: micros_def)
  have "macos_uptime checks (Ok boot) (Ok now)
      = (if sint s < 0 then Return (Ok 0)
         else Return (Ok (cap_u32 (saturating_add (saturating_mul s 1000000) u div 10000))))"
    by (simp add: macos_uptime_def ds(1) du(1) su Let_def)
  moreover have "sint s < 0 \<longleftrightarrow> micros now < micros boot" using t u by linarith
  ultimately show ?thesis using total_centis [of s u] u by (cases "sint s < 0") (simp_all add: t)
qed

lemma host_uptime_returns [returning]:
  assumes "up_target ck = TargetMacos \<Longrightarrow> \<exists>b n. boottime ck = Ok b \<and> timeofday ck = Ok n
             \<and> sane_time b \<and> sane_time n"
  shows "returns (host_uptime_centiseconds checks F ck)"
  using assms macos_uptime_result
  by (cases "up_target ck") (fastforce simp: host_uptime_centiseconds_def returns_def)+

lemma host_uptime_release [returning]: "returns (host_uptime_centiseconds False F ck)"
  by (auto simp: host_uptime_centiseconds_def macos_uptime_def sub_i64_def returns_and_try
      returns_and_run Let_def)

section \<open>Properties\<close>

text \<open>
  C37: On macOS the uptime is the exact difference of the two clocks in hundredths of a second,
  rounded down and capped at 2 to the 32 minus 1, and zero when the clock was set back before
  the boot time; no subtraction overflows for any time the system calls report.
\<close>

lemma macos_uptime_exact:
  assumes "sane_time boot" and "sane_time now"
  shows "\<exists>cs. macos_uptime checks (Ok boot) (Ok now) = Return (Ok cs)
    \<and> int (unat cs) = (if micros now < micros boot then 0
        else min ((micros now - micros boot) div 10000) (2 ^ 32 - 1))"
  using assms by (rule macos_uptime_result)

lemma macos_uptime_exact_witness:
  "\<exists>cs. macos_uptime True (Ok \<lparr>tv_sec = 10, tv_usec = 999999\<rparr>) (Ok \<lparr>tv_sec = 12, tv_usec = 0\<rparr>)
      = Return (Ok cs) \<and> int (unat cs) = 100"
proof -
  have "sane_time \<lparr>tv_sec = 10, tv_usec = 999999\<rparr>" "sane_time \<lparr>tv_sec = 12, tv_usec = 0\<rparr>"
    by (simp_all add: sane_time_def)
  from macos_uptime_exact [OF this, of True] show ?thesis by (auto simp: micros_def)
qed

end
