(* ===== verification/Payload.thy ===== *)
theory Payload
  imports V3 Cli Helpers
begin

text \<open>
  The payload builders of \<open>src/lib.rs\<close>: from a validated command line to the encoded message
  of each SNMP version. Everything the builders take from outside, the crates, the clocks, the
  host, the random numbers and the build configuration, is a field of \<open>env\<close>.
\<close>

section \<open>The environment\<close>

record ('h, 'f) env =
  env_checks :: bool
  env_crypto :: "'h crypto"
  env_codec :: codec
  env_floats :: "'f float_ops"
  env_clocks :: clocks
  env_egress :: egress_os
  env_host :: host
  env_request_id :: i32_draw
  env_msg_id :: i32_draw
  env_salt :: u64
  env_instants :: "nat \<times> nat"

section \<open>Arguments\<close>

definition parse_uptime_or_default :: "('h, 'f) env \<Rightarrow> rstr \<Rightarrow> (u32, error) result outcome" where
  "parse_uptime_or_default env s =
     (if s = [] then
        map_outcome (map_err error_from_io)
          (host_uptime_centiseconds (env_checks env) (env_floats env) (env_clocks env))
      else
        Return (map_err (\<lambda>e. Usage (lit ''invalid uptime '' @ [39] @ s @ [39] @ lit '': ''
                                    @ show_int_error e))
                  (parse_u32 s)))"

text \<open>The message for a value that does not parse, naming the object identifier \<open>t0\<close>.\<close>

fun triplet_error :: "rstr \<Rightarrow> parse_error \<Rightarrow> error" where
  "triplet_error t0 (UnknownLetter l) =
     Usage (lit ''unknown type letter '' @ [39, l, 39] @ lit '' after OID '' @ [39] @ t0 @ [39])"
| "triplet_error t0 (BadValue l detail) =
     Usage (lit ''bad value for type '' @ [39, l, 39] @ lit '' (OID '' @ [39] @ t0 @ [39]
            @ lit ''): '' @ detail)"

definition parse_triplet :: "rstr list \<Rightarrow> (oid \<times> varbind_value, error) result outcome" where
  "parse_triplet triplet =
     (case triplet of
        [t0, t1, t2] \<Rightarrow>
          and_try (Return (map_err Usage (parse_oid t0))) (\<lambda>oid.
            case t1 of
              [] \<Rightarrow> Return (Err (Usage (lit ''type letter for OID '' @ [39] @ t0 @ [39]
                                       @ lit '' is empty'')))
            | letter # chars \<Rightarrow>
                if chars \<noteq> []
                then Return (Err (Usage (lit ''type letter for OID '' @ [39] @ t0 @ [39]
                       @ lit '' must be a single character, got '' @ [39] @ t1 @ [39])))
                else
                  and_try (map_outcome (map_err (triplet_error t0)) (parse_typed_value letter t2))
                    (\<lambda>value. Return (Ok (oid, value))))
      | _ \<Rightarrow> Panic)"

definition parse_trailing_varbinds ::
  "rstr list \<Rightarrow> ((oid \<times> varbind_value) list, error) result outcome"
where
  "parse_trailing_varbinds rest =
     (if length rest mod 3 \<noteq> 0
      then Return (Err (Usage (lit ''trailing var-binds must come in OID TYPE VALUE triplets; got ''
                               @ dec (length rest) @ lit '' extra args'')))
      else map_run parse_triplet (chunks 3 rest))"

text \<open>The loop that refuses the two bindings the message adds itself.\<close>

fun refuse_prepended :: "(oid \<times> varbind_value) list \<Rightarrow> (unit, error) result" where
  "refuse_prepended [] = Ok ()"
| "refuse_prepended ((oid, v) # vbs) =
     (if oid = SYS_UPTIME_OID
      then Err (Usage (lit ''sysUpTime.0 (1.3.6.1.2.1.1.3.0) is auto-prepended; do not pass it as a trailing varbind. ''
                       @ lit ''Use the <UPTIME> positional (or '' @ [39, 39] @ lit '' to substitute host uptime).''))
      else if oid = SNMP_TRAP_OID_OID
      then Err (Usage (lit ''snmpTrapOID.0 (1.3.6.1.6.3.1.1.4.1.0) is auto-prepended; do not pass it as a trailing varbind. ''
                       @ lit ''Use the <TRAP-OID> positional.''))
      else refuse_prepended vbs)"

section \<open>SNMPv2c\<close>

definition build_v2c_payload :: "('h, 'f) env \<Rightarrow> cli \<Rightarrow> (bytes, error) result outcome" where
  "build_v2c_payload env c =
     (let args = cli_trap_args c in
      if length args < 2
      then Return (Err (Usage (lit ''v2c trap requires at minimum: <UPTIME> <TRAP-OID> [OID TYPE VALUE]...'')))
      else
        and_try (parse_uptime_or_default env (args ! 0)) (\<lambda>uptime.
        and_try (Return (map_err Usage (parse_oid (args ! 1)))) (\<lambda>trap_oid.
        and_try (parse_trailing_varbinds (drop 2 args)) (\<lambda>varbinds.
        and_try (Return (refuse_prepended varbinds)) (\<lambda>_.
          Return (build_v2c_trap (env_codec env)
            \<lparr>v2t_community = utf8 (cli_community c),
             v2t_request_id = fresh_request_id (env_request_id env),
             v2t_uptime = uptime, v2t_trap_oid = trap_oid, v2t_varbinds = varbinds\<rparr>))))))"

section \<open>SNMPv1\<close>

definition resolve_v1_agent_addr ::
  "egress_os \<Rightarrow> rstr \<Rightarrow> ipv4 option \<Rightarrow> socket_addr \<Rightarrow> (ipv4, error) result"
where
  "resolve_v1_agent_addr os positional src_addr_flag dst =
     (if positional \<noteq> [] then
        (case parse_ipv4 positional of
           Some ip \<Rightarrow> Ok ip
         | None \<Rightarrow> Err (Usage (lit ''v1 agent-addr positional must be a dotted-quad IPv4 (or empty), got ''
                               @ [39] @ positional @ [39])))
      else (case src_addr_flag of
          Some src \<Rightarrow> Ok src
        | None \<Rightarrow> map_err error_from_io (egress_ipv4_for os dst)))"

definition parse_trap_number :: "rstr \<Rightarrow> rstr \<Rightarrow> (i32, error) result" where
  "parse_trap_number what s =
     map_err (\<lambda>e. Usage (lit ''invalid '' @ what @ lit '' '' @ [39] @ s @ [39] @ lit '': ''
                         @ show_int_error e)) (parse_i32 s)"

definition build_v1_payload :: "('h, 'f) env \<Rightarrow> cli \<Rightarrow> socket_addr \<Rightarrow> (bytes, error) result outcome" where
  "build_v1_payload env c dst =
     (let args = cli_trap_args c in
      if length args < 5
      then Return (Err (Usage (lit ''v1 trap requires: <ENTERPRISE-OID> <AGENT-ADDR> <GENERIC> <SPECIFIC> <UPTIME> [OID TYPE VALUE]...'')))
      else
        and_try (Return (if args ! 0 = [] then Ok DEFAULT_V1_ENTERPRISE_OID
                         else map_err Usage (parse_oid (args ! 0)))) (\<lambda>enterprise.
        and_try (Return (resolve_v1_agent_addr (env_egress env) (args ! 1) (src_addr_v4 c) dst)) (\<lambda>agent_addr.
        and_try (Return (parse_trap_number (lit ''generic-trap'') (args ! 2))) (\<lambda>generic.
        if \<not> (0 \<le> sint generic \<and> sint generic \<le> 6)
        then Return (Err (Usage (lit ''generic-trap must be 0..=6, got '' @ dec_int (sint generic))))
        else
        and_try (Return (parse_trap_number (lit ''specific-trap'') (args ! 3))) (\<lambda>specific.
        if sint specific < 0
        then Return (Err (Usage (lit ''specific-trap must be non-negative (RFC 1157), got ''
                                 @ dec_int (sint specific))))
        else
        and_try (parse_uptime_or_default env (args ! 4)) (\<lambda>uptime.
        and_try (parse_trailing_varbinds (drop 5 args)) (\<lambda>varbinds.
          Return (build_v1_trap (env_codec env)
            \<lparr>v1t_community = utf8 (cli_community c), v1t_enterprise = enterprise,
             v1t_agent_addr = agent_addr, v1t_generic = generic, v1t_specific = specific,
             v1t_uptime = uptime, v1t_varbinds = varbinds\<rparr>))))))))"

section \<open>SNMPv3\<close>

definition auth_proto :: "cli \<Rightarrow> (auth_protocol, error) result" where
  "auth_proto c =
     (case cli_auth_protocol c of
        Some p \<Rightarrow> Ok p
      | None \<Rightarrow> Err (Usage (lit ''internal: -a auth protocol expected after validation'')))"

definition priv_proto :: "cli \<Rightarrow> (priv_protocol, error) result" where
  "priv_proto c =
     (case cli_priv_protocol c of
        Some p \<Rightarrow> Ok p
      | None \<Rightarrow> Err (Usage (lit ''internal: -x priv protocol expected after validation'')))"

definition derive_auth_key ::
  "'h crypto \<Rightarrow> cli \<Rightarrow> engine_id \<Rightarrow> auth_protocol \<Rightarrow> (bytes, error) result outcome"
where
  "derive_auth_key C c engine_id proto =
     and_run (expect (cli_auth_password c)) (\<lambda>pw. password_to_key C pw engine_id proto)"

definition build_v3_security ::
  "('h, 'f) env \<Rightarrow> cli \<Rightarrow> security_level \<Rightarrow> engine_id \<Rightarrow> (v3_security, error) result outcome"
where
  "build_v3_security env c level engine_id =
     (case level of
        NoAuthNoPriv \<Rightarrow> Return (Ok SecNoAuthNoPriv)
      | AuthNoPriv \<Rightarrow>
          and_try (Return (auth_proto c)) (\<lambda>proto.
          and_try (derive_auth_key (env_crypto env) c engine_id proto) (\<lambda>auth_key.
            Return (Ok (SecAuthNoPriv proto auth_key))))
      | AuthPriv \<Rightarrow>
          and_try (Return (auth_proto c)) (\<lambda>auth_proto_v.
          and_try (derive_auth_key (env_crypto env) c engine_id auth_proto_v) (\<lambda>auth_key.
          and_try (Return (priv_proto c)) (\<lambda>priv_proto_v.
          and_run (expect (cli_priv_password c)) (\<lambda>priv_pw.
          and_try (priv_key_from_password (env_crypto env) priv_pw engine_id auth_proto_v
                     priv_proto_v) (\<lambda>priv_key.
            Return (Ok (SecAuthPriv auth_proto_v auth_key priv_proto_v priv_key (env_salt env)))))))))"

definition ENGINE_BOOTS_PER_INVOCATION :: u32 where "ENGINE_BOOTS_PER_INVOCATION = 1"

text \<open>
  \<open>process_uptime_seconds\<close>: \<open>cell\<close> is the \<open>OnceLock\<close>, instants are nanoseconds of a monotonic
  clock; \<open>now\<close> are the two readings the function makes. Gives the seconds and the cell after.
\<close>

definition process_uptime_seconds :: "nat \<times> nat \<Rightarrow> nat option \<Rightarrow> u32 \<times> nat option" where
  "process_uptime_seconds now cell =
     (let start = (case cell of Some s \<Rightarrow> s | None \<Rightarrow> fst now);
          elapsed = (snd now - start) div 1000000000
      in (of_nat (min elapsed (2 ^ 31 - 1)), Some start))"

definition parse_engine_option ::
  "rstr \<Rightarrow> rstr option \<Rightarrow> (engine_id option, error) result"
where
  "parse_engine_option what opt =
     (case opt of
        None \<Rightarrow> Ok None
      | Some s \<Rightarrow> map_ok Some (map_err (\<lambda>e. Usage (what @ lit '': '' @ show_engine_id_error e))
                               (parse_user_input s)))"

text \<open>The part of \<open>build_v3_payload\<close> before the clock is read: all its early returns.\<close>

definition v3_message_parts ::
  "('h, 'f) env \<Rightarrow> cli \<Rightarrow> (u32 \<Rightarrow> v3_trap_message, error) result outcome"
where
  "v3_message_parts env c =
     (let args = cli_trap_args c in
      if length args < 2
      then Return (Err (Usage (lit ''v3 trap requires at minimum: <UPTIME> <TRAP-OID> [OID TYPE VALUE]...'')))
      else
        and_try (parse_uptime_or_default env (args ! 0)) (\<lambda>uptime.
        and_try (Return (map_err Usage (parse_oid (args ! 1)))) (\<lambda>trap_oid.
        and_try (parse_trailing_varbinds (drop 2 args)) (\<lambda>varbinds.
        and_try (Return (refuse_prepended varbinds)) (\<lambda>_.
        and_try (Return (parse_engine_option (lit ''--authoritative-engine-id (-E)'')
                           (cli_authoritative_engine_id c))) (\<lambda>auth_eid_user.
        let authoritative = resolve (env_host env) auth_eid_user (src_addr_v4 c) in
        and_try (Return (parse_engine_option (lit ''--context-engine-id (-e)'')
                           (cli_context_engine_id c))) (\<lambda>context_user.
        let context_eid = (case context_user of Some e \<Rightarrow> e | None \<Rightarrow> authoritative) in
        and_run (expect (cli_security_level c)) (\<lambda>level.
        and_try (build_v3_security env c level authoritative) (\<lambda>security.
        and_run (expect (cli_user_name c)) (\<lambda>user.
          Return (Ok (\<lambda>engine_time.
            \<lparr>m_authoritative_engine_id = authoritative, m_context_engine_id = context_eid,
             m_context_name = (case cli_context_name c of Some s \<Rightarrow> utf8 s | None \<Rightarrow> []),
             m_user_name = utf8 user, m_engine_boots = ENGINE_BOOTS_PER_INVOCATION,
             m_engine_time = engine_time, m_msg_id = fresh_msg_id (env_msg_id env),
             m_security = security,
             m_trap = \<lparr>v2t_community = [], v2t_request_id = fresh_request_id (env_request_id env),
               v2t_uptime = uptime, v2t_trap_oid = trap_oid, v2t_varbinds = varbinds\<rparr>\<rparr>))))))))))))"

definition build_v3_payload ::
  "('h, 'f) env \<Rightarrow> nat option \<Rightarrow> cli \<Rightarrow> (bytes, error) result outcome \<times> nat option"
where
  "build_v3_payload env cell c =
     (case v3_message_parts env c of
        Return (Ok msg) \<Rightarrow>
          (case process_uptime_seconds (env_instants env) cell of
             (engine_time, cell') \<Rightarrow>
               (build_v3_trap_message (env_checks env) (env_crypto env) (env_codec env)
                  (msg engine_time), cell'))
      | Return (Err e) \<Rightarrow> (Return (Err e), cell)
      | Panic \<Rightarrow> (Panic, cell)
      | Diverge \<Rightarrow> (Diverge, cell))"

section \<open>Dispatch\<close>

definition build_payload ::
  "('h, 'f) env \<Rightarrow> nat option \<Rightarrow> cli \<Rightarrow> socket_addr \<Rightarrow> (bytes, error) result outcome \<times> nat option"
where
  "build_payload env cell c dst =
     (case cli_version c of
        V1 \<Rightarrow> (build_v1_payload env c dst, cell)
      | V2c \<Rightarrow> (build_v2c_payload env c, cell)
      | V3 \<Rightarrow> build_v3_payload env cell c)"


section \<open>Trailing bindings\<close>

lemma chunks_3: "length rest mod 3 = 0 \<Longrightarrow> t \<in> set (chunks 3 rest) \<Longrightarrow> \<exists>a b c. t = [a, b, c]"
proof -
  assume "length rest mod 3 = 0" "t \<in> set (chunks 3 rest)"
  then have "length t = 3" by (intro chunks_even) (auto simp: mod_eq_0_iff_dvd)
  then show ?thesis by (auto simp: numeral_3_eq_3 length_Suc_conv)
qed

lemma parse_triplet_returns [returning]: "returns (parse_triplet [a, b, c])"
  by (auto simp: parse_triplet_def returns_and_try parse_typed_value_returns split: list.split)

lemma parse_trailing_returns [returning]: "returns (parse_trailing_varbinds rest)"
proof (cases "length rest mod 3 = 0")
  case True
  have "returns (parse_triplet t)" if "t \<in> set (chunks 3 rest)" for t
    using chunks_3 [OF True that] parse_triplet_returns by auto
  with True show ?thesis by (simp add: parse_trailing_varbinds_def map_run_returns)
qed (simp add: parse_trailing_varbinds_def)

lemma parse_triplet_Ok:
  "parse_triplet t = Return (Ok (oid, v)) \<longleftrightarrow>
     (\<exists>a l s. t = [a, [l], s] \<and> parse_oid a = Ok oid \<and> parse_typed_value l s = Return (Ok v))"
proof (cases "\<exists>a b c. t = [a, b, c]")
  case True
  then obtain a b c where t: "t = [a, b, c]" by blast
  show ?thesis
    by (cases b) (auto simp: t parse_triplet_def)
next
  case False
  then have "parse_triplet t = Panic"
    by (auto simp: parse_triplet_def split: list.split)
  with False show ?thesis by auto
qed

lemma map_run_Err:
  "map_run f xs = Return (Err e) \<Longrightarrow> \<exists>x \<in> set xs. f x = Return (Err e)"
  by (induction xs) (auto simp: and_try_eq_Err)

lemma triplet_error_usage: "\<exists>m. triplet_error t0 e = Usage m"
  by (cases e) simp_all

lemma parse_triplet_Err: "parse_triplet t = Return (Err e) \<Longrightarrow> \<exists>m. e = Usage m"
proof -
  assume h: "parse_triplet t = Return (Err e)"
  show ?thesis
  proof (cases "\<exists>a b c. t = [a, b, c]")
    case True
    then obtain a b c where t: "t = [a, b, c]" by blast
    show ?thesis
    proof (cases b)
      case (Cons l ls)
      with h t triplet_error_usage show ?thesis
        by (cases ls) (auto simp: parse_triplet_def and_try_eq_Err)
    qed (use h t in \<open>auto simp: parse_triplet_def and_try_eq_Err\<close>)
  next
    case False
    then have "parse_triplet t = Panic" by (auto simp: parse_triplet_def split: list.split)
    with h show ?thesis by simp
  qed
qed

lemma parse_trailing_Err: "parse_trailing_varbinds rest = Return (Err e) \<Longrightarrow> \<exists>m. e = Usage m"
  by (auto simp: parse_trailing_varbinds_def split: if_splits
      dest!: map_run_Err parse_triplet_Err)

text \<open>A binding of the command line, and the three arguments that spell it.\<close>

definition expressible_binding :: "oid \<times> varbind_value \<Rightarrow> bool" where
  "expressible_binding b \<longleftrightarrow> valid_oid (fst b) \<and> expressible (snd b)"

definition spell_binding :: "oid \<times> varbind_value \<Rightarrow> rstr list" where
  "spell_binding b = [show_arcs (fst b), [fst (spell (snd b))], snd (spell (snd b))]"

lemma parse_trailing_expressible:
  assumes "parse_trailing_varbinds rest = Return (Ok vbs)" and "b \<in> set vbs"
  shows "expressible_binding b"
proof -
  from assms(1) have l: "list_all2 (\<lambda>t b. parse_triplet t = Return (Ok b)) (chunks 3 rest) vbs"
    by (auto simp: parse_trailing_varbinds_def map_run_Ok_iff split: if_splits)
  obtain t where "parse_triplet t = Return (Ok b)"
    using l assms(2) by (auto simp: list_all2_conv_all_nth in_set_conv_nth)
  then show ?thesis
    using parse_expressible by (cases b) (auto simp: parse_triplet_Ok expressible_binding_def parse_oid_Ok_iff)
qed

lemma parse_spelled_bindings:
  "(\<And>b. b \<in> set vbs \<Longrightarrow> expressible_binding b) \<Longrightarrow>
   parse_trailing_varbinds (concat (map spell_binding vbs)) = Return (Ok vbs)"
proof -
  assume e: "\<And>b. b \<in> set vbs \<Longrightarrow> expressible_binding b"
  have len1: "length (spell_binding b) = 3" for b by (simp add: spell_binding_def)
  have len: "length (concat (map spell_binding vbs)) = 3 * length vbs"
    by (induction vbs) (auto simp: len1)
  have ch: "chunks 3 (concat (map spell_binding vbs)) = map spell_binding vbs"
    by (induction vbs) (simp_all add: chunks_append len1)
  have "parse_triplet (spell_binding b) = Return (Ok b)" if "b \<in> set vbs" for b
    using e [OF that] parse_spelled [of "snd b"]
    by (cases b) (simp add: parse_triplet_Ok spell_binding_def expressible_binding_def parse_oid_show)
  then have "map_run parse_triplet (map spell_binding vbs) = Return (Ok vbs)"
    by (simp add: map_run_Ok_iff list_all2_map1 list_all2_same)
  then show ?thesis by (simp add: parse_trailing_varbinds_def len ch)
qed

lemma refuse_prepended_Ok:
  "refuse_prepended vbs = Ok u \<longleftrightarrow> SYS_UPTIME_OID \<notin> fst ` set vbs \<and> SNMP_TRAP_OID_OID \<notin> fst ` set vbs"
  by (induction vbs rule: refuse_prepended.induct) auto

lemma refuse_prepended_Err: "refuse_prepended vbs = Err e \<Longrightarrow> \<exists>m. e = Usage m"
  by (induction vbs rule: refuse_prepended.induct) (auto split: if_splits)


section \<open>Uptime\<close>

definition uptime_available :: "('h, 'f) env \<Rightarrow> bool" where
  "uptime_available env \<longleftrightarrow>
     returns (host_uptime_centiseconds (env_checks env) (env_floats env) (env_clocks env))"

lemma parse_uptime_returns [returning]:
  "s \<noteq> [] \<or> uptime_available env \<Longrightarrow> returns (parse_uptime_or_default env s)"
  by (auto simp: parse_uptime_or_default_def uptime_available_def)

lemma parse_uptime_given:
  "s \<noteq> [] \<Longrightarrow> parse_uptime_or_default env s = Return (Ok t) \<longleftrightarrow> parse_u32 s = Ok t"
  by (auto simp: parse_uptime_or_default_def)

lemma process_uptime_bound: "unat (fst (process_uptime_seconds now cell)) < 2 ^ 31"
  by (simp add: process_uptime_seconds_def Let_def unat_of_nat min_def)

lemma process_uptime_first: "snd now < fst now + 1000000000 \<Longrightarrow> fst (process_uptime_seconds now None) = 0"
  by (simp add: process_uptime_seconds_def Let_def)

lemma process_uptime_cell: "snd (process_uptime_seconds now (Some s)) = Some s"
  by (simp add: process_uptime_seconds_def Let_def)

lemma process_uptime_mono:
  "snd now \<le> snd now' \<Longrightarrow>
   unat (fst (process_uptime_seconds now (Some s))) \<le> unat (fst (process_uptime_seconds now' (Some s)))"
proof -
  assume "snd now \<le> snd now'"
  then have "(snd now - s) div 1000000000 \<le> (snd now' - s) div 1000000000"
    by (intro div_le_mono diff_le_mono)
  then show ?thesis by (simp add: process_uptime_seconds_def Let_def unat_of_nat min_def)
qed

section \<open>SNMPv2c and SNMPv1 payloads\<close>

text \<open>The two arguments and the bindings every SNMPv2 style trap is made of.\<close>

definition v2_arguments ::
  "('h, 'f) env \<Rightarrow> rstr list \<Rightarrow> u32 \<Rightarrow> oid \<Rightarrow> (oid \<times> varbind_value) list \<Rightarrow> bool"
where
  "v2_arguments env args uptime trap_oid vbs \<longleftrightarrow>
     2 \<le> length args
     \<and> parse_uptime_or_default env (args ! 0) = Return (Ok uptime)
     \<and> parse_oid (args ! 1) = Ok trap_oid
     \<and> parse_trailing_varbinds (drop 2 args) = Return (Ok vbs)
     \<and> SYS_UPTIME_OID \<notin> fst ` set vbs \<and> SNMP_TRAP_OID_OID \<notin> fst ` set vbs"

lemma build_v2c_payload_Ok:
  "build_v2c_payload env c = Return (Ok out) \<longleftrightarrow>
     (\<exists>uptime trap_oid vbs. v2_arguments env (cli_trap_args c) uptime trap_oid vbs
        \<and> build_v2c_trap (env_codec env)
            \<lparr>v2t_community = utf8 (cli_community c),
             v2t_request_id = fresh_request_id (env_request_id env),
             v2t_uptime = uptime, v2t_trap_oid = trap_oid, v2t_varbinds = vbs\<rparr> = Ok out)"
  by (auto simp: build_v2c_payload_def v2_arguments_def Let_def refuse_prepended_Ok)

lemma build_v2c_payload_returns [returning]:
  "uptime_available env \<Longrightarrow> returns (build_v2c_payload env c)"
  by (auto simp: build_v2c_payload_def Let_def intro!: returning)

definition v1_arguments ::
  "('h, 'f) env \<Rightarrow> rstr list \<Rightarrow> ipv4 option \<Rightarrow> socket_addr \<Rightarrow> oid \<Rightarrow> ipv4 \<Rightarrow> i32 \<Rightarrow> i32 \<Rightarrow> u32
     \<Rightarrow> (oid \<times> varbind_value) list \<Rightarrow> bool"
where
  "v1_arguments env args src dst enterprise agent generic specific uptime vbs \<longleftrightarrow>
     5 \<le> length args
     \<and> (if args ! 0 = [] then enterprise = DEFAULT_V1_ENTERPRISE_OID
        else parse_oid (args ! 0) = Ok enterprise)
     \<and> resolve_v1_agent_addr (env_egress env) (args ! 1) src dst = Ok agent
     \<and> parse_i32 (args ! 2) = Ok generic \<and> 0 \<le> sint generic \<and> sint generic \<le> 6
     \<and> parse_i32 (args ! 3) = Ok specific \<and> 0 \<le> sint specific
     \<and> parse_uptime_or_default env (args ! 4) = Return (Ok uptime)
     \<and> parse_trailing_varbinds (drop 5 args) = Return (Ok vbs)"

lemma parse_trap_number_Ok [simp]: "parse_trap_number what s = Ok n \<longleftrightarrow> parse_i32 s = Ok n"
  by (simp add: parse_trap_number_def)

lemma build_v1_payload_Ok:
  "build_v1_payload env c dst = Return (Ok out) \<longleftrightarrow>
     (\<exists>enterprise agent generic specific uptime vbs.
        v1_arguments env (cli_trap_args c) (src_addr_v4 c) dst enterprise agent generic specific uptime vbs
        \<and> build_v1_trap (env_codec env)
            \<lparr>v1t_community = utf8 (cli_community c), v1t_enterprise = enterprise,
             v1t_agent_addr = agent, v1t_generic = generic, v1t_specific = specific,
             v1t_uptime = uptime, v1t_varbinds = vbs\<rparr> = Ok out)"
proof (cases "length (cli_trap_args c) < 5")
  case True
  then show ?thesis by (simp add: build_v1_payload_def v1_arguments_def)
next
  case False
  have e: "(if a = [] then Ok d else map_err Usage r) = Ok x
      \<longleftrightarrow> (if a = [] then x = d else r = Ok x)" for a :: rstr and d x :: oid and r
    by auto
  have g: "(if \<not> P then Return (Err z) else m) = Return (Ok out) \<longleftrightarrow> P \<and> m = Return (Ok out)"
    "(if Q then Return (Err z) else m) = Return (Ok out) \<longleftrightarrow> \<not> Q \<and> m = Return (Ok out)"
    for P Q z and m :: "(bytes, error) result outcome"
    by auto
  show ?thesis
    using False
    unfolding build_v1_payload_def v1_arguments_def Let_def g and_try_eq_Ok outcome.inject e
      parse_trap_number_Ok not_less
    by blast
qed

lemma build_v1_payload_returns [returning]:
  "uptime_available env \<Longrightarrow> returns (build_v1_payload env c dst)"
  by (auto simp: build_v1_payload_def Let_def intro!: returning)



section \<open>SNMPv3 payloads\<close>

lemma parse_engine_option_Ok:
  "parse_engine_option what opt = Ok r \<longleftrightarrow>
     (case opt of None \<Rightarrow> r = None | Some s \<Rightarrow> (\<exists>e. parse_user_input s = Ok e \<and> r = Some e))"
  by (cases opt) (auto simp: parse_engine_option_def)

lemma parse_engine_option_Err:
  "parse_engine_option what opt = Err e \<Longrightarrow> \<exists>m. e = Usage m"
  by (cases opt) (auto simp: parse_engine_option_def)

lemma parse_engine_option_valid:
  "parse_engine_option what opt = Ok (Some e) \<Longrightarrow> valid_engine_id e"
  by (cases opt) (auto simp: parse_engine_option_Ok parse_user_input_valid)

text \<open>The keys built from a validated command line have the sizes the protocols ask for.\<close>

lemma auth_proto_Ok [simp]: "auth_proto c = Ok p \<longleftrightarrow> cli_auth_protocol c = Some p"
  by (cases "cli_auth_protocol c") (auto simp: auth_proto_def)

lemma priv_proto_Ok [simp]: "priv_proto c = Ok p \<longleftrightarrow> cli_priv_protocol c = Some p"
  by (cases "cli_priv_protocol c") (auto simp: priv_proto_def)

lemma derive_auth_key_Ok:
  "streaming_law C \<Longrightarrow> derive_auth_key C c e p = Return (Ok k) \<longleftrightarrow>
     (\<exists>pw. cli_auth_password c = Some pw \<and> 8 \<le> str_len pw \<and> k = localized_key C pw e p)"
  by (cases "cli_auth_password c") (auto simp: derive_auth_key_def password_to_key_result)

text \<open>The security parameters a command line asks for at a level.\<close>

fun security_of :: "'h crypto \<Rightarrow> u64 \<Rightarrow> cli \<Rightarrow> engine_id \<Rightarrow> security_level \<Rightarrow> v3_security \<Rightarrow> bool" where
  "security_of C salt c e NoAuthNoPriv s \<longleftrightarrow> s = SecNoAuthNoPriv"
| "security_of C salt c e AuthNoPriv s \<longleftrightarrow>
     (\<exists>a pw. cli_auth_protocol c = Some a \<and> cli_auth_password c = Some pw \<and> 8 \<le> str_len pw
        \<and> s = SecAuthNoPriv a (localized_key C pw e a))"
| "security_of C salt c e AuthPriv s \<longleftrightarrow>
     (\<exists>a pw p xw. cli_auth_protocol c = Some a \<and> cli_auth_password c = Some pw \<and> 8 \<le> str_len pw
        \<and> cli_priv_protocol c = Some p \<and> cli_priv_password c = Some xw \<and> 8 \<le> str_len xw
        \<and> min_auth p \<le> a
        \<and> s = SecAuthPriv a (localized_key C pw e a) p (take (key_len p) (localized_key C xw e a)) salt)"

lemma build_v3_security_Ok:
  assumes "streaming_law (env_crypto env)" and "size_law (env_crypto env)"
  shows "build_v3_security env c level e = Return (Ok s)
           \<longleftrightarrow> security_of (env_crypto env) (env_salt env) c e level s"
  by (cases level)
    (auto simp: build_v3_security_def derive_auth_key_Ok [OF assms(1)] priv_key_result [OF assms])

lemma security_of_keys_fit: "size_law C \<Longrightarrow> security_of C salt c e level s \<Longrightarrow> keys_fit s"
  by (cases level) (auto simp: length_localized_key key_fits_iff)

lemma build_v3_security_returns [returning]:
  assumes "streaming_law (env_crypto env)"
    and "AuthNoPriv \<le> level \<Longrightarrow> cli_auth_password c \<noteq> None"
    and "AuthPriv \<le> level \<Longrightarrow> cli_priv_password c \<noteq> None"
  shows "returns (build_v3_security env c level e)"
  using assms(2,3)
  by (cases level)
    (auto simp: build_v3_security_def derive_auth_key_def returns_and_try returns_and_run
      password_to_key_returns [OF assms(1)] priv_key_returns [OF assms(1)])

text \<open>What the message of a command line is.\<close>

definition v3_message_of ::
  "('h, 'f) env \<Rightarrow> cli \<Rightarrow> engine_id \<Rightarrow> engine_id \<Rightarrow> v3_security \<Rightarrow> u32 \<Rightarrow> oid
     \<Rightarrow> (oid \<times> varbind_value) list \<Rightarrow> u32 \<Rightarrow> v3_trap_message"
where
  "v3_message_of env c authoritative context security uptime trap_oid vbs engine_time =
     \<lparr>m_authoritative_engine_id = authoritative, m_context_engine_id = context,
      m_context_name = (case cli_context_name c of Some s \<Rightarrow> utf8 s | None \<Rightarrow> []),
      m_user_name = utf8 (the (cli_user_name c)), m_engine_boots = 1,
      m_engine_time = engine_time, m_msg_id = fresh_msg_id (env_msg_id env),
      m_security = security,
      m_trap = \<lparr>v2t_community = [], v2t_request_id = fresh_request_id (env_request_id env),
        v2t_uptime = uptime, v2t_trap_oid = trap_oid, v2t_varbinds = vbs\<rparr>\<rparr>"

text \<open>
  The engine identifiers in force: the user's, or the one the cascade finds; the context's
  defaults to the authoritative one.
\<close>

definition engine_ids_of :: "('h, 'f) env \<Rightarrow> cli \<Rightarrow> engine_id \<Rightarrow> engine_id \<Rightarrow> bool" where
  "engine_ids_of env c authoritative context \<longleftrightarrow>
     (case cli_authoritative_engine_id c of
        Some s \<Rightarrow> parse_user_input s = Ok authoritative
      | None \<Rightarrow> authoritative = resolve (env_host env) None (src_addr_v4 c))
     \<and> (case cli_context_engine_id c of
          Some s \<Rightarrow> parse_user_input s = Ok context
        | None \<Rightarrow> context = authoritative)"

lemma engine_ids_of_iff:
  "engine_ids_of env c a x \<longleftrightarrow>
     (\<exists>u v. parse_engine_option w (cli_authoritative_engine_id c) = Ok u
        \<and> parse_engine_option w' (cli_context_engine_id c) = Ok v
        \<and> a = resolve (env_host env) u (src_addr_v4 c)
        \<and> x = (case v of Some e \<Rightarrow> e | None \<Rightarrow> a))"
  by (cases "cli_authoritative_engine_id c"; cases "cli_context_engine_id c")
    (auto simp: engine_ids_of_def parse_engine_option_Ok)

lemma engine_ids_valid: "engine_ids_of env c a x \<Longrightarrow> valid_engine_id a \<and> valid_engine_id x"
  using resolve_valid_id [of None "env_host env" "src_addr_v4 c"]
  by (auto simp: engine_ids_of_def parse_user_input_valid split: option.splits)

lemma v3_message_parts_Ok:
  "v3_message_parts env c = Return (Ok msg) \<longleftrightarrow>
     (\<exists>uptime trap_oid vbs a x level s.
        v2_arguments env (cli_trap_args c) uptime trap_oid vbs
        \<and> engine_ids_of env c a x
        \<and> cli_security_level c = Some level
        \<and> build_v3_security env c level a = Return (Ok s)
        \<and> cli_user_name c \<noteq> None
        \<and> msg = v3_message_of env c a x s uptime trap_oid vbs)"
proof (cases "length (cli_trap_args c) < 2")
  case True
  then show ?thesis by (simp add: v3_message_parts_def v2_arguments_def)
next
  case False
  then show ?thesis
    unfolding v3_message_parts_def Let_def
    by (auto simp: v2_arguments_def refuse_prepended_Ok v3_message_of_def fun_eq_iff
        ENGINE_BOOTS_PER_INVOCATION_def
        engine_ids_of_iff [where w = "lit ''--authoritative-engine-id (-E)''"
          and w' = "lit ''--context-engine-id (-e)''"])
qed


lemma v3_parts_returns [returning]:
  assumes "streaming_law (env_crypto env)" and "uptime_available env"
    and "acceptable c" and "cli_version c = V3"
  shows "returns (v3_message_parts env (with_default_level c))"
proof -
  have cred: "v3_credentials c" using assms(3,4) by (simp add: acceptable_def)
  have user: "\<exists>u. cli_user_name (with_default_level c) = Some u"
    using cred by (auto simp: v3_credentials_def with_default_level_def)
  have level: "cli_security_level (with_default_level c) = Some (effective_level c)"
    using assms(4) by (simp add: with_default_level_def)
  have sec: "returns (build_v3_security env (with_default_level c) (effective_level c) e)" for e
    by (rule build_v3_security_returns [OF assms(1)])
      (use cred in \<open>auto simp: v3_credentials_def good_password_def with_default_level_def\<close>)
  show ?thesis
    unfolding v3_message_parts_def Let_def level
    using user assms(2)
    by (auto simp: returns_and_run intro!: and_try_returns parse_uptime_returns
        parse_trailing_returns sec)
qed

lemma build_v3_payload_Ok:
  "fst (build_v3_payload env cell c) = Return (Ok out) \<longleftrightarrow>
     (\<exists>msg. v3_message_parts env c = Return (Ok msg)
        \<and> build_v3_trap_message (env_checks env) (env_crypto env) (env_codec env)
            (msg (fst (process_uptime_seconds (env_instants env) cell))) = Return (Ok out))"
  by (auto simp: build_v3_payload_def split: outcome.splits result.splits prod.splits)

text \<open>The contract of the crates a payload rests on.\<close>

definition lawful_env :: "('h, 'f) env \<Rightarrow> bool" where
  "lawful_env env \<longleftrightarrow>
     streaming_law (env_crypto env) \<and> size_law (env_crypto env) \<and> cipher_law (env_crypto env)
     \<and> splice_law (env_codec env)"

lemma build_v3_payload_returns [returning]:
  assumes "lawful_env env" and "uptime_available env" and "acceptable c" and "cli_version c = V3"
  shows "returns (fst (build_v3_payload env cell (with_default_level c)))"
proof -
  have laws: "streaming_law (env_crypto env)" "size_law (env_crypto env)" "splice_law (env_codec env)"
    using assms(1) by (simp_all add: lawful_env_def)
  from v3_parts_returns [OF laws(1) assms(2-4)] obtain r where
    r: "v3_message_parts env (with_default_level c) = Return r"
    by (auto simp: returns_def)
  show ?thesis
  proof (cases r)
    case (Ok msg)
    with r have m: "v3_message_parts env (with_default_level c) = Return (Ok msg)" by simp
    then obtain uptime trap_oid vbs a x level s where
      s: "build_v3_security env (with_default_level c) level a = Return (Ok s)" and
      msg: "msg = v3_message_of env (with_default_level c) a x s uptime trap_oid vbs"
      unfolding v3_message_parts_Ok by blast
    have "keys_fit s"
      using s laws by (auto simp: build_v3_security_Ok intro: security_of_keys_fit)
    then have "keys_fit (m_security (msg t))" for t by (simp add: msg v3_message_of_def)
    then have "returns (build_v3_trap_message (env_checks env) (env_crypto env) (env_codec env) (msg t))"
      for t by (intro build_v3_returns laws)
    then show ?thesis
      by (simp add: build_v3_payload_def m split_beta)
  qed (simp add: build_v3_payload_def r)
qed

lemma build_payload_returns [returning]:
  assumes "lawful_env env" and "uptime_available env" and "acceptable c"
  shows "returns (fst (build_payload env cell (with_default_level c) dst))"
proof (cases "cli_version c")
  case V3
  then have "cli_version (with_default_level c) = V3" by (simp add: with_default_level_def)
  with V3 assms show ?thesis by (simp add: build_payload_def build_v3_payload_returns)
qed (use assms(2) in \<open>simp_all add: build_payload_def with_default_level_def
       build_v1_payload_returns build_v2c_payload_returns\<close>)

end
