(* ===== verification/Debug.thy ===== *)
theory Debug
  imports Cli
begin

text \<open>
  \<open>src/debug.rs\<close>: the header line and the hexadecimal dump printed before a send. A function
  that writes is the sequence of its \<open>write!\<close> calls, run against a writer that may fail.
\<close>

section \<open>Writers\<close>

text \<open>
  The pieces written one after the other, up to the first error; the writer's answer to its
  \<open>n\<close>-th call is a parameter.
\<close>

type_synonym writer = "nat \<Rightarrow> rstr \<Rightarrow> (unit, io_error) result"

fun write_pieces :: "writer \<Rightarrow> nat \<Rightarrow> rstr list \<Rightarrow> rstr \<times> (unit, io_error) result" where
  "write_pieces w n [] = ([], Ok ())"
| "write_pieces w n (p # ps) =
     (case w n p of
        Err e \<Rightarrow> ([], Err e)
      | Ok _ \<Rightarrow> (case write_pieces w (Suc n) ps of (out, r) \<Rightarrow> (p @ out, r)))"

section \<open>The dump\<close>

text \<open>\<open>{:08x}\<close> of a \<open>usize\<close>: at least eight digits.\<close>

fun hex_min :: "nat \<Rightarrow> rstr" where
  "hex_min n = (if n < 16 then [hex_digit n] else hex_min (n div 16) @ [hex_digit (n mod 16)])"

declare hex_min.simps [simp del]

definition hex08 :: "nat \<Rightarrow> rstr" where
  "hex08 n = replicate (8 - length (hex_min n)) 48 @ hex_min n"

definition is_ascii_graphic :: "u8 \<Rightarrow> bool" where
  "is_ascii_graphic b \<longleftrightarrow> 33 \<le> unat b \<and> unat b \<le> 126"

definition ascii_column :: "u8 \<Rightarrow> rstr" where
  "ascii_column b = (if is_ascii_graphic b \<or> b = 32 then [unat b] else lit ''.'')"

text \<open>One line: offset, hexadecimal columns, padding, ASCII column.\<close>

definition hex_columns :: "bytes \<Rightarrow> rstr list" where
  "hex_columns chunk =
     concat (map (\<lambda>(i, b). (if i = 8 then [lit '' ''] else []) @ [hex2 b @ lit '' ''])
               (enumerate 0 chunk))"

definition padding :: "nat \<Rightarrow> rstr list" where
  "padding len =
     concat (map (\<lambda>i. (if len + i = 8 then [lit '' ''] else []) @ [lit ''   '']) [0..<16 - len])"

definition dump_line :: "nat \<Rightarrow> bytes \<Rightarrow> rstr list" where
  "dump_line offset chunk =
     [hex08 (offset * 16) @ lit '': ''] @ hex_columns chunk @ padding (length chunk)
     @ [lit '' ''] @ map ascii_column chunk @ [newline]"

definition hex_dump_pieces :: "bytes \<Rightarrow> rstr list" where
  "hex_dump_pieces data = concat (map (\<lambda>(offset, chunk). dump_line offset chunk) (enumerate 0 (chunks 16 data)))"

definition write_hex_dump :: "writer \<Rightarrow> nat \<Rightarrow> bytes \<Rightarrow> rstr \<times> (unit, io_error) result" where
  "write_hex_dump w n data = write_pieces w n (hex_dump_pieces data)"

section \<open>The header\<close>

definition header_line ::
  "snmp_version \<Rightarrow> socket_addr \<Rightarrow> ipv4 option \<Rightarrow> u16 option \<Rightarrow> bytes \<Rightarrow> rstr"
where
  "header_line version dst src src_port payload =
     (let v = (case version of V1 \<Rightarrow> lit ''1'' | V2c \<Rightarrow> lit ''2c'' | V3 \<Rightarrow> lit ''3'');
          src_display = (case src of Some ip \<Rightarrow> show_ipv4 ip | None \<Rightarrow> lit ''<kernel-selected>'');
          src_port_display = (case src_port of Some p \<Rightarrow> dec (unat p) | None \<Rightarrow> lit ''<ephemeral>'')
      in lit ''[debug] snmp_version='' @ v @ lit '' dst='' @ show_socket_addr dst
         @ lit '' src='' @ src_display @ lit '' src_port='' @ src_port_display
         @ lit '' community=*** payload_bytes='' @ dec (length payload) @ newline)"

definition print_pre_send_dump ::
  "writer \<Rightarrow> snmp_version \<Rightarrow> socket_addr \<Rightarrow> ipv4 option \<Rightarrow> u16 option \<Rightarrow> bytes
     \<Rightarrow> rstr \<times> (unit, io_error) result"
where
  "print_pre_send_dump w version dst src src_port payload =
     (case w 0 (header_line version dst src src_port payload) of
        Err e \<Rightarrow> ([], Err e)
      | Ok _ \<Rightarrow>
          (case write_hex_dump w 1 payload of
             (out, r) \<Rightarrow> (header_line version dst src src_port payload @ out, r)))"

section \<open>Lemmas\<close>

lemma write_pieces_ok:
  "(\<And>i p. w i p = Ok ()) \<Longrightarrow> write_pieces w n ps = (concat ps, Ok ())"
  by (induction ps arbitrary: n) simp_all

text \<open>What was written before an error is a prefix of the whole.\<close>

lemma write_pieces_prefix: "\<exists>rest. concat ps = fst (write_pieces w n ps) @ rest"
proof (induction ps arbitrary: n)
  case (Cons p ps)
  from Cons.IH [of "Suc n"] obtain rest where
    "concat ps = fst (write_pieces w (Suc n) ps) @ rest" by blast
  then show ?case by (cases "w n p") (auto simp: case_prod_unfold)
qed simp

lemma concat_of_concat: "concat (concat xss) = concat (map concat xss)"
  by (induction xss) auto

lemma hex_dump_text:
  "concat (hex_dump_pieces data)
     = concat (map (\<lambda>(offset, chunk). concat (dump_line offset chunk)) (enumerate 0 (chunks 16 data)))"
  by (simp add: hex_dump_pieces_def concat_of_concat case_prod_unfold o_def)

text \<open>Every hexadecimal column of a line is as wide as sixteen bytes and the gap.\<close>

lemma length_hex_columns:
  "length chunk \<le> 16 \<Longrightarrow>
   length (concat (hex_columns chunk)) = 3 * length chunk + (if 8 < length chunk then 1 else 0)"
proof (induction chunk rule: rev_induct)
  case (snoc b chunk)
  have "concat (hex_columns (chunk @ [b]))
      = concat (hex_columns chunk) @ (if length chunk = 8 then lit '' '' else []) @ hex2 b @ lit '' ''"
    by (simp add: hex_columns_def enumerate_append_eq)
  with snoc show ?case by auto
qed (simp add: hex_columns_def)

lemma length_padding_aux:
  "length (concat (concat (map (\<lambda>i. (if len + i = 8 then [lit '' ''] else []) @ [lit ''   '']) [0..<k])))
     = 3 * k + (if len \<le> 8 \<and> 8 < len + k then 1 else 0)"
  by (induction k) auto

lemma length_padding:
  "len \<le> 16 \<Longrightarrow> length (concat (padding len)) = 3 * (16 - len) + (if len \<le> 8 then 1 else 0)"
  unfolding padding_def by (subst length_padding_aux) auto

lemma ascii_column_length [simp]: "length (ascii_column b) = 1"
  by (simp add: ascii_column_def)

lemma length_ascii_columns: "length (concat (map ascii_column chunk)) = length chunk"
  by (induction chunk) simp_all

lemma length_hex_min: "n < 16 ^ k \<Longrightarrow> 0 < k \<Longrightarrow> length (hex_min n) \<le> k"
proof (induction k arbitrary: n)
  case (Suc k)
  show ?case
  proof (cases "n < 16")
    case True
    then show ?thesis by (subst hex_min.simps) simp
  next
    case False
    with Suc.prems have "0 < k" by (cases k) auto
    moreover have "n div 16 < 16 ^ k" using Suc.prems(1) by (simp add: less_mult_imp_div_less mult.commute)
    ultimately have "length (hex_min (n div 16)) \<le> k" by (rule Suc.IH [rotated])
    with False show ?thesis by (subst hex_min.simps) simp
  qed
qed simp

lemma length_hex08: "n < 2 ^ 32 \<Longrightarrow> length (hex08 n) = 8"
  using length_hex_min [of n 8] by (simp add: hex08_def)

text \<open>The ASCII column starts at the sixty-first character of every line.\<close>

lemma dump_line_columns:
  assumes "length chunk \<le> 16" and "offset * 16 < 2 ^ 32"
  shows "length (concat (dump_line offset chunk)) = 60 + length chunk + 1"
    and "drop 60 (concat (dump_line offset chunk)) = concat (map ascii_column chunk) @ newline"
proof -
  let ?front = "hex08 (offset * 16) @ lit '': '' @ concat (hex_columns chunk)
      @ concat (padding (length chunk)) @ lit '' ''"
  have d: "concat (dump_line offset chunk) = ?front @ concat (map ascii_column chunk) @ newline"
    by (simp add: dump_line_def)
  have "length ?front = 60"
    using assms by (auto simp: length_hex_columns length_padding length_hex08)
  then show "length (concat (dump_line offset chunk)) = 60 + length chunk + 1"
    "drop 60 (concat (dump_line offset chunk)) = concat (map ascii_column chunk) @ newline"
    unfolding d by (simp_all add: length_ascii_columns newline_def)
qed

text \<open>Where the two digits of the byte at index \<open>i\<close> are.\<close>

definition byte_column :: "nat \<Rightarrow> nat" where
  "byte_column i = 10 + 3 * i + (if 8 \<le> i then 1 else 0)"

lemma hex_columns_split:
  assumes "i < length chunk"
  shows "\<exists>rest. concat (hex_columns chunk) = concat (hex_columns (take i chunk))
           @ (if i = 8 then lit '' '' else []) @ hex2 (chunk ! i) @ rest"
proof -
  let ?f = "\<lambda>(i, b). (if i = 8 then [lit '' ''] else []) @ [hex2 b @ lit '' '']"
  have "enumerate 0 chunk = enumerate 0 (take i chunk @ chunk ! i # drop (Suc i) chunk)"
    by (simp add: id_take_nth_drop [OF assms, symmetric])
  also have "\<dots> = enumerate 0 (take i chunk) @ (i, chunk ! i) # enumerate (Suc i) (drop (Suc i) chunk)"
    using assms by (simp add: enumerate_append_eq min_def)
  finally have "hex_columns chunk = hex_columns (take i chunk) @ ?f (i, chunk ! i)
      @ concat (map ?f (enumerate (Suc i) (drop (Suc i) chunk)))"
    by (simp add: hex_columns_def)
  then show ?thesis by simp
qed

lemma dump_line_byte:
  assumes "length chunk \<le> 16" and "offset * 16 < 2 ^ 32" and "i < length chunk"
  shows "take 2 (drop (byte_column i) (concat (dump_line offset chunk))) = hex2 (chunk ! i)"
proof -
  obtain rest where r: "concat (hex_columns chunk) = concat (hex_columns (take i chunk))
      @ (if i = 8 then lit '' '' else []) @ hex2 (chunk ! i) @ rest"
    using hex_columns_split [OF assms(3)] by blast
  let ?front = "hex08 (offset * 16) @ lit '': '' @ concat (hex_columns (take i chunk))
      @ (if i = 8 then lit '' '' else [])"
  have "length (concat (hex_columns (take i chunk))) = 3 * i + (if 8 < i then 1 else 0)"
    using assms by (subst length_hex_columns) auto
  then have "length ?front = byte_column i"
    using assms by (auto simp: length_hex08 byte_column_def)
  then have "drop (byte_column i) (?front @ hex2 (chunk ! i) @ t) = hex2 (chunk ! i) @ t" for t
    by simp
  moreover have "concat (dump_line offset chunk) = ?front @ hex2 (chunk ! i)
      @ rest @ concat (padding (length chunk)) @ lit '' '' @ concat (map ascii_column chunk) @ newline"
    by (simp add: dump_line_def r)
  ultimately show ?thesis by (simp only:) simp
qed

section \<open>Reading a dump\<close>

text \<open>
  The reader of a dump: on each line the pairs of digits at the columns of its octets, one
  octet for each character after column 60.
\<close>

definition digit_value :: "rchar \<Rightarrow> nat" where
  "digit_value c = (if c < 58 then c - 48 else c - 87)"

definition read_octet_at :: "rstr \<Rightarrow> nat \<Rightarrow> u8" where
  "read_octet_at line i =
     of_nat (16 * digit_value (line ! byte_column i) + digit_value (line ! Suc (byte_column i)))"

definition read_line :: "rstr \<Rightarrow> bytes" where
  "read_line line = map (read_octet_at line) [0..<length line - 60]"

definition read_dump :: "rstr \<Rightarrow> bytes" where
  "read_dump text = concat (map read_line (split (\<lambda>c. c = 10) text))"

lemma digit_value_hex_digit [simp]: "d < 16 \<Longrightarrow> digit_value (hex_digit d) = d"
  by (simp add: digit_value_def hex_digit_def)

lemma read_hex2: "of_nat (16 * digit_value (hex2 b ! 0) + digit_value (hex2 b ! 1)) = b"
proof -
  have "unat b < 256" using unsigned_less [of b, where 'a = nat] by simp
  then have "unat b div 16 < 16" "unat b mod 16 < 16" by auto
  then show ?thesis by (simp add: hex2_def)
qed

lemma nth_pair: "take 2 (drop i xs) = [a, b] \<Longrightarrow> xs ! i = a \<and> xs ! Suc i = b"
  by (metis (no_types, lifting) Cons_nth_drop_Suc drop_eq_Nil leI list.distinct(1) list.inject numeral_2_eq_2
      take_Nil take_Suc_Cons)

text \<open>No character of a line but the last is the line feed.\<close>

lemma no_newline_digits [simp]: "10 \<notin> set (hex2 b)" "10 \<notin> set (hex08 n)" "10 \<notin> set (ascii_column b)"
proof -
  have d: "hex_digit k \<noteq> 10" for k by (simp add: hex_digit_def)
  show "10 \<notin> set (hex2 b)" using d by (simp add: hex2_def)
  have "10 \<notin> set (hex_min n)"
    by (induction n rule: hex_min.induct) (subst hex_min.simps, use d in \<open>auto dest: sym\<close>)
  then show "10 \<notin> set (hex08 n)" by (simp add: hex08_def)
  show "10 \<notin> set (ascii_column b)" by (auto simp: ascii_column_def is_ascii_graphic_def)
qed

definition line_body :: "nat \<Rightarrow> bytes \<Rightarrow> rstr" where
  "line_body offset chunk =
     hex08 (offset * 16) @ lit '': '' @ concat (hex_columns chunk) @ concat (padding (length chunk))
     @ lit '' '' @ concat (map ascii_column chunk)"

lemma dump_line_body: "concat (dump_line offset chunk) = line_body offset chunk @ newline"
  by (simp add: dump_line_def line_body_def)

lemma line_body_no_newline: "10 \<notin> set (line_body offset chunk)"
  by (auto simp: line_body_def hex_columns_def padding_def lit_def split: if_splits)

lemma read_line_body:
  assumes "length chunk \<le> 16" and "offset * 16 < 2 ^ 32"
  shows "read_line (line_body offset chunk) = chunk"
proof (rule nth_equalityI)
  have len: "length (line_body offset chunk) = 60 + length chunk"
    using dump_line_columns(1) [OF assms] by (simp add: dump_line_body newline_def)
  then show "length (read_line (line_body offset chunk)) = length chunk" by (simp add: read_line_def)
  fix i assume "i < length (read_line (line_body offset chunk))"
  then have i: "i < length chunk" by (simp add: read_line_def len)
  have col: "Suc (byte_column i) < length (line_body offset chunk)"
    using i assms(1) by (simp add: len byte_column_def)
  have "take 2 (drop (byte_column i) (line_body offset chunk @ newline)) = hex2 (chunk ! i)"
    using dump_line_byte [OF assms i] by (simp add: dump_line_body)
  then have "take 2 (drop (byte_column i) (line_body offset chunk)) = hex2 (chunk ! i)"
    using col by simp
  then have "line_body offset chunk ! byte_column i = hex2 (chunk ! i) ! 0
      \<and> line_body offset chunk ! Suc (byte_column i) = hex2 (chunk ! i) ! 1"
    by (intro nth_pair) (simp add: hex2_def)
  then show "read_line (line_body offset chunk) ! i = chunk ! i"
    using i read_hex2 [of "chunk ! i"] by (simp add: read_line_def len read_octet_at_def)
qed

lemma read_dump_line: "read_dump (concat (dump_line offset chunk) @ rest)
    = read_line (line_body offset chunk) @ read_dump rest"
proof -
  have "split (\<lambda>c. c = 10) (line_body offset chunk @ 10 # rest)
      = line_body offset chunk # split (\<lambda>c. c = 10) rest"
    using line_body_no_newline [of offset chunk] by (intro split_append_sep) auto
  then show ?thesis by (simp add: read_dump_def dump_line_body newline_def)
qed

lemma read_dump_lines:
  assumes "\<And>c. c \<in> set cs \<Longrightarrow> length c \<le> 16" and "\<And>i. i < length cs \<Longrightarrow> (k + i) * 16 < 2 ^ 32"
  shows "read_dump (concat (map (\<lambda>(offset, chunk). concat (dump_line offset chunk)) (enumerate k cs)))
    = concat cs"
  using assms
proof (induction cs arbitrary: k)
  case (Cons c cs)
  have "read_dump (concat (map (\<lambda>(offset, chunk). concat (dump_line offset chunk))
      (enumerate (Suc k) cs))) = concat cs"
    using Cons.prems(1) Cons.prems(2) [of "Suc _"] by (intro Cons.IH) auto
  then show ?case
    using Cons.prems(1) [of c] Cons.prems(2) [of 0] by (simp add: read_dump_line read_line_body)
qed (simp add: read_dump_def read_line_def)

section \<open>Properties\<close>

text \<open>
  C36: The dump loses nothing: read line by line, with the two digits at the column of each octet
  and one octet for each character of the text column, it gives back the payload, for every
  payload below 4 GiB; so every octet stands at its own column and no character of the text
  column can be taken for the end of a line.
\<close>

lemma dump_reads_back:
  assumes "length data \<le> 2 ^ 32"
  shows "read_dump (concat (hex_dump_pieces data)) = data"
proof -
  have "length c \<le> 16" if "c \<in> set (chunks 16 data)" for c using chunks_lengths [OF that] by simp
  moreover have "(0 + i) * 16 < 2 ^ 32" if "i < length (chunks 16 data)" for i
    using chunks_offset [OF _ that] assms by simp
  ultimately show ?thesis
    by (simp add: hex_dump_text read_dump_lines concat_chunks)
qed

lemma dump_reads_back_witness: "read_dump (concat (hex_dump_pieces (replicate 21 10))) = replicate 21 10"
  by (rule dump_reads_back) simp

text \<open>
  In a dump line of up to 16 octets, below 4 GiB, octet \<open>i\<close> is written as its two
  hexadecimal digits at the column that belongs to \<open>i\<close> alone, the text column starts at
  column 60 whatever the length, and shows one character for each octet.
\<close>

lemma dump_line_layout:
  assumes "length chunk \<le> 16" and "offset * 16 < 2 ^ 32" and "i < length chunk"
  shows "take 2 (drop (byte_column i) (concat (dump_line offset chunk))) = hex2 (chunk ! i)
    \<and> drop 60 (concat (dump_line offset chunk)) = concat (map ascii_column chunk) @ newline
    \<and> length (concat (dump_line offset chunk)) = 61 + length chunk"
  using dump_line_byte [OF assms] dump_line_columns [OF assms(1,2)] by simp

lemma dump_line_layout_witness:
  "take 2 (drop (byte_column 8) (concat (dump_line 1 (replicate 9 0xA7)))) = hex2 0xA7"
  using dump_line_layout [of "replicate 9 0xA7" 1 8] by (simp add: nth_Cons')

lemma write_pieces_complete: "snd (write_pieces w n ps) = Ok () \<Longrightarrow> fst (write_pieces w n ps) = concat ps"
proof (induction ps arbitrary: n)
  case (Cons p ps)
  then show ?case by (cases "w n p") (auto simp: split_beta)
qed simp

lemma print_pre_send_dump_pieces:
  "print_pre_send_dump w version dst src src_port payload
     = write_pieces w 0 (header_line version dst src src_port payload # hex_dump_pieces payload)"
  by (cases "w 0 (header_line version dst src src_port payload)")
    (simp_all add: print_pre_send_dump_def write_hex_dump_def split_beta)

text \<open>
  The debug output is the header line followed by the hex dump of the payload: a writer
  that accepts everything gets all of it, and one that fails has got a prefix of it.
\<close>

lemma dump_prefix:
  "\<exists>rest. header_line version dst src src_port payload @ concat (hex_dump_pieces payload)
       = fst (print_pre_send_dump w version dst src src_port payload) @ rest
     \<and> (case snd (print_pre_send_dump w version dst src src_port payload) of
          Ok _ \<Rightarrow> rest = [] | Err e \<Rightarrow> True)"
proof -
  let ?ps = "header_line version dst src src_port payload # hex_dump_pieces payload"
  obtain rest where rest: "concat ?ps = fst (write_pieces w 0 ?ps) @ rest"
    using write_pieces_prefix [of ?ps w 0] by blast
  show ?thesis
  proof (cases "snd (write_pieces w 0 ?ps)")
    case (Ok u)
    then show ?thesis
      using write_pieces_complete [of w 0 ?ps] by (simp add: print_pre_send_dump_pieces)
  next
    case (Err e)
    with rest show ?thesis by (auto simp: print_pre_send_dump_pieces)
  qed
qed

end
