(* ===== verification/Checksum.thy ===== *)
theory Checksum
  imports Errors
begin

unbundle bit_operations_syntax

text \<open>
  \<open>ip_checksum\<close> of \<open>src/transport/raw.rs\<close>: the Internet checksum (RFC 1071), its abstract
  meaning (a sum modulo 65535) and the bound under which the 32-bit accumulator cannot wrap.
\<close>

section \<open>The code\<close>

text \<open>
  The first loop: big-endian pairs added with \<open>wrapping_add\<close>; an odd last byte is the high
  half of a word.
\<close>

fun sum_words :: "u32 \<Rightarrow> bytes \<Rightarrow> u32" where
  "sum_words s [] = s"
| "sum_words s [a] = s + push_bit 8 (ucast a)"
| "sum_words s (a # b # rest) = sum_words (s + of_nat (of_be [a, b])) rest"

text \<open>The second loop: carries are folded in until none is left.\<close>

function fold_carries :: "u32 \<Rightarrow> u32" where
  "fold_carries s =
     (if drop_bit 16 s \<noteq> 0 then fold_carries ((s AND 0xFFFF) + drop_bit 16 s) else s)"
  by pat_completeness auto

lemma unat_low16: "unat ((s :: u32) AND 0xFFFF) = unat s mod 65536"
proof -
  have "s AND 0xFFFF = take_bit 16 s"
    by (simp add: take_bit_eq_mask mask_eq_exp_minus_1)
  then have "unat (s AND 0xFFFF) = take_bit 16 (unat s)" by (simp only: unsigned_take_bit_eq)
  then show ?thesis by (simp add: take_bit_eq_mod)
qed

lemma unat_high16: "unat (drop_bit 16 (s :: u32)) = unat s div 65536"
  by (simp add: unat_drop_bit_eq drop_bit_eq_div [where 'a = nat])

lemma unat_u32_less: "unat (s :: u32) < 2 ^ 32"
  using unsigned_less [of s, where 'a = nat] by simp

lemma unat_fold_step:
  "unat ((s AND 0xFFFF) + drop_bit 16 (s :: u32)) = unat s mod 65536 + unat s div 65536"
proof -
  have "unat s div 65536 < 65536" using unat_u32_less [of s] by simp
  then show ?thesis by (simp add: unat_word_ariths unat_low16 unat_high16)
qed

lemma high16_nonzero: "drop_bit 16 (s :: u32) \<noteq> 0 \<longleftrightarrow> 65536 \<le> unat s"
proof -
  have "drop_bit 16 s \<noteq> 0 \<longleftrightarrow> unat (drop_bit 16 s) \<noteq> 0" by (simp add: unat_eq_0)
  then show ?thesis by (auto simp: unat_high16 div_eq_0_iff)
qed

lemma fold_step_less: "drop_bit 16 (s :: u32) \<noteq> 0
    \<Longrightarrow> unat ((s AND 0xFFFF) + drop_bit 16 s) < unat s"
  unfolding high16_nonzero unat_fold_step
  using div_mult_mod_eq [of "unat s" 65536] by linarith

termination fold_carries
  by (relation "measure unat") (simp_all add: fold_step_less)

declare fold_carries.simps [simp del]

definition ip_checksum :: "bytes \<Rightarrow> u16" where
  "ip_checksum data = NOT (ucast (fold_carries (sum_words 0 data)))"

section \<open>The meaning of the checksum\<close>

text \<open>The sum of the 16-bit words of the data, as a number.\<close>

fun word_sum :: "bytes \<Rightarrow> nat" where
  "word_sum [] = 0"
| "word_sum [a] = 256 * unat a"
| "word_sum (a # b # rest) = 256 * unat a + unat b + word_sum rest"

text \<open>Its one's-complement reduction: 0 only for 0, otherwise in 1..65535.\<close>

definition ones_sum :: "nat \<Rightarrow> nat" where
  "ones_sum n = (if n = 0 then 0 else (n - 1) mod 65535 + 1)"

lemma unat_u8_less: "unat (b :: u8) < 256"
  using unsigned_less [of b, where 'a = nat] by simp

lemma of_be_pair: "of_be [a, b] = 256 * unat a + unat b"
  by (simp add: of_be_Cons)

lemma word_sum_bound: "word_sum data \<le> 65535 * ((length data + 1) div 2)"
proof (induction data rule: word_sum.induct)
  case (2 a)
  then show ?case using unat_u8_less [of a] by simp
next
  case (3 a b rest)
  then show ?case using unat_u8_less [of a] unat_u8_less [of b] by simp
qed simp

lemma word_sum_append: "even (length xs) \<Longrightarrow> word_sum (xs @ ys) = word_sum xs + word_sum ys"
  by (induction xs rule: word_sum.induct) auto

lemma unat_sum_words:
  "unat s + word_sum data < 2 ^ 32 \<Longrightarrow> unat (sum_words s data) = unat s + word_sum data"
proof (induction s data rule: sum_words.induct)
  case (2 s a)
  have "unat (push_bit 8 (ucast a) :: u32) = 256 * unat a"
    using unat_u8_less [of a]
    by (simp add: push_bit_eq_mult unat_word_ariths unsigned_ucast_eq take_bit_nat_eq_self)
  with 2 show ?case by (simp add: unat_word_ariths)
next
  case (3 s a b rest)
  have b: "of_be [a, b] = 256 * unat a + unat b" by (rule of_be_pair)
  with "3.prems" have lt: "unat s + of_be [a, b] < 2 ^ 32" by simp
  then have "unat (s + of_nat (of_be [a, b])) = unat s + of_be [a, b]"
    by (simp add: unat_word_ariths unat_of_nat)
  with 3 b show ?case by simp
qed simp

lemma ones_sum_small: "n \<le> 65535 \<Longrightarrow> ones_sum n = n"
  by (simp add: ones_sum_def)

lemma ones_sum_step:
  "65536 \<le> n \<Longrightarrow> ones_sum (n mod 65536 + n div 65536) = ones_sum n"
proof -
  assume n: "65536 \<le> n"
  define q r where "q = n div 65536" and "r = n mod 65536"
  have nq: "n = 65535 * q + (q + r)" unfolding q_def r_def
    using div_mult_mod_eq [of n 65536] by linarith
  have "0 < q" using n unfolding q_def by (simp add: div_greater_zero_iff)
  then have "n - 1 = 65535 * q + (q + r - 1)" using nq by linarith
  then have "(n - 1) mod 65535 = (q + r - 1) mod 65535" by (metis mod_mult_self4)
  with n \<open>0 < q\<close> show ?thesis
    unfolding ones_sum_def q_def [symmetric] r_def [symmetric] by (simp add: add.commute)
qed

lemma unat_fold_carries: "unat (fold_carries s) = ones_sum (unat s)"
proof (induction s rule: fold_carries.induct)
  case (1 s)
  show ?case
  proof (cases "65536 \<le> unat s")
    case True
    with 1 show ?thesis
      by (simp add: fold_carries.simps [of s] high16_nonzero unat_fold_step ones_sum_step)
  next
    case False
    then show ?thesis by (simp add: fold_carries.simps [of s] high16_nonzero ones_sum_small)
  qed
qed

lemma ones_sum_le: "ones_sum n \<le> 65535"
proof -
  have "(n - 1) mod 65535 + 1 \<le> 65535"
    using mod_less_divisor [of 65535 "n - 1"] by linarith
  then show ?thesis unfolding ones_sum_def by (metis zero_le)
qed

lemma ones_sum_mod: "ones_sum n mod 65535 = n mod 65535"
proof (cases "n = 0")
  case False
  then show ?thesis by (simp add: ones_sum_def mod_Suc_eq)
qed (simp add: ones_sum_def)

lemma ones_sum_full: "ones_sum n = 65535 \<longleftrightarrow> 0 < n \<and> n mod 65535 = 0"
proof (cases "n = 0")
  case False
  then have pos: "0 < ones_sum n" by (simp add: ones_sum_def)
  show ?thesis
  proof
    assume "ones_sum n = 65535"
    with ones_sum_mod [of n] False show "0 < n \<and> n mod 65535 = 0" by simp
  next
    assume "0 < n \<and> n mod 65535 = 0"
    with ones_sum_mod [of n] have "65535 dvd ones_sum n" by (simp add: mod_eq_0_iff_dvd)
    with pos have "65535 \<le> ones_sum n" by (rule dvd_imp_le [rotated])
    with ones_sum_le [of n] show "ones_sum n = 65535" by simp
  qed
qed (simp add: ones_sum_def)

lemma unat_not_u16: "unat (NOT (w :: u16)) = 65535 - unat w"
proof -
  have "NOT w = - 1 - w" by (simp add: not_eq_complement)
  moreover have "unat (- 1 - w) = unat (- 1 :: u16) - unat w"
    by (rule unat_sub) simp
  ultimately show ?thesis by (simp add: unsigned_minus_1_eq_mask mask_eq_exp_minus_1)
qed

text \<open>
  The checksum of at most 131072 bytes is the complement of the reduced word sum: up to that
  length the accumulator cannot pass \<open>2^32\<close>, so \<open>wrapping_add\<close> never wraps.
\<close>

lemma ip_checksum_ones_sum:
  assumes "length data \<le> 131072"
  shows "unat (ip_checksum data) = 65535 - ones_sum (word_sum data)"
proof -
  have "word_sum data \<le> 65535 * ((length data + 1) div 2)" by (rule word_sum_bound)
  also have "\<dots> \<le> 65535 * 65536"
    using assms by (intro mult_le_mono) (simp_all add: div_le_mono)
  finally have "word_sum data < 2 ^ 32" by simp
  then have s: "unat (sum_words 0 data) = word_sum data" by (simp add: unat_sum_words)
  have "ones_sum (word_sum data) < 65536" using ones_sum_le [of "word_sum data"] by simp
  then have "unat (ucast (fold_carries (sum_words 0 data)) :: u16) = ones_sum (word_sum data)"
    by (simp add: unsigned_ucast_eq take_bit_nat_eq_self unat_fold_carries s)
  then show ?thesis by (simp add: ip_checksum_def unat_not_u16)
qed

text \<open>
  The receiver's test: the checksum of data that includes a checksum field is 0 exactly when
  the data is not all zero and its word sum is divisible by 65535.
\<close>

lemma ip_checksum_zero_iff:
  assumes "length data \<le> 131072"
  shows "ip_checksum data = 0 \<longleftrightarrow> 0 < word_sum data \<and> word_sum data mod 65535 = 0"
proof -
  have "ip_checksum data = 0 \<longleftrightarrow> unat (ip_checksum data) = 0" by (simp add: unat_eq_0)
  also have "\<dots> \<longleftrightarrow> ones_sum (word_sum data) = 65535"
    using ones_sum_le [of "word_sum data"] by (auto simp: ip_checksum_ones_sum [OF assms])
  finally show ?thesis by (simp add: ones_sum_full)
qed

text \<open>
  Filling in the complement makes the sum divisible: \<open>s\<close> is the sum with a zero checksum
  field, \<open>c\<close> the checksum of that data, or all ones in its place when it is 0.
\<close>

lemma complement_divisible:
  assumes "c = 65535 - ones_sum s" and "f = c \<or> (c = 0 \<and> f = 65535)"
  shows "(s + f) mod 65535 = 0"
proof -
  have le: "ones_sum s \<le> 65535" by (rule ones_sum_le)
  have m: "(s + (65535 - ones_sum s)) mod 65535 = 0"
  proof -
    have "(s + (65535 - ones_sum s)) mod 65535 = (ones_sum s + (65535 - ones_sum s)) mod 65535"
      using ones_sum_mod [of s] by (metis mod_add_cong)
    then show ?thesis using le by simp
  qed
  from assms(2) show ?thesis
  proof
    assume "f = c"
    with m assms(1) show ?thesis by simp
  next
    assume "c = 0 \<and> f = 65535"
    with m assms(1) show ?thesis by simp
  qed
qed

section \<open>The interface: a packet with a checksum field\<close>

text \<open>
  What the builders of a packet promise: the bytes before the field have even length, the
  field holds the checksum of the packet with a zero field (or all ones when that is 0), the
  packet is not all zero and short enough. The receiver's test then succeeds.
\<close>

locale checksum_field =
  fixes good :: "'a \<Rightarrow> bool"
    and before :: "'a \<Rightarrow> bytes"
    and field :: "'a \<Rightarrow> u16"
    and after :: "'a \<Rightarrow> bytes"
  assumes even_before: "good x \<Longrightarrow> even (length (before x))"
    and field_value: "good x \<Longrightarrow>
      field x = ip_checksum (before x @ [0, 0] @ after x)
      \<or> (ip_checksum (before x @ [0, 0] @ after x) = 0 \<and> field x = 0xFFFF)"
    and not_zero: "good x \<Longrightarrow> 0 < word_sum (before x @ [0, 0] @ after x)"
    and short: "good x \<Longrightarrow> length (before x @ [0, 0] @ after x) \<le> 131072"
begin

lemma word_sum_filled:
  assumes "good x"
  shows "word_sum (before x @ be_bytes 2 (field x) @ after x)
           = word_sum (before x @ [0, 0] @ after x) + unat (field x)"
proof -
  have "of_be (be_bytes 2 (field x)) = unat (field x)"
    by (rule of_be_be_bytes_exact) simp
  then have "256 * unat (ucast (drop_bit 8 (field x)) :: u8) + unat (ucast (field x) :: u8)
      = unat (field x)"
    by (simp only: be_bytes_2 of_be_pair)
  with even_before [OF assms] show ?thesis
    by (simp only: be_bytes_2 append_Cons append_Nil word_sum_append word_sum.simps) simp
qed

lemma verifies:
  assumes "good x"
  shows "ip_checksum (before x @ be_bytes 2 (field x) @ after x) = 0"
proof -
  let ?z = "before x @ [0, 0] @ after x"
  let ?p = "before x @ be_bytes 2 (field x) @ after x"
  have c: "unat (ip_checksum ?z) = 65535 - ones_sum (word_sum ?z)"
    by (rule ip_checksum_ones_sum [OF short [OF assms]])
  have "(word_sum ?z + unat (field x)) mod 65535 = 0"
    by (rule complement_divisible [OF c]) (use field_value [OF assms] in auto)
  moreover have "length ?p \<le> 131072" using short [OF assms] by simp
  ultimately show ?thesis
    using not_zero [OF assms] by (simp only: ip_checksum_zero_iff word_sum_filled [OF assms]) simp
qed

end

section \<open>Properties\<close>

text \<open>
  C21: The checksum loop, with its 32-bit accumulator and its folding of carries, computes the
  Internet checksum of RFC 1071, the complement of the one's complement sum of the 16-bit
  words, for data of up to 131072 octets; over data that ends in its own checksum field it
  gives zero exactly when the words add up to a multiple of 65535.
\<close>

lemma ip_checksum_rfc1071:
  assumes "length data \<le> 131072"
  shows "unat (ip_checksum data) = 65535 - ones_sum (word_sum data)
    \<and> (ip_checksum data = 0 \<longleftrightarrow> 0 < word_sum data \<and> word_sum data mod 65535 = 0)"
  using assms by (simp add: ip_checksum_ones_sum ip_checksum_zero_iff)

lemma ip_checksum_rfc1071_witness:
  "ip_checksum [0x45, 0, 0xBA, 0xFF] = 0 \<and> unat (ip_checksum [0x45, 0, 0xBA]) = 255"
  using ip_checksum_rfc1071 [of "[0x45, 0, 0xBA, 0xFF]"] ip_checksum_rfc1071 [of "[0x45, 0, 0xBA]"]
  by (simp add: ones_sum_def)

end
