(* ===== verification/RawPacket.thy ===== *)
theory RawPacket
  imports Checksum
begin

text \<open>
  The packet builders of \<open>src/transport/raw.rs\<close>: the IPv4 header and the UDP datagram with
  their checksums. The 16-bit additions wrap, as in the release profile; the lemmas show
  that they do not wrap for any payload the send path lets through.
\<close>

unbundle bit_operations_syntax

section \<open>The code\<close>

text \<open>The build target: operating system and byte order.\<close>

record build_target =
  bt_os :: target
  bt_big_endian :: bool

definition to_ne_bytes :: "build_target \<Rightarrow> u16 \<Rightarrow> bytes" where
  "to_ne_bytes t v = (if bt_big_endian t then be_bytes 2 v else rev (be_bytes 2 v))"

definition iphdr_u16_to_kernel :: "build_target \<Rightarrow> u16 \<Rightarrow> bytes" where
  "iphdr_u16_to_kernel t v =
     (if bt_os t = TargetMacos \<or> bt_os t = TargetBsd then to_ne_bytes t v else be_bytes 2 v)"

definition build_ipv4_header :: "build_target \<Rightarrow> ipv4 \<Rightarrow> ipv4 \<Rightarrow> u16 \<Rightarrow> u16 \<Rightarrow> bytes" where
  "build_ipv4_header t src dst payload_len identification =
     (let total_length = 20 + payload_len;
          hdr = [push_bit 4 4 OR 5, 0]
                @ iphdr_u16_to_kernel t total_length
                @ be_bytes 2 identification
                @ iphdr_u16_to_kernel t 0x4000
                @ [64, 17]
                @ [0, 0]
                @ octets src
                @ octets dst;
          csum = ip_checksum hdr
      in take 10 hdr @ be_bytes 2 csum @ drop 12 hdr)"

definition build_udp_datagram :: "ipv4 \<Rightarrow> ipv4 \<Rightarrow> u16 \<Rightarrow> u16 \<Rightarrow> bytes \<Rightarrow> bytes" where
  "build_udp_datagram src dst src_port dst_port payload =
     (let udp_len = 8 + of_nat (length payload) :: u16;
          pseudo = octets src @ octets dst @ [0, 17] @ be_bytes 2 udp_len
                   @ be_bytes 2 src_port @ be_bytes 2 dst_port @ be_bytes 2 udp_len
                   @ [0, 0] @ payload;
          csum0 = ip_checksum pseudo;
          csum = (if csum0 = 0 then 0xFFFF else csum0)
      in be_bytes 2 src_port @ be_bytes 2 dst_port @ be_bytes 2 udp_len
         @ be_bytes 2 csum @ payload)"

text \<open>\<open>u16::MAX - 20 - 8\<close>.\<close>

definition MAX_UDP_PAYLOAD :: nat where
  "MAX_UDP_PAYLOAD = 65535 - 20 - 8"

section \<open>Layout\<close>

lemma length_kernel [simp]: "length (iphdr_u16_to_kernel t v) = 2"
  by (simp add: iphdr_u16_to_kernel_def to_ne_bytes_def)

lemma kernel_network_order [layout]:
  "bt_os t \<noteq> TargetMacos \<Longrightarrow> bt_os t \<noteq> TargetBsd \<Longrightarrow> iphdr_u16_to_kernel t v = be_bytes 2 v"
  by (simp add: iphdr_u16_to_kernel_def)

text \<open>
  How the kernel of a target reads a 16-bit header field it is handed: those of the BSD family
  in the byte order of the host, all others in network order.
\<close>

definition kernel_reads :: "build_target \<Rightarrow> bytes \<Rightarrow> nat" where
  "kernel_reads t bs =
     (if bt_os t \<in> {TargetMacos, TargetBsd} \<and> \<not> bt_big_endian t then of_be (rev bs) else of_be bs)"

lemma kernel_reads_field: "kernel_reads t (iphdr_u16_to_kernel t v) = unat v"
  by (simp add: kernel_reads_def iphdr_u16_to_kernel_def to_ne_bytes_def of_be_be_bytes_exact
      del: be_bytes.simps)

text \<open>The bytes of the header before and after its checksum field.\<close>

definition ipv4_before :: "build_target \<Rightarrow> u16 \<Rightarrow> u16 \<Rightarrow> bytes" where
  "ipv4_before t payload_len identification =
     [0x45, 0] @ iphdr_u16_to_kernel t (20 + payload_len) @ be_bytes 2 identification
     @ iphdr_u16_to_kernel t 0x4000 @ [64, 17]"

definition ipv4_csum :: "build_target \<Rightarrow> ipv4 \<Rightarrow> ipv4 \<Rightarrow> u16 \<Rightarrow> u16 \<Rightarrow> u16" where
  "ipv4_csum t src dst len ident =
     ip_checksum (ipv4_before t len ident @ [0, 0] @ octets src @ octets dst)"

lemma length_ipv4_before [simp]: "length (ipv4_before t len ident) = 10"
  by (simp add: ipv4_before_def)

lemma ipv4_header_layout [layout]:
  "build_ipv4_header t src dst len ident
     = ipv4_before t len ident @ be_bytes 2 (ipv4_csum t src dst len ident)
       @ octets src @ octets dst"
proof -
  have v: "push_bit 4 4 OR 5 = (0x45 :: u8)" by (simp add: push_bit_eq_mult)
  show ?thesis
    by (simp add: build_ipv4_header_def Let_def ipv4_csum_def ipv4_before_def v)
qed

lemma length_ipv4_header [simp]: "length (build_ipv4_header t src dst len ident) = 20"
  by (simp add: ipv4_header_layout)

text \<open>The pseudo-header the receiver puts before the datagram (RFC 768), for any datagram.\<close>

definition udp_pseudo :: "ipv4 \<Rightarrow> ipv4 \<Rightarrow> nat \<Rightarrow> bytes" where
  "udp_pseudo src dst len = octets src @ octets dst @ [0, 17] @ be_bytes 2 (of_nat len :: u16)"

definition udp_before :: "ipv4 \<Rightarrow> ipv4 \<Rightarrow> u16 \<Rightarrow> u16 \<Rightarrow> nat \<Rightarrow> bytes" where
  "udp_before src dst sp dp len =
     udp_pseudo src dst (8 + len)
     @ be_bytes 2 sp @ be_bytes 2 dp @ be_bytes 2 (of_nat (8 + len) :: u16)"

definition udp_csum :: "ipv4 \<Rightarrow> ipv4 \<Rightarrow> u16 \<Rightarrow> u16 \<Rightarrow> bytes \<Rightarrow> u16" where
  "udp_csum src dst sp dp payload =
     (let c = ip_checksum (udp_before src dst sp dp (length payload) @ [0, 0] @ payload)
      in if c = 0 then 0xFFFF else c)"

lemma length_udp_before [simp]: "length (udp_before src dst sp dp len) = 18"
  by (simp add: udp_before_def udp_pseudo_def)

lemma udp_datagram_layout [layout]:
  "build_udp_datagram src dst sp dp payload
     = be_bytes 2 sp @ be_bytes 2 dp @ be_bytes 2 (of_nat (8 + length payload) :: u16)
       @ be_bytes 2 (udp_csum src dst sp dp payload) @ payload"
  by (simp add: build_udp_datagram_def udp_csum_def udp_before_def udp_pseudo_def Let_def
      del: be_bytes.simps)

lemma length_udp_datagram [simp]:
  "length (build_udp_datagram src dst sp dp payload) = 8 + length payload"
  by (simp add: udp_datagram_layout)

lemma udp_csum_nonzero: "udp_csum src dst sp dp payload \<noteq> 0"
  by (simp add: udp_csum_def Let_def)

section \<open>Both builders meet the checksum contract\<close>

lemma word_sum_pos: "even i \<Longrightarrow> i < length data \<Longrightarrow> data ! i \<noteq> 0 \<Longrightarrow> 0 < word_sum data"
proof (induction data arbitrary: i rule: word_sum.induct)
  case (2 a)
  then show ?case by (simp add: unat_gt_0)
next
  case (3 a b rest)
  show ?case
  proof (cases i)
    case 0
    with "3.prems" show ?thesis by (simp add: unat_gt_0)
  next
    case (Suc j)
    with "3.prems"(1) obtain k where i: "i = Suc (Suc k)" by (cases j) auto
    with "3.prems" have "0 < word_sum rest" by (intro "3.IH" [of k]) auto
    then show ?thesis by simp
  qed
qed simp

interpretation ipv4_hdr: checksum_field "\<lambda>_. True"
  "\<lambda>(t, src, dst, len, ident). ipv4_before t len ident"
  "\<lambda>(t, src, dst, len, ident). ipv4_csum t src dst len ident"
  "\<lambda>(t, src, dst, len, ident). octets src @ octets dst"
  by unfold_locales (auto simp: ipv4_csum_def ipv4_before_def)

interpretation udp_dgram: checksum_field
  "\<lambda>(src, dst, sp, dp, payload). length payload \<le> MAX_UDP_PAYLOAD"
  "\<lambda>(src, dst, sp, dp, payload). udp_before src dst sp dp (length payload)"
  "\<lambda>(src, dst, sp, dp, payload). udp_csum src dst sp dp payload"
  "\<lambda>(src, dst, sp, dp, payload). payload"
proof (unfold_locales, goal_cases)
  case (3 x)
  obtain src dst sp dp payload where x: "x = (src, dst, sp, dp, payload)" by (cases x) auto
  obtain a b c d where src: "src = Ipv4 a b c d" by (cases src) auto
  obtain e f g h where dst: "dst = Ipv4 e f g h" by (cases dst) auto
  show ?case
    by (simp add: x udp_before_def udp_pseudo_def src dst be_bytes_2)
qed (auto simp: udp_csum_def Let_def MAX_UDP_PAYLOAD_def split: if_splits)

end
