(* ===== verification/RetryLoop.thy ===== *)
theory RetryLoop
  imports Errors
begin

text \<open>
  The contract of the send loops of \<open>src/transport/unprivileged.rs\<close> and
  \<open>src/transport/raw.rs\<close>. Both call \<open>send_to\<close> until it succeeds or \<open>retries + 1\<close> calls
  failed with an error other than \<open>Interrupted\<close>; an interrupted call is repeated without
  spending the budget, so the loop need not return. \<open>attempt i\<close> is the operating system's
  answer to the \<open>i\<close>-th call.
\<close>

section \<open>Outcomes\<close>

type_synonym send_outcome = "(unit, io_error) result"

text \<open>
  What a loop returns: success, or the last error if there was one, and the number of
  \<open>send_to\<close> calls made so far. \<open>None\<close> is a loop that never returns.
\<close>

type_synonym loop_result = "(unit, io_error option) result \<times> nat"

definition interrupted :: "send_outcome \<Rightarrow> bool" where
  "interrupted r = (case r of Ok _ \<Rightarrow> False | Err e \<Rightarrow> io_kind e = Interrupted)"

text \<open>The calls in \<open>n..<m\<close> that were not interrupted, in order.\<close>

definition decisive :: "(nat \<Rightarrow> send_outcome) \<Rightarrow> nat \<Rightarrow> nat \<Rightarrow> send_outcome list" where
  "decisive attempt n m = filter (\<lambda>r. \<not> interrupted r) (map attempt [n..<m])"

lemma interrupted_simps [simp]:
  "\<not> interrupted (Ok u)" "interrupted (Err e) \<longleftrightarrow> io_kind e = Interrupted"
  by (simp_all add: interrupted_def)

lemma decisive_empty [simp]: "m \<le> n \<Longrightarrow> decisive attempt n m = []"
  by (simp add: decisive_def)

lemma decisive_step:
  "n < m \<Longrightarrow> decisive attempt n m
     = (if interrupted (attempt n) then [] else [attempt n]) @ decisive attempt (Suc n) m"
  by (simp add: decisive_def upt_conv_Cons)

text \<open>
  The specification of the result: the decisive calls of the run are all failures but
  perhaps the last, at most \<open>b\<close> of them; the loop succeeds when the last one did, and
  otherwise \<open>b\<close> calls failed and the error is the last of them.
\<close>

definition run_spec :: "nat \<Rightarrow> io_error option \<Rightarrow> send_outcome list \<Rightarrow> (unit, io_error option) result \<Rightarrow> bool"
where
  "run_spec b l hs r \<longleftrightarrow>
     length hs \<le> b
     \<and> (\<forall>h \<in> set (butlast hs). \<not> is_ok h)
     \<and> (case r of
          Ok _ \<Rightarrow> hs \<noteq> [] \<and> last hs = Ok ()
        | Err l' \<Rightarrow> length hs = b \<and> (if hs = [] then l' = l else (\<exists>e. last hs = Err e \<and> l' = Some e)))"

lemma run_spec_Ok [simp]: "0 < b \<Longrightarrow> run_spec b l [Ok ()] (Ok ())"
  by (simp add: run_spec_def)

lemma run_spec_0 [simp]: "run_spec 0 l [] (Err l)"
  by (simp add: run_spec_def)

lemma run_spec_Cons_Err:
  "run_spec b (Some e) hs r \<Longrightarrow> run_spec (Suc b) l (Err e # hs) r"
  by (cases r) (auto simp: run_spec_def split: if_splits)

text \<open>
  The same specification on the answers themselves, for the callers: a success is the last
  answer, with fewer than \<open>b\<close> failures before it; a failure is the last of \<open>b\<close> failures.
\<close>

definition attempts_spec :: "nat \<Rightarrow> send_outcome list \<Rightarrow> send_outcome \<Rightarrow> bool" where
  "attempts_spec b answers r \<longleftrightarrow>
     (let failures = filter (\<lambda>a. \<not> is_ok a \<and> \<not> interrupted a) answers in
      case r of
        Ok _ \<Rightarrow> answers \<noteq> [] \<and> last answers = Ok () \<and> (\<forall>a \<in> set (butlast answers). \<not> is_ok a)
          \<and> length failures < b
      | Err e \<Rightarrow> (\<forall>a \<in> set answers. \<not> is_ok a) \<and> length failures = b \<and> last failures = Err e)"

section \<open>The loop as a machine\<close>

text \<open>
  The loop between two of its turns, and the end of its run. \<open>Running n budget last_err\<close> has
  made \<open>n\<close> calls; \<open>Finished r n\<close> is the \<open>return\<close>, with the answer of the last call or, when
  the \<open>while\<close> is left, the last error.
\<close>

datatype retry_state =
    Running nat int "io_error option"
  | Finished "(unit, io_error option) result" nat

inductive retry_step :: "(nat \<Rightarrow> send_outcome) \<Rightarrow> retry_state \<Rightarrow> retry_state \<Rightarrow> bool"
  for attempt
where
  exhausted: "budget \<le> 0 \<Longrightarrow> retry_step attempt (Running n budget l) (Finished (Err l) n)"
| sent: "0 < budget \<Longrightarrow> attempt n = Ok ()
    \<Longrightarrow> retry_step attempt (Running n budget l) (Finished (Ok ()) (Suc n))"
| again: "0 < budget \<Longrightarrow> attempt n = Err e \<Longrightarrow> io_kind e = Interrupted
    \<Longrightarrow> retry_step attempt (Running n budget l) (Running (Suc n) budget l)"
| failed: "0 < budget \<Longrightarrow> attempt n = Err e \<Longrightarrow> io_kind e \<noteq> Interrupted
    \<Longrightarrow> retry_step attempt (Running n budget l) (Running (Suc n) (budget - 1) (Some e))"

inductive_cases retry_stepE: "retry_step attempt (Running n budget l) s"
inductive_simps retry_step_Finished [simp]: "retry_step attempt (Finished r n) s"

abbreviation retry_steps :: "(nat \<Rightarrow> send_outcome) \<Rightarrow> retry_state \<Rightarrow> retry_state \<Rightarrow> bool" where
  "retry_steps attempt \<equiv> (retry_step attempt)\<^sup>*\<^sup>*"

text \<open>The machine has one way to go in every state, and stops only when it is finished.\<close>

lemma retry_step_deterministic:
  "retry_step attempt s t \<Longrightarrow> retry_step attempt s t' \<Longrightarrow> t = t'"
  by (induction rule: retry_step.induct) (auto elim: retry_stepE)

lemma retry_step_progress: "\<exists>s. retry_step attempt (Running n budget l) s"
proof (cases "0 < budget")
  case True
  show ?thesis
  proof (cases "attempt n")
    case (Err e)
    with True show ?thesis by (cases "io_kind e = Interrupted") (auto intro: retry_step.intros)
  qed (use True in \<open>auto intro: retry_step.sent\<close>)
qed (auto simp: not_less intro: retry_step.exhausted)

lemma steps_again:
  "0 < budget \<Longrightarrow> attempt n = Err e \<Longrightarrow> io_kind e = Interrupted
    \<Longrightarrow> retry_steps attempt (Running (Suc n) budget l) s
    \<Longrightarrow> retry_steps attempt (Running n budget l) s"
  by (rule converse_rtranclp_into_rtranclp) (rule retry_step.again)

lemma steps_failed:
  "0 < budget \<Longrightarrow> attempt n = Err e \<Longrightarrow> io_kind e \<noteq> Interrupted
    \<Longrightarrow> retry_steps attempt (Running (Suc n) (budget - 1) (Some e)) s
    \<Longrightarrow> retry_steps attempt (Running n budget l) s"
  by (rule converse_rtranclp_into_rtranclp) (rule retry_step.failed)

lemma retry_steps_Finished: "retry_steps attempt (Finished r m) s \<Longrightarrow> s = Finished r m"
  by (erule converse_rtranclpE) auto

text \<open>
  What holds whenever the loop tests its condition: the calls made so far were not accepted,
  the budget and the decisive failures add up, and the last error is the last of them.
\<close>

definition retry_inv :: "(nat \<Rightarrow> send_outcome) \<Rightarrow> int \<Rightarrow> retry_state \<Rightarrow> bool" where
  "retry_inv attempt b s \<longleftrightarrow> (case s of
     Running n budget l \<Rightarrow>
       0 \<le> budget \<and> budget + int (length (decisive attempt 0 n)) = b
       \<and> (\<forall>i < n. attempt i \<noteq> Ok ())
       \<and> (case l of None \<Rightarrow> decisive attempt 0 n = []
                  | Some e \<Rightarrow> decisive attempt 0 n \<noteq> [] \<and> last (decisive attempt 0 n) = Err e)
   | Finished r n \<Rightarrow> True)"

lemma decisive_snoc:
  "n \<le> m \<Longrightarrow> decisive attempt n (Suc m)
     = decisive attempt n m @ (if interrupted (attempt m) then [] else [attempt m])"
  by (simp add: decisive_def)

lemma retry_inv_step: "retry_step attempt s t \<Longrightarrow> retry_inv attempt b s \<Longrightarrow> retry_inv attempt b t"
  by (induction rule: retry_step.induct)
    (auto simp: retry_inv_def decisive_snoc less_Suc_eq split: option.splits)

lemma retry_inv_reachable:
  "retry_steps attempt s t \<Longrightarrow> retry_inv attempt b s \<Longrightarrow> retry_inv attempt b t"
  by (induction rule: rtranclp_induct) (auto intro: retry_inv_step)

lemma retry_inv_start: "0 \<le> b \<Longrightarrow> retry_inv attempt b (Running 0 b None)"
  by (simp add: retry_inv_def)

lemma outcome_cases:
  fixes attempt :: "nat \<Rightarrow> send_outcome"
  obtains (sent) "attempt n = Ok ()"
  | (intr) e where "attempt n = Err e" "io_kind e = Interrupted"
  | (failed) e where "attempt n = Err e" "io_kind e \<noteq> Interrupted"
  by (cases "attempt n") auto

lemma success_later:
  fixes attempt :: "nat \<Rightarrow> send_outcome"
  shows "attempt n \<noteq> Ok () \<Longrightarrow>
    (\<exists>i. n \<le> i \<and> i < n + Suc k \<and> attempt i = Ok ())
      \<longleftrightarrow> (\<exists>i. Suc n \<le> i \<and> i < Suc n + k \<and> attempt i = Ok ())"
  by (auto simp: Suc_le_eq) (metis le_neq_implies_less, metis less_imp_le)

lemma decisive_Err:
  assumes "attempt n = Err e" and "n < m"
  shows "io_kind e = Interrupted \<Longrightarrow> decisive attempt n m = decisive attempt (Suc n) m"
    and "io_kind e \<noteq> Interrupted \<Longrightarrow> decisive attempt n m = Err e # decisive attempt (Suc n) m"
  using assms by (simp_all add: decisive_step)

text \<open>
  Once the calls before \<open>n + k\<close> hold a success or \<open>b\<close> failures, the machine ends, having
  made at most \<open>k\<close> calls, with the result the specification gives.
\<close>

lemma machine_finishes:
  assumes "(\<exists>i. n \<le> i \<and> i < n + k \<and> attempt i = Ok ()) \<or> b \<le> length (decisive attempt n (n + k))"
  shows "\<exists>r m. n \<le> m \<and> m \<le> n + k \<and> run_spec b l (decisive attempt n m) r
           \<and> retry_steps attempt (Running n (int b) l) (Finished r m)"
  using assms
proof (induction k arbitrary: n b l)
  case 0
  then have "b = 0" by auto
  then show ?case by (intro exI [of _ "Err l"] exI [of _ n]) (auto intro!: r_into_rtranclp retry_step.exhausted)
next
  case (Suc k)
  show ?case
  proof (cases "b = 0")
    case True
    then show ?thesis
      by (intro exI [of _ "Err l"] exI [of _ n]) (auto intro!: r_into_rtranclp retry_step.exhausted)
  next
    case False
    then have pos: "0 < int b" by simp
    show ?thesis
    proof (cases rule: outcome_cases [of attempt n])
      case sent
      then have "decisive attempt n (Suc n) = [Ok ()]" by (simp add: decisive_step)
      with sent pos False show ?thesis
        by (intro exI [of _ "Ok ()"] exI [of _ "Suc n"]) (simp add: retry_step.sent r_into_rtranclp)
    next
      case (intr e)
      have "(\<exists>i. Suc n \<le> i \<and> i < Suc n + k \<and> attempt i = Ok ())
          \<or> b \<le> length (decisive attempt (Suc n) (Suc n + k))"
        using Suc.prems intr decisive_Err [of attempt n e "n + Suc k"] success_later [of attempt n k] by simp
      from Suc.IH [OF this, of l] obtain r m where m: "Suc n \<le> m" "m \<le> Suc n + k"
        "run_spec b l (decisive attempt (Suc n) m) r"
        "retry_steps attempt (Running (Suc n) (int b) l) (Finished r m)" by blast
      with steps_again [OF pos intr m(4)] intr decisive_Err(1) [of attempt n e m] show ?thesis
        by (intro exI [of _ r] exI [of _ m]) simp
    next
      case (failed e)
      have "(\<exists>i. Suc n \<le> i \<and> i < Suc n + k \<and> attempt i = Ok ())
          \<or> b - 1 \<le> length (decisive attempt (Suc n) (Suc n + k))"
        using Suc.prems failed decisive_Err [of attempt n e "n + Suc k"] success_later [of attempt n k] by auto
      from Suc.IH [OF this, of "Some e"] obtain r m where m: "Suc n \<le> m" "m \<le> Suc n + k"
        "run_spec (b - 1) (Some e) (decisive attempt (Suc n) m) r"
        "retry_steps attempt (Running (Suc n) (int b - 1) (Some e)) (Finished r m)"
        using False by (auto simp: of_nat_diff)
      then have "run_spec b l (decisive attempt n m) r"
        using run_spec_Cons_Err [OF m(3), of l] False failed decisive_Err [of attempt n e m] by simp
      with m steps_failed [OF pos failed m(4)] show ?thesis
        by (intro exI [of _ r] exI [of _ m]) simp
    qed
  qed
qed

text \<open>What a loop returns from a state of the machine.\<close>

definition outcome ::
  "(nat \<Rightarrow> int \<Rightarrow> io_error option \<Rightarrow> loop_result option) \<Rightarrow> retry_state \<Rightarrow> loop_result option"
where
  "outcome loop s = (case s of
     Running n budget l \<Rightarrow> loop n budget l
   | Finished r n \<Rightarrow> Some (r, n))"

lemma outcome_simps [simp]:
  "outcome loop (Running n budget l) = loop n budget l"
  "outcome loop (Finished r n) = Some (r, n)"
  by (simp_all add: outcome_def)

section \<open>The interface\<close>

locale retrying =
  fixes attempt :: "nat \<Rightarrow> send_outcome"
    and loop :: "nat \<Rightarrow> int \<Rightarrow> io_error option \<Rightarrow> loop_result option"
  assumes loop_done: "budget \<le> 0 \<Longrightarrow> loop n budget l = Some (Err l, n)"
    and loop_sent: "0 < budget \<Longrightarrow> attempt n = Ok () \<Longrightarrow> loop n budget l = Some (Ok (), Suc n)"
    and loop_interrupted: "0 < budget \<Longrightarrow> attempt n = Err e \<Longrightarrow> io_kind e = Interrupted
      \<Longrightarrow> loop n budget l = loop (Suc n) budget l"
    and loop_failed: "0 < budget \<Longrightarrow> attempt n = Err e \<Longrightarrow> io_kind e \<noteq> Interrupted
      \<Longrightarrow> loop n budget l = loop (Suc n) (budget - 1) (Some e)"
    and loop_starved: "0 < budget \<Longrightarrow> (\<And>i. n \<le> i \<Longrightarrow> interrupted (attempt i))
      \<Longrightarrow> loop n budget l = None"
begin

text \<open>The loop and the machine agree: a step keeps what the loop returns.\<close>

lemma outcome_step: "retry_step attempt s t \<Longrightarrow> outcome loop t = outcome loop s"
  by (induction rule: retry_step.induct)
    (auto simp: loop_done loop_sent loop_interrupted loop_failed)

lemma outcome_steps: "retry_steps attempt s t \<Longrightarrow> outcome loop t = outcome loop s"
  by (induction rule: rtranclp_induct) (auto simp: outcome_step)

lemma steps_loop:
  "retry_steps attempt (Running n budget l) (Running n' budget' l')
     \<Longrightarrow> loop n' budget' l' = loop n budget l"
  by (drule outcome_steps) simp

lemma steps_finished:
  "retry_steps attempt (Running n budget l) (Finished r m) \<Longrightarrow> loop n budget l = Some (r, m)"
  by (drule outcome_steps) simp

text \<open>So the loop returns what the machine reaches.\<close>

lemma returns:
  assumes "(\<exists>i. n \<le> i \<and> i < n + k \<and> attempt i = Ok ()) \<or> b \<le> length (decisive attempt n (n + k))"
  shows "\<exists>r m. loop n (int b) l = Some (r, m) \<and> n \<le> m \<and> m \<le> n + k
           \<and> run_spec b l (decisive attempt n m) r
           \<and> retry_steps attempt (Running n (int b) l) (Finished r m)"
  using machine_finishes [OF assms, of l] steps_finished by blast

text \<open>
  Otherwise it never returns: no success and fewer than \<open>b\<close> failures among all calls.
\<close>

lemma diverges:
  assumes "0 < b" and "\<And>i. n \<le> i \<Longrightarrow> attempt i \<noteq> Ok ()"
    and "\<And>m. length (decisive attempt n m) < b"
  shows "loop n (int b) l = None"
  using assms
proof (induction b arbitrary: n l)
  case (Suc b)
  show ?case
  proof (cases "\<exists>i. n \<le> i \<and> \<not> interrupted (attempt i)")
    case False
    then show ?thesis by (intro loop_starved) auto
  next
    case True
    then obtain d where "\<not> interrupted (attempt (n + d))" by (metis le_iff_add)
    with Suc.prems show ?thesis
    proof (induction d arbitrary: n l rule: less_induct)
      case (less d)
      show ?case
      proof (cases rule: outcome_cases [of attempt n])
        case sent
        with less.prems(2) [of n] show ?thesis by simp
      next
        case (intr e)
        then obtain d' where d': "d = Suc d'" using less.prems(4) by (cases d) auto
        have "length (decisive attempt (Suc n) m) < Suc b" for m
          using intr less.prems(3) [of m] by (cases "n < m") (simp_all add: decisive_Err)
        then have "loop (Suc n) (int (Suc b)) l = None"
          using less.prems d' by (intro less.IH [of d']) auto
        with intr show ?thesis by (simp add: loop_interrupted)
      next
        case (failed e)
        have lt: "length (decisive attempt (Suc n) m) < b" if "0 < b" for m
          using that failed less.prems(3) [of m] by (cases "n < m") (simp_all add: decisive_Err)
        have "0 < b"
          using failed less.prems(3) [of "Suc n"] by (simp add: decisive_step)
        then have "loop (Suc n) (int b) (Some e) = None"
          using lt less.prems(2) by (intro Suc.IH) auto
        with failed show ?thesis by (simp add: loop_failed)
      qed
    qed
  qed
qed simp

text \<open>A run that returns has met a success or enough failures, so its result is as specified.\<close>

lemma returned_enough:
  assumes "loop n (int b) l = Some (r, m)"
  shows "\<exists>k. (\<exists>i. n \<le> i \<and> i < n + k \<and> attempt i = Ok ())
    \<or> b \<le> length (decisive attempt n (n + k))"
proof (cases "b = 0 \<or> (\<exists>i. n \<le> i \<and> attempt i = Ok ()) \<or> (\<exists>m. b \<le> length (decisive attempt n m))")
  case True
  then consider "b = 0" | i where "n \<le> i" "attempt i = Ok ()"
    | m where "b \<le> length (decisive attempt n m)" "n \<le> m"
    by (metis decisive_empty le_zero_eq list.size(3) nat_le_linear)
  then show ?thesis
  proof cases
    case (2 i)
    then show ?thesis by (intro exI [of _ "Suc (i - n)"]) auto
  next
    case (3 m)
    then show ?thesis by (intro exI [of _ "m - n"]) simp
  qed auto
next
  case False
  then have "loop n (int b) l = None"
  proof (intro diverges)
    show "attempt i \<noteq> Ok ()" if "n \<le> i" for i using False that by blast
    show "length (decisive attempt n m) < b" for m using False by (simp add: not_le)
  qed simp
  with assms show ?thesis by simp
qed

lemma result_spec:
  assumes "loop n (int b) l = Some (r, m)"
  shows "n \<le> m \<and> run_spec b l (decisive attempt n m) r"
proof -
  from returned_enough [OF assms] obtain k where
    "(\<exists>i. n \<le> i \<and> i < n + k \<and> attempt i = Ok ()) \<or> b \<le> length (decisive attempt n (n + k))" by blast
  from returns [OF this, of l] assms show ?thesis by auto
qed

text \<open>The loop returns exactly what the machine reaches.\<close>

lemma loop_runs:
  "loop n (int b) l = Some (r, m) \<longleftrightarrow> retry_steps attempt (Running n (int b) l) (Finished r m)"
proof
  assume ret: "loop n (int b) l = Some (r, m)"
  from returned_enough [OF this] obtain k where
    "(\<exists>i. n \<le> i \<and> i < n + k \<and> attempt i = Ok ()) \<or> b \<le> length (decisive attempt n (n + k))" by blast
  from returns [OF this, of l] ret
  show "retry_steps attempt (Running n (int b) l) (Finished r m)" by auto
qed (rule steps_finished)

text \<open>When the loop runs for ever, and what a returned result says in terms of the calls.\<close>

lemma none_iff:
  assumes "0 < b"
  shows "loop n (int b) l = None \<longleftrightarrow>
    (\<forall>i \<ge> n. attempt i \<noteq> Ok ()) \<and> (\<forall>m. length (decisive attempt n m) < b)"
proof
  assume none: "loop n (int b) l = None"
  show "(\<forall>i \<ge> n. attempt i \<noteq> Ok ()) \<and> (\<forall>m. length (decisive attempt n m) < b)"
  proof (intro conjI allI impI)
    fix i assume "n \<le> i"
    show "attempt i \<noteq> Ok ()"
    proof
      assume "attempt i = Ok ()"
      with \<open>n \<le> i\<close> have "\<exists>j. n \<le> j \<and> j < n + Suc (i - n) \<and> attempt j = Ok ()"
        by (intro exI [of _ i]) auto
      with returns [of n "Suc (i - n)" b l] none show False by auto
    qed
  next
    fix m
    show "length (decisive attempt n m) < b"
    proof (rule ccontr)
      assume f: "\<not> length (decisive attempt n m) < b"
      then have "n \<le> m" using assms by (cases "n \<le> m") auto
      with f have "b \<le> length (decisive attempt n (n + (m - n)))" by simp
      with returns [of n "m - n" b l] none show False by auto
    qed
  qed
next
  assume "(\<forall>i \<ge> n. attempt i \<noteq> Ok ()) \<and> (\<forall>m. length (decisive attempt n m) < b)"
  with assms show "loop n (int b) l = None" by (intro diverges) auto
qed

lemma decisive_mem: "h \<in> set (decisive attempt n m) \<longleftrightarrow>
    (\<exists>i. n \<le> i \<and> i < m \<and> attempt i = h \<and> \<not> interrupted h)"
  by (auto simp: decisive_def)

text \<open>A call that succeeds ends the loop: no call before the last one succeeded.\<close>

lemma stops_at_success:
  assumes "loop n (int b) l = Some (r, m)" and "n \<le> i" "Suc i < m"
  shows "attempt i \<noteq> Ok ()"
proof
  assume "attempt i = Ok ()"
  with assms have "\<exists>j. n \<le> j \<and> j < n + (Suc i - n) \<and> attempt j = Ok ()"
    by (intro exI [of _ i]) auto
  with returns [of n "Suc i - n" b l] assms show False by auto
qed

lemma succeeds_iff:
  assumes "run_spec b l hs r"
  shows "is_ok r \<longleftrightarrow> Ok () \<in> set hs"
proof (cases r)
  case (Ok u)
  with assms show ?thesis by (auto simp: run_spec_def dest: last_in_set)
next
  case (Err l')
  show ?thesis
  proof (cases hs rule: rev_cases)
    case (snoc hs' h)
    with assms Err show ?thesis by (auto simp: run_spec_def)
  qed (use Err in simp)
qed

lemma last_call:
  assumes "loop n (int b) l = Some (r, m)"
  shows "(\<forall>i. n \<le> i \<and> Suc i < m \<longrightarrow> attempt i \<noteq> Ok ())
    \<and> (is_ok r \<longleftrightarrow> (\<exists>i. n \<le> i \<and> i < m \<and> attempt i = Ok ()))
    \<and> length (decisive attempt n m) \<le> b
    \<and> (\<not> is_ok r \<longrightarrow> length (decisive attempt n m) = b)"
proof -
  from result_spec [OF assms] have s: "run_spec b l (decisive attempt n m) r" by simp
  from succeeds_iff [OF s] show ?thesis
    using stops_at_success [OF assms] s by (cases r) (auto simp: run_spec_def decisive_mem)
qed

lemma decisive_failures:
  "(\<forall>i. n \<le> i \<and> i < m \<longrightarrow> attempt i \<noteq> Ok ()) \<Longrightarrow>
     filter (\<lambda>a. \<not> is_ok a \<and> \<not> interrupted a) (map attempt [n..<m]) = decisive attempt n m"
  unfolding decisive_def
proof (rule filter_cong [OF refl])
  fix x assume "\<forall>i. n \<le> i \<and> i < m \<longrightarrow> attempt i \<noteq> Ok ()" "x \<in> set (map attempt [n..<m])"
  then have "x \<noteq> Ok ()" by auto
  then show "(\<not> is_ok x \<and> \<not> interrupted x) = (\<not> interrupted x)" by (cases x) auto
qed

lemma attempts:
  assumes "loop n (int b) l = Some (r, m)" and "0 < b"
  shows "\<exists>a. attempts_spec b (map attempt [n..<m]) a
    \<and> r = (case a of Ok _ \<Rightarrow> Ok () | Err e \<Rightarrow> Err (Some e))"
proof -
  from result_spec [OF assms(1)] have nm: "n \<le> m"
    and s: "run_spec b l (decisive attempt n m) r" by auto
  note c = last_call [OF assms(1)]
  show ?thesis
  proof (cases r)
    case (Ok u)
    then obtain i where i: "n \<le> i" "i < m" "attempt i = Ok ()" using c by auto
    with c have "m = Suc i" by (metis Suc_lessI)
    then have m: "map attempt [n..<m] = map attempt [n..<i] @ [Ok ()]" using i by simp
    have before: "\<forall>j. n \<le> j \<and> j < i \<longrightarrow> attempt j \<noteq> Ok ()" using c \<open>m = Suc i\<close> by auto
    have "length (decisive attempt n i) < b"
      using c i \<open>m = Suc i\<close> by (simp add: decisive_snoc)
    moreover have "\<not> is_ok (attempt j)" if "n \<le> j" "j < i" for j
      using before that by (cases "attempt j") auto
    ultimately show ?thesis
      using Ok decisive_failures [OF before]
      by (intro exI [of _ "Ok ()"]) (auto simp: attempts_spec_def m Let_def)
  next
    case (Err l')
    then have none: "\<forall>i. n \<le> i \<and> i < m \<longrightarrow> attempt i \<noteq> Ok ()" using c by auto
    have "\<not> is_ok (attempt j)" if "n \<le> j" "j < m" for j
      using none that by (cases "attempt j") auto
    moreover obtain e where "last (decisive attempt n m) = Err e" "l' = Some e"
      "length (decisive attempt n m) = b"
      using s Err assms(2) by (auto simp: run_spec_def split: if_splits)
    ultimately show ?thesis
      using Err decisive_failures [OF none]
      by (intro exI [of _ "Err e"]) (auto simp: attempts_spec_def Let_def)
  qed
qed

text \<open>If calls are answered without interruption again and again, the loop returns.\<close>

lemma fair_returns:
  assumes "\<And>i. \<exists>j \<ge> i. \<not> interrupted (attempt j)"
  shows "loop n (int b) l \<noteq> None"
proof (cases "b = 0")
  case True
  then show ?thesis by (simp add: loop_done)
next
  case False
  have "(\<exists>i \<ge> n. attempt i = Ok ()) \<or> (\<exists>m \<ge> n. b' \<le> length (decisive attempt n m))" for b'
  proof (induction b')
    case (Suc b')
    then show ?case
    proof
      assume "\<exists>m \<ge> n. b' \<le> length (decisive attempt n m)"
      then obtain m where m: "n \<le> m" "b' \<le> length (decisive attempt n m)" by blast
      obtain j where j: "m \<le> j" "\<not> interrupted (attempt j)" using assms by blast
      have grow: "length (decisive attempt n m) \<le> length (decisive attempt n (m + d))" for d
        using m(1) by (induction d) (simp_all add: decisive_snoc le_Suc_eq)
      have "b' \<le> length (decisive attempt n j)"
        using m(2) grow [of "j - m"] j(1) by simp
      with j m(1) have "Suc b' \<le> length (decisive attempt n (Suc j))"
        by (simp add: decisive_snoc)
      then show ?thesis using j m(1) by (meson le_SucI le_trans)
    qed blast
  qed auto
  with False none_iff [of b n l] show ?thesis by (metis neq0_conv not_le)
qed

end

end
