(* ===== verification/RawTransport.thy ===== *)
theory RawTransport
  imports RawPacket RetryLoop
begin

text \<open>
  The send path of \<open>src/transport/raw.rs\<close>. The operating system and the random source are
  the record \<open>raw_os\<close>: opening the raw socket, setting \<open>IP_HDRINCL\<close>, the answer to the
  \<open>i\<close>-th \<open>send_to\<close>, the \<open>i\<close>-th random identification and the ephemeral port drawn.
\<close>

section \<open>The code\<close>

record raw_os =
  ros_open :: "(unit, io_error) result"
  ros_set_hdrincl :: "(unit, io_error) result"
  ros_send_to :: "nat \<Rightarrow> bytes \<Rightarrow> socket_addr \<Rightarrow> send_outcome"
  ros_ident :: "nat \<Rightarrow> u16"
  ros_random_range :: "nat \<Rightarrow> nat \<Rightarrow> nat"

definition classify_raw_open :: "build_target \<Rightarrow> io_error \<Rightarrow> error" where
  "classify_raw_open t err =
     (case raw_os_error err of
        Some EPERM \<Rightarrow> RawSocketDenied (platform_current (bt_os t)) err
      | Some EACCES \<Rightarrow> RawSocketDenied (platform_current (bt_os t)) err
      | _ \<Rightarrow> Other err)"

definition classify_raw_send :: "io_error \<Rightarrow> nat \<Rightarrow> error" where
  "classify_raw_send err payload_len =
     (let by_kind = (case io_kind err of
            HostUnreachable \<Rightarrow> Routing err
          | NetworkUnreachable \<Rightarrow> Routing err
          | AddrNotAvailable \<Rightarrow> Routing err
          | _ \<Rightarrow> Other err) in
      case raw_os_error err of
        Some EMSGSIZE \<Rightarrow> PayloadExceedsMtu payload_len err
      | Some EHOSTUNREACH \<Rightarrow> Routing err
      | Some ENETUNREACH \<Rightarrow> Routing err
      | Some EADDRNOTAVAIL \<Rightarrow> Routing err
      | Some EACCES \<Rightarrow> Routing err
      | Some EPERM \<Rightarrow> Routing err
      | _ \<Rightarrow> by_kind)"

definition pick_ephemeral_port :: "raw_os \<Rightarrow> u16" where
  "pick_ephemeral_port os = of_nat (ros_random_range os 49152 65535)"

text \<open>The packet of the \<open>n\<close>-th attempt: a fresh header before the one datagram.\<close>

definition raw_packet :: "build_target \<Rightarrow> raw_os \<Rightarrow> ipv4 \<Rightarrow> socket_addr \<Rightarrow> bytes \<Rightarrow> nat \<Rightarrow> bytes" where
  "raw_packet t os src dst udp n =
     build_ipv4_header t src (sa_ip dst) (of_nat (length udp)) (ros_ident os n) @ udp"

partial_function (option) raw_loop ::
  "build_target \<Rightarrow> raw_os \<Rightarrow> ipv4 \<Rightarrow> socket_addr \<Rightarrow> bytes \<Rightarrow> nat \<Rightarrow> int \<Rightarrow> io_error option
    \<Rightarrow> loop_result option"
where
  "raw_loop t os src dst udp n budget last_err =
     (if 0 < budget then
        (case ros_send_to os n (raw_packet t os src dst udp n) dst of
           Ok _ \<Rightarrow> Some (Ok (), Suc n)
         | Err e \<Rightarrow>
             if io_kind e = Interrupted then raw_loop t os src dst udp (Suc n) budget last_err
             else raw_loop t os src dst udp (Suc n) (budget - 1) (Some e))
      else Some (Err last_err, n))"

text \<open>
  \<open>send_spoofed\<close>: the result, and the packets handed to \<open>send_to\<close> in order. Two versions
  exist in the source: Linux and macOS have the send path, other targets only an error.
\<close>

definition send_spoofed ::
  "build_target \<Rightarrow> raw_os \<Rightarrow> socket_addr \<Rightarrow> ipv4 \<Rightarrow> u16 option \<Rightarrow> u32 \<Rightarrow> u8 \<Rightarrow> bytes
    \<Rightarrow> ((unit, error) result \<times> bytes list) option"
where
  "send_spoofed t os dst src src_port timeout retries payload =
     (if bt_os t \<noteq> TargetLinux \<and> bt_os t \<noteq> TargetMacos then
        Some (Err (Unsupported
          (lit ''--src-addr is not supported on this platform; only Linux and macOS/BSD are supported'')),
          [])
      else if MAX_UDP_PAYLOAD < length payload then
        Some (Err (Other (io_error_other
          (lit ''SNMP payload '' @ dec (length payload)
           @ lit '' bytes exceeds IPv4/UDP single-datagram max '' @ dec MAX_UDP_PAYLOAD))), [])
      else (case ros_open os of
        Err e \<Rightarrow> Some (Err (classify_raw_open t e), [])
      | Ok _ \<Rightarrow> (case ros_set_hdrincl os of
          Err e \<Rightarrow> Some (Err (classify_raw_open t e), [])
        | Ok _ \<Rightarrow>
            let chosen_src_port = (case src_port of Some p \<Rightarrow> p | None \<Rightarrow> pick_ephemeral_port os);
                udp = build_udp_datagram src (sa_ip dst) chosen_src_port (sa_port dst) payload
            in map_option
                 (\<lambda>(r, m).
                   ((case r of
                       Ok _ \<Rightarrow> Ok ()
                     | Err last_err \<Rightarrow>
                         Err (classify_raw_send
                           (case last_err of
                              Some e \<Rightarrow> e
                            | None \<Rightarrow> io_error_other (lit ''raw send_to failed without an OS error''))
                           (length payload))),
                    map (raw_packet t os src dst udp) [0..<m]))
                 (raw_loop t os src dst udp 0 (int (unat retries) + 1) None))))"

section \<open>The loop meets the retry contract\<close>

lemma raw_loop_decisive:
  assumes "raw_loop t os src dst udp n budget l = Some r"
  shows "0 < budget
    \<longrightarrow> (\<exists>i \<ge> n. \<not> interrupted (ros_send_to os i (raw_packet t os src dst udp i) dst))"
proof (rule raw_loop.raw_induct [OF _ assms], goal_cases)
  case (1 f t os src dst udp n budget l r)
  show ?case
  proof (cases "interrupted (ros_send_to os n (raw_packet t os src dst udp n) dst)")
    case True
    then obtain e where "ros_send_to os n (raw_packet t os src dst udp n) dst = Err e"
        "io_kind e = Interrupted"
      by (cases "ros_send_to os n (raw_packet t os src dst udp n) dst") auto
    with 1(2) have "0 < budget \<longrightarrow> f t os src dst udp (Suc n) budget l = Some r" by auto
    with 1(1) show ?thesis by (meson Suc_leD)
  qed auto
qed

interpretation raw: retrying "\<lambda>i. ros_send_to os i (raw_packet t os src dst udp i) dst"
    "raw_loop t os src dst udp"
  for t os src dst udp
proof unfold_locales
  fix budget n l e
  let ?a = "ros_send_to os n (raw_packet t os src dst udp n) dst"
  show "budget \<le> 0 \<Longrightarrow> raw_loop t os src dst udp n budget l = Some (Err l, n)"
    by (subst raw_loop.simps) simp
  show "0 < budget \<Longrightarrow> ?a = Ok () \<Longrightarrow> raw_loop t os src dst udp n budget l = Some (Ok (), Suc n)"
    by (subst raw_loop.simps) simp
  show "0 < budget \<Longrightarrow> ?a = Err e \<Longrightarrow> io_kind e = Interrupted
      \<Longrightarrow> raw_loop t os src dst udp n budget l = raw_loop t os src dst udp (Suc n) budget l"
    by (subst raw_loop.simps) simp
  show "0 < budget \<Longrightarrow> ?a = Err e \<Longrightarrow> io_kind e \<noteq> Interrupted
      \<Longrightarrow> raw_loop t os src dst udp n budget l
          = raw_loop t os src dst udp (Suc n) (budget - 1) (Some e)"
    by (subst raw_loop.simps) simp
  show "0 < budget
      \<Longrightarrow> (\<And>i. n \<le> i \<Longrightarrow> interrupted (ros_send_to os i (raw_packet t os src dst udp i) dst))
      \<Longrightarrow> raw_loop t os src dst udp n budget l = None"
    using raw_loop_decisive [of t os src dst udp n budget l] by (metis not_Some_eq)
qed

section \<open>Error classification\<close>

lemma classify_raw_send_not_denied: "classify_raw_send e n \<noteq> RawSocketDenied p u"
  by (auto simp: classify_raw_send_def Let_def split: option.splits errno.splits io_kind.splits)

lemma classify_raw_send_not_usage: "classify_raw_send e n \<noteq> Usage m"
  by (auto simp: classify_raw_send_def Let_def split: option.splits errno.splits io_kind.splits)

lemma classify_raw_open_cases:
  "classify_raw_open t e =
     (if raw_os_error e = Some EPERM \<or> raw_os_error e = Some EACCES
      then RawSocketDenied (platform_current (bt_os t)) e else Other e)"
  by (auto simp: classify_raw_open_def split: option.splits errno.splits)


lemma send_spoofed_fair:
  assumes "\<And>P i. \<exists>j \<ge> i. \<not> interrupted (ros_send_to os j (P j) dst)"
  shows "send_spoofed t os dst src src_port timeout retries payload \<noteq> None"
proof -
  have "raw_loop t os src dst udp 0 (int (unat retries) + 1) None \<noteq> None" for udp
    using raw.fair_returns [of os t src dst udp 0 "unat retries + 1" None] assms
    by (simp add: add.commute)
  then show ?thesis
    by (auto simp: send_spoofed_def Let_def split: result.splits)
qed

section \<open>Properties\<close>

text \<open>The result of the transport from the result of its loop, and the two ways a call can go.\<close>

definition raw_report :: "nat \<Rightarrow> (unit, io_error option) result \<Rightarrow> (unit, error) result" where
  "raw_report payload_len r =
     (case r of
        Ok _ \<Rightarrow> Ok ()
      | Err last_err \<Rightarrow>
          Err (classify_raw_send
            (case last_err of
               Some e \<Rightarrow> e
             | None \<Rightarrow> io_error_other (lit ''raw send_to failed without an OS error''))
            payload_len))"

lemma send_spoofed_cases:
  obtains (early) e where "send_spoofed t os dst src src_port timeout retries payload = Some (Err e, [])"
  | (sending) port where "length payload \<le> MAX_UDP_PAYLOAD"
      and "port = (case src_port of Some q \<Rightarrow> q | None \<Rightarrow> pick_ephemeral_port os)"
      and "send_spoofed t os dst src src_port timeout retries payload
        = map_option (\<lambda>(r, m). (raw_report (length payload) r,
            map (raw_packet t os src dst
              (build_udp_datagram src (sa_ip dst) port (sa_port dst) payload)) [0..<m]))
          (raw_loop t os src dst (build_udp_datagram src (sa_ip dst) port (sa_port dst) payload)
             0 (int (unat retries) + 1) None)"
proof (cases "bt_os t \<noteq> TargetLinux \<and> bt_os t \<noteq> TargetMacos")
  case True
  then have "send_spoofed t os dst src src_port timeout retries payload = Some (Err (Unsupported
      (lit ''--src-addr is not supported on this platform; only Linux and macOS/BSD are supported'')), [])"
    by (simp add: send_spoofed_def)
  then show ?thesis by (rule early)
next
  case os: False
  show ?thesis
  proof (cases "MAX_UDP_PAYLOAD < length payload")
    case True
    with os obtain e where
      "send_spoofed t os dst src src_port timeout retries payload = Some (Err e, [])"
      by (auto simp: send_spoofed_def)
    then show ?thesis by (rule early)
  next
    case len: False
    show ?thesis
    proof (cases "ros_open os = Ok () \<and> ros_set_hdrincl os = Ok ()")
      case True
      with os len show ?thesis
        by (intro sending [of "case src_port of Some p \<Rightarrow> p | None \<Rightarrow> pick_ephemeral_port os"])
          (auto simp: send_spoofed_def Let_def raw_report_def)
    next
      case False
      then obtain e where "send_spoofed t os dst src src_port timeout retries payload
          = Some (Err (classify_raw_open t e), [])"
        using os len
        by (cases "ros_open os"; cases "ros_set_hdrincl os") (auto simp: send_spoofed_def)
      then show ?thesis by (rule early)
    qed
  qed
qed

lemma send_spoofed_sent:
  assumes "send_spoofed t os dst src src_port timeout retries payload = Some (r, sent)"
    and "p \<in> set sent"
  obtains ident port where "p = build_ipv4_header t src (sa_ip dst) (of_nat (8 + length payload)) ident
      @ build_udp_datagram src (sa_ip dst) port (sa_port dst) payload"
    and "length payload \<le> MAX_UDP_PAYLOAD"
    and "port = (case src_port of Some q \<Rightarrow> q | None \<Rightarrow> pick_ephemeral_port os)"
proof (rule send_spoofed_cases)
  fix e assume "send_spoofed t os dst src src_port timeout retries payload = Some (Err e, [])"
  with assms show thesis by simp
next
  fix port
  assume "length payload \<le> MAX_UDP_PAYLOAD"
    "port = (case src_port of Some q \<Rightarrow> q | None \<Rightarrow> pick_ephemeral_port os)"
    "send_spoofed t os dst src src_port timeout retries payload
        = map_option (\<lambda>(r, m). (raw_report (length payload) r,
            map (raw_packet t os src dst
              (build_udp_datagram src (sa_ip dst) port (sa_port dst) payload)) [0..<m]))
          (raw_loop t os src dst (build_udp_datagram src (sa_ip dst) port (sa_port dst) payload)
             0 (int (unat retries) + 1) None)"
  with assms obtain n where "p = raw_packet t os src dst
      (build_udp_datagram src (sa_ip dst) port (sa_port dst) payload) n"
    by auto
  then show thesis
    using \<open>length payload \<le> MAX_UDP_PAYLOAD\<close> \<open>port = (case src_port of Some q \<Rightarrow> q | None \<Rightarrow> pick_ephemeral_port os)\<close>
    by (intro that [of "ros_ident os n" port]) (simp_all add: raw_packet_def)
qed

lemma header_parts:
  assumes "p = build_ipv4_header t src dst len ident @ udp"
  shows "take 20 p = build_ipv4_header t src dst len ident" and "drop 20 p = udp"
    and "take 4 (drop 12 p) = octets src" and "take 4 (drop 16 p) = octets dst"
  using assms by (simp_all add: ipv4_header_layout)

lemma header_verifies: "ip_checksum (build_ipv4_header t src dst len ident) = 0"
  using ipv4_hdr.verifies [of "(t, src, dst, len, ident)"] by (simp add: ipv4_header_layout)

lemma datagram_verifies:
  "length payload \<le> MAX_UDP_PAYLOAD \<Longrightarrow>
   ip_checksum (udp_pseudo src dst (8 + length payload) @ build_udp_datagram src dst sp dp payload) = 0"
  using udp_dgram.verifies [of "(src, dst, sp, dp, payload)"]
  by (simp add: udp_datagram_layout udp_before_def)

text \<open>
  C4: Every packet the spoofing transport hands to the kernel carries the payload after 28
  bytes of headers, names the spoofed source and the destination in its IPv4 header, and passes
  the receiver's two checksum tests: over the IPv4 header, and over the UDP pseudo-header made
  from the spoofed source together with the datagram.
\<close>

lemma spoofed_packets_verify:
  assumes "send_spoofed t os dst src src_port timeout retries payload = Some (r, sent)"
    and "p \<in> set sent"
  shows "drop 28 p = payload \<and> length p = 28 + length payload \<and> length p \<le> 65535
     \<and> take 4 (drop 12 p) = octets src \<and> take 4 (drop 16 p) = octets (sa_ip dst)
     \<and> ip_checksum (take 20 p) = 0
     \<and> ip_checksum (udp_pseudo src (sa_ip dst) (length p - 20) @ drop 20 p) = 0"
proof (rule send_spoofed_sent [OF assms])
  fix ident port
  let ?udp = "build_udp_datagram src (sa_ip dst) port (sa_port dst) payload"
  assume p: "p = build_ipv4_header t src (sa_ip dst) (of_nat (8 + length payload)) ident @ ?udp"
    and len: "length payload \<le> MAX_UDP_PAYLOAD"
  note parts = header_parts [OF p]
  have "drop 28 p = drop 8 (drop 20 p)" by simp
  also have "\<dots> = payload" by (simp only: parts) (simp add: udp_datagram_layout)
  finally have "drop 28 p = payload" .
  moreover have l: "length p = 28 + length payload" by (simp add: p)
  moreover have "length p \<le> 65535" using l len by (simp add: MAX_UDP_PAYLOAD_def)
  moreover have "ip_checksum (take 20 p) = 0" by (simp only: parts header_verifies)
  moreover have "ip_checksum (udp_pseudo src (sa_ip dst) (length p - 20) @ drop 20 p) = 0"
    using datagram_verifies [OF len] by (simp add: parts(2) l)
  ultimately show ?thesis using parts by simp
qed

text \<open>A Linux host whose raw socket accepts the first packet.\<close>

definition sample_raw_os :: raw_os where
  "sample_raw_os = \<lparr>ros_open = Ok (), ros_set_hdrincl = Ok (), ros_send_to = (\<lambda>i p d. Ok ()),
     ros_ident = of_nat, ros_random_range = (\<lambda>lo hi. lo)\<rparr>"

definition sample_linux :: build_target where
  "sample_linux = \<lparr>bt_os = TargetLinux, bt_big_endian = False\<rparr>"

definition sample_dst :: socket_addr where
  "sample_dst = \<lparr>sa_ip = Ipv4 192 0 2 50, sa_port = 162\<rparr>"

definition sample_src :: ipv4 where
  "sample_src = Ipv4 198 51 100 42"

definition sample_packet :: bytes where
  "sample_packet = build_ipv4_header sample_linux sample_src (sa_ip sample_dst) 11 0
     @ build_udp_datagram sample_src (sa_ip sample_dst) 4000 (sa_port sample_dst) [1, 2, 3]"

lemma sample_send:
  "send_spoofed sample_linux sample_raw_os sample_dst sample_src (Some 4000) 1 0 [1, 2, 3]
     = Some (Ok (), [sample_packet])"
proof -
  have "raw_loop t sample_raw_os src dst udp 0 1 None = Some (Ok (), Suc 0)" for t src dst udp
    by (subst raw_loop.simps) (simp add: sample_raw_os_def)
  then show ?thesis
    by (simp add: send_spoofed_def raw_packet_def sample_linux_def MAX_UDP_PAYLOAD_def Let_def
        sample_packet_def sample_raw_os_def)
qed

lemma spoofed_packets_verify_witness:
  "drop 28 sample_packet = [1, 2, 3] \<and> length sample_packet = 31
     \<and> take 4 (drop 12 sample_packet) = [198, 51, 100, 42]
     \<and> ip_checksum (take 20 sample_packet) = 0
     \<and> ip_checksum (udp_pseudo sample_src (sa_ip sample_dst) 11 @ drop 20 sample_packet) = 0"
proof -
  have v: "length sample_packet = 31" "octets sample_src = [198, 51, 100, 42]"
    by (simp_all add: sample_packet_def sample_src_def)
  show ?thesis
    using spoofed_packets_verify [OF sample_send list.set_intros(1)] by (simp add: v)
qed

text \<open>
  C22: In every packet handed to the kernel, on Linux as on macOS and whatever the byte order of
  the host, the total length of the IPv4 header, as the kernel of the target reads it, and the
  length of the UDP header say exactly how long the packet and the datagram are, without
  wrapping, and the fragment field is Don't Fragment and nothing else; the destination port is
  the one asked for, and the source port is the pinned one or, without one, the port drawn for
  this call, from the dynamic range.
\<close>

lemma spoofed_lengths_exact:
  assumes "send_spoofed t os dst src src_port timeout retries payload = Some (r, sent)"
    and "p \<in> set sent"
  shows "kernel_reads t (take 2 (drop 2 p)) = length p
     \<and> of_be (take 2 (drop 24 p)) = length p - 20
     \<and> kernel_reads t (take 2 (drop 6 p)) = 0x4000
     \<and> of_be (take 2 (drop 22 p)) = unat (sa_port dst)
     \<and> of_be (take 2 (drop 20 p))
         = (case src_port of Some q \<Rightarrow> unat q | None \<Rightarrow> unat (pick_ephemeral_port os))
     \<and> (src_port = None \<and> ros_random_range os 49152 65535 \<in> {49152..65535} \<longrightarrow>
          of_be (take 2 (drop 20 p)) = ros_random_range os 49152 65535)"
proof (rule send_spoofed_sent [OF assms])
  fix ident port
  let ?udp = "build_udp_datagram src (sa_ip dst) port (sa_port dst) payload"
  assume p: "p = build_ipv4_header t src (sa_ip dst) (of_nat (8 + length payload)) ident @ ?udp"
    and len: "length payload \<le> MAX_UDP_PAYLOAD"
    and port: "port = (case src_port of Some q \<Rightarrow> q | None \<Rightarrow> pick_ephemeral_port os)"
  have two: "of_be (be_bytes 2 (w :: u16)) = unat w" for w
    by (rule of_be_be_bytes_exact) simp
  have u: "unat (of_nat n :: u16) = n" if "n \<le> 65535" for n
    using that by (simp add: unat_of_nat)
  have n: "28 + length payload \<le> 65535" using len by (simp add: MAX_UDP_PAYLOAD_def)
  have tl: "(20 + of_nat (8 + length payload) :: u16) = of_nat (28 + length payload)" by simp
  have "take 2 (drop 2 p) = iphdr_u16_to_kernel t (20 + of_nat (8 + length payload))"
    "take 2 (drop 6 p) = iphdr_u16_to_kernel t 0x4000"
    by (simp_all add: p ipv4_header_layout ipv4_before_def del: of_nat_add)
  then have "kernel_reads t (take 2 (drop 2 p)) = 28 + length payload"
    "kernel_reads t (take 2 (drop 6 p)) = 0x4000"
    by (simp_all only: kernel_reads_field tl u [OF n]) simp
  moreover have "drop 24 p = drop 4 ?udp" "drop 20 p = ?udp" "drop 22 p = drop 2 ?udp"
    by (simp_all add: p)
  moreover have "of_be (take 2 (drop 4 ?udp)) = 8 + length payload"
    "of_be (take 2 ?udp) = unat port" "of_be (take 2 (drop 2 ?udp)) = unat (sa_port dst)"
    using u [of "8 + length payload"] n
    by (simp_all add: udp_datagram_layout two del: of_nat_add)
  moreover have "unat (pick_ephemeral_port os) = ros_random_range os 49152 65535"
    if "ros_random_range os 49152 65535 \<in> {49152..65535}"
    using that u by (simp add: pick_ephemeral_port_def)
  ultimately show ?thesis by (simp add: p port split: option.splits)
qed

text \<open>A macOS host with little-endian words.\<close>

definition sample_macos :: build_target where
  "sample_macos = \<lparr>bt_os = TargetMacos, bt_big_endian = False\<rparr>"

lemma sample_send_macos:
  "\<exists>p. send_spoofed sample_macos sample_raw_os sample_dst sample_src None 1 0 [1, 2, 3]
     = Some (Ok (), [p]) \<and> length p = 31"
proof -
  have "raw_loop t sample_raw_os src dst udp 0 1 None = Some (Ok (), Suc 0)" for t src dst udp
    by (subst raw_loop.simps) (simp add: sample_raw_os_def)
  then show ?thesis
    by (simp add: send_spoofed_def raw_packet_def sample_macos_def MAX_UDP_PAYLOAD_def Let_def)
      (simp add: sample_raw_os_def raw_packet_def)
qed

lemma spoofed_lengths_exact_witness:
  "of_be (take 2 (drop 2 sample_packet)) = length sample_packet
   \<and> of_be (take 2 (drop 20 sample_packet)) = 4000
   \<and> of_be (take 2 (drop 22 sample_packet)) = 162
   \<and> (\<exists>p. send_spoofed sample_macos sample_raw_os sample_dst sample_src None 1 0 [1, 2, 3]
            = Some (Ok (), [p])
        \<and> of_be (rev (take 2 (drop 2 p))) = 31 \<and> of_be (rev (take 2 (drop 6 p))) = 0x4000
        \<and> of_be (take 2 (drop 20 p)) = 49152)"
proof -
  obtain p where p: "send_spoofed sample_macos sample_raw_os sample_dst sample_src None 1 0 [1, 2, 3]
      = Some (Ok (), [p])" "length p = 31"
    using sample_send_macos by blast
  from spoofed_lengths_exact [OF sample_send list.set_intros(1)]
    spoofed_lengths_exact [OF p(1) list.set_intros(1)] p
  show ?thesis
    by (auto simp: kernel_reads_def sample_linux_def sample_macos_def sample_dst_def sample_raw_os_def)
qed

text \<open>
  C10: The spoofing transport either fails before it sends anything, or its answers from the
  kernel, one for each packet handed over, meet the retry specification for \<open>retries + 1\<close>
  attempts: it stops at the first packet that is accepted, and otherwise gives up after
  \<open>retries + 1\<close> rejections, not counting interrupted calls, and reports the last of them.
\<close>

lemma spoofed_send_verdict:
  assumes "send_spoofed t os dst src src_port timeout retries payload = Some (r, sent)"
  shows "(sent = [] \<and> r \<noteq> Ok ()) \<or>
    (\<exists>a. attempts_spec (unat retries + 1)
           (map (\<lambda>i. ros_send_to os i (sent ! i) dst) [0..<length sent]) a
       \<and> r = (case a of Ok _ \<Rightarrow> Ok () | Err e \<Rightarrow> Err (classify_raw_send e (length payload))))"
  using assms
proof (cases rule: send_spoofed_cases [of t os dst src src_port timeout retries payload,
      case_names early sending])
  case (early e)
  with assms show ?thesis by (intro disjI1) auto
next
  case (sending port)
  let ?udp = "build_udp_datagram src (sa_ip dst) port (sa_port dst) payload"
  from assms [unfolded sending(3)] obtain lr m where
    loop: "raw_loop t os src dst ?udp 0 (int (unat retries) + 1) None = Some (lr, m)" and
    r: "r = raw_report (length payload) lr" and
    sent: "sent = map (raw_packet t os src dst ?udp) [0..<m]"
    by auto
  have "raw_loop t os src dst ?udp 0 (int (unat retries + 1)) None = Some (lr, m)"
    using loop by (simp add: add.commute)
  from raw.attempts [OF this] obtain a where
    a: "attempts_spec (unat retries + 1)
          (map (\<lambda>i. ros_send_to os i (raw_packet t os src dst ?udp i) dst) [0..<m]) a"
       "lr = (case a of Ok _ \<Rightarrow> Ok () | Err e \<Rightarrow> Err (Some e))" by auto
  have m: "map (\<lambda>i. ros_send_to os i (sent ! i) dst) [0..<length sent]
      = map (\<lambda>i. ros_send_to os i (raw_packet t os src dst ?udp i) dst) [0..<m]"
    by (auto simp: sent)
  show ?thesis
    using a m r by (intro disjI2 exI [of _ a]) (cases a; simp add: raw_report_def)
qed

lemma spoofed_send_verdict_witness:
  "\<exists>r sent. send_spoofed sample_linux sample_raw_os sample_dst sample_src (Some 4000) 1 0 [1, 2, 3]
       = Some (r, sent) \<and> sent \<noteq> []
     \<and> (\<exists>a. attempts_spec 1 (map (\<lambda>i. ros_send_to sample_raw_os i (sent ! i) sample_dst)
              [0..<length sent]) a)"
  using sample_send spoofed_send_verdict [OF sample_send] by auto

text \<open>
  C23: The spoofing transport runs for ever exactly when the socket opened and, from the first
  call on, none is ever accepted and fewer than \<open>retries + 1\<close> calls ever fail with an error
  other than \<open>Interrupted\<close>; in every other case it returns.
\<close>

lemma spoofed_send_diverges_iff:
  "send_spoofed t os dst src src_port timeout retries payload = None \<longleftrightarrow>
     (bt_os t = TargetLinux \<or> bt_os t = TargetMacos) \<and> length payload \<le> MAX_UDP_PAYLOAD
     \<and> ros_open os = Ok () \<and> ros_set_hdrincl os = Ok ()
     \<and> (let port = (case src_port of Some p \<Rightarrow> p | None \<Rightarrow> pick_ephemeral_port os);
            udp = build_udp_datagram src (sa_ip dst) port (sa_port dst) payload;
            a = (\<lambda>i. ros_send_to os i (raw_packet t os src dst udp i) dst)
        in (\<forall>i. a i \<noteq> Ok ()) \<and> (\<forall>m. length (decisive a 0 m) \<le> unat retries))"
proof -
  let ?udp = "build_udp_datagram src (sa_ip dst)
      (case src_port of Some p \<Rightarrow> p | None \<Rightarrow> pick_ephemeral_port os) (sa_port dst) payload"
  have "raw_loop t os src dst ?udp 0 (int (unat retries) + 1) None = None \<longleftrightarrow>
      (\<forall>i. ros_send_to os i (raw_packet t os src dst ?udp i) dst \<noteq> Ok ())
      \<and> (\<forall>m. length (decisive (\<lambda>i. ros_send_to os i (raw_packet t os src dst ?udp i) dst) 0 m)
             \<le> unat retries)"
    using raw.none_iff [of "unat retries + 1" t os src dst ?udp 0 None]
    by (simp add: add.commute less_Suc_eq_le)
  then show ?thesis
    by (auto simp: send_spoofed_def Let_def split: result.splits)
qed

text \<open>
  C40: The advice to grant the raw-socket capability is given exactly for a permission error
  while the socket is opened or configured; the same error while sending is a routing error,
  and no failure of the kernel while sending is reported as a usage error.
\<close>

lemma raw_error_classes:
  "(classify_raw_open t e = RawSocketDenied (platform_current (bt_os t)) e
      \<longleftrightarrow> raw_os_error e = Some EPERM \<or> raw_os_error e = Some EACCES)
   \<and> (\<forall>p u. classify_raw_send e n \<noteq> RawSocketDenied p u)
   \<and> (\<forall>m. classify_raw_send e n \<noteq> Usage m)
   \<and> (classify_raw_send e n = PayloadExceedsMtu n e \<longleftrightarrow> raw_os_error e = Some EMSGSIZE)
   \<and> (classify_raw_send e n = Routing e \<longleftrightarrow>
        raw_os_error e \<in> {Some EHOSTUNREACH, Some ENETUNREACH, Some EADDRNOTAVAIL, Some EACCES, Some EPERM}
        \<or> (raw_os_error e \<noteq> Some EMSGSIZE
           \<and> io_kind e \<in> {HostUnreachable, NetworkUnreachable, AddrNotAvailable}))"
  using classify_raw_send_not_denied classify_raw_send_not_usage
  by (auto simp: classify_raw_open_cases classify_raw_send_def Let_def
      split: option.splits errno.splits io_kind.splits)

end
