(* ===== verification/Unprivileged.thy ===== *)
theory Unprivileged
  imports RetryLoop
begin

text \<open>
  \<open>src/transport/unprivileged.rs\<close>: the ordinary UDP path. The operating system is the record
  \<open>udp_os\<close>: its answer to \<open>bind\<close> and to the \<open>i\<close>-th \<open>send_to\<close>.
\<close>

section \<open>The code\<close>

record udp_os =
  os_bind :: "socket_addr \<Rightarrow> (unit, io_error) result"
  os_send_to :: "nat \<Rightarrow> bytes \<Rightarrow> socket_addr \<Rightarrow> send_outcome"

definition classify_bind_io :: "io_error \<Rightarrow> u16 option \<Rightarrow> error" where
  "classify_bind_io err src_port =
     (let port_ctx = (case src_port of
            Some p \<Rightarrow> lit ''--src-port '' @ dec (unat p)
          | None \<Rightarrow> lit ''kernel-ephemeral source port'') in
      if raw_os_error err = Some EACCES \<and> (case src_port of Some p \<Rightarrow> p < 1024 | None \<Rightarrow> False)
      then Usage (port_ctx @ lit '' requires root or CAP_NET_BIND_SERVICE (port < 1024); bind failed: ''
             @ io_text err)
      else if raw_os_error err = Some EADDRINUSE
      then Usage (port_ctx @ lit '' is already in use by another process; bind failed: ''
             @ io_text err)
      else Other err)"

definition map_send_io :: "io_error \<Rightarrow> error" where
  "map_send_io err =
     (case io_kind err of
        HostUnreachable \<Rightarrow> Routing err
      | NetworkUnreachable \<Rightarrow> Routing err
      | AddrNotAvailable \<Rightarrow> Routing err
      | _ \<Rightarrow> Other err)"

text \<open>The \<open>while budget > 0\<close> loop; \<open>None\<close> is a run that never ends.\<close>

partial_function (option) unpriv_loop ::
  "udp_os \<Rightarrow> bytes \<Rightarrow> socket_addr \<Rightarrow> nat \<Rightarrow> int \<Rightarrow> io_error option \<Rightarrow> loop_result option"
where
  "unpriv_loop os payload dst n budget last_err =
     (if 0 < budget then
        (case os_send_to os n payload dst of
           Ok _ \<Rightarrow> Some (Ok (), Suc n)
         | Err e \<Rightarrow>
             if io_kind e = Interrupted then unpriv_loop os payload dst (Suc n) budget last_err
             else unpriv_loop os payload dst (Suc n) (budget - 1) (Some e))
      else Some (Err last_err, n))"

text \<open>
  \<open>send\<close>: the result, and the datagrams handed to \<open>send_to\<close> in order.
\<close>

definition unpriv_send ::
  "udp_os \<Rightarrow> socket_addr \<Rightarrow> u16 option \<Rightarrow> u32 \<Rightarrow> u8 \<Rightarrow> bytes
    \<Rightarrow> ((unit, error) result \<times> bytes list) option"
where
  "unpriv_send os dst src_port timeout retries payload =
     (let chosen_port = (case src_port of Some p \<Rightarrow> p | None \<Rightarrow> 0);
          bind_addr = \<lparr>sa_ip = ipv4_unspecified, sa_port = chosen_port\<rparr> in
      case os_bind os bind_addr of
        Err e \<Rightarrow> Some (Err (classify_bind_io e src_port), [])
      | Ok _ \<Rightarrow>
          map_option
            (\<lambda>(r, m).
              ((case r of
                  Ok _ \<Rightarrow> Ok ()
                | Err last_err \<Rightarrow>
                    Err (map_send_io (case last_err of
                           Some e \<Rightarrow> e
                         | None \<Rightarrow> io_error_other (lit ''send_to failed without an OS error'')))),
               replicate m payload))
            (unpriv_loop os payload dst 0 (int (unat retries) + 1) None))"

section \<open>The loop meets the retry contract\<close>

text \<open>A run that returns met a call that was not interrupted.\<close>

lemma unpriv_loop_decisive:
  assumes "unpriv_loop os payload dst n budget l = Some r"
  shows "0 < budget \<longrightarrow> (\<exists>i \<ge> n. \<not> interrupted (os_send_to os i payload dst))"
proof (rule unpriv_loop.raw_induct [OF _ assms], goal_cases)
  case (1 f os payload dst n budget l r)
  show ?case
  proof (cases "interrupted (os_send_to os n payload dst)")
    case True
    then obtain e where "os_send_to os n payload dst = Err e" "io_kind e = Interrupted"
      by (cases "os_send_to os n payload dst") auto
    with 1(2) have "0 < budget \<longrightarrow> f os payload dst (Suc n) budget l = Some r" by auto
    with 1(1) show ?thesis by (meson Suc_leD)
  qed auto
qed

interpretation unpriv: retrying "\<lambda>i. os_send_to os i payload dst" "unpriv_loop os payload dst"
  for os payload dst
proof unfold_locales
  fix budget n l e
  show "budget \<le> 0 \<Longrightarrow> unpriv_loop os payload dst n budget l = Some (Err l, n)"
    by (subst unpriv_loop.simps) simp
  show "0 < budget \<Longrightarrow> os_send_to os n payload dst = Ok ()
      \<Longrightarrow> unpriv_loop os payload dst n budget l = Some (Ok (), Suc n)"
    by (subst unpriv_loop.simps) simp
  show "0 < budget \<Longrightarrow> os_send_to os n payload dst = Err e \<Longrightarrow> io_kind e = Interrupted
      \<Longrightarrow> unpriv_loop os payload dst n budget l = unpriv_loop os payload dst (Suc n) budget l"
    by (subst unpriv_loop.simps) simp
  show "0 < budget \<Longrightarrow> os_send_to os n payload dst = Err e \<Longrightarrow> io_kind e \<noteq> Interrupted
      \<Longrightarrow> unpriv_loop os payload dst n budget l
          = unpriv_loop os payload dst (Suc n) (budget - 1) (Some e)"
    by (subst unpriv_loop.simps) simp
  show "0 < budget \<Longrightarrow> (\<And>i. n \<le> i \<Longrightarrow> interrupted (os_send_to os i payload dst))
      \<Longrightarrow> unpriv_loop os payload dst n budget l = None"
    using unpriv_loop_decisive [of os payload dst n budget l] by (metis not_Some_eq)
qed


text \<open>With answers that keep coming, both transports return.\<close>

lemma unpriv_send_fair:
  assumes "\<And>i. \<exists>j \<ge> i. \<not> interrupted (os_send_to os j payload dst)"
  shows "unpriv_send os dst src_port timeout retries payload \<noteq> None"
  using unpriv.fair_returns [OF assms, of 0 "unat retries + 1" None]
  by (auto simp: unpriv_send_def add.commute split: result.splits)

section \<open>Properties\<close>

text \<open>
  C11: The unprivileged transport either fails at \<open>bind\<close>, having sent nothing, or it only ever
  hands the payload itself to the kernel and its answers meet the retry specification for
  \<open>retries + 1\<close> attempts: it stops at the first datagram that is accepted, and otherwise
  gives up after \<open>retries + 1\<close> failures, not counting interrupted calls, and reports the last.
\<close>

lemma unpriv_send_verdict:
  assumes "unpriv_send os dst src_port timeout retries payload = Some (r, sent)"
  shows "(\<exists>e. os_bind os \<lparr>sa_ip = ipv4_unspecified, sa_port = (case src_port of Some p \<Rightarrow> p | None \<Rightarrow> 0)\<rparr>
            = Err e \<and> sent = [] \<and> r = Err (classify_bind_io e src_port)) \<or>
    (set sent \<subseteq> {payload} \<and>
     (\<exists>a. attempts_spec (unat retries + 1)
            (map (\<lambda>i. os_send_to os i payload dst) [0..<length sent]) a
        \<and> r = (case a of Ok _ \<Rightarrow> Ok () | Err e \<Rightarrow> Err (map_send_io e))))"
proof (cases "os_bind os \<lparr>sa_ip = ipv4_unspecified, sa_port = (case src_port of Some p \<Rightarrow> p | None \<Rightarrow> 0)\<rparr>")
  case (Err e)
  with assms show ?thesis by (simp add: unpriv_send_def)
next
  case (Ok u)
  with assms obtain lr m where
    loop: "unpriv_loop os payload dst 0 (int (unat retries + 1)) None = Some (lr, m)" and
    r: "r = (case lr of Ok _ \<Rightarrow> Ok () | Err last_err \<Rightarrow> Err (map_send_io (case last_err of
          Some e \<Rightarrow> e | None \<Rightarrow> io_error_other (lit ''send_to failed without an OS error''))))" and
    sent: "sent = replicate m payload"
    by (auto simp: unpriv_send_def map_option_eq_Some add.commute)
  from unpriv.attempts [OF loop] obtain a where
    a: "attempts_spec (unat retries + 1) (map (\<lambda>i. os_send_to os i payload dst) [0..<m]) a"
       "lr = (case a of Ok _ \<Rightarrow> Ok () | Err e \<Rightarrow> Err (Some e))" by auto
  have "r = (case a of Ok _ \<Rightarrow> Ok () | Err e \<Rightarrow> Err (map_send_io e))"
    by (cases a) (simp_all add: r a(2))
  with a(1) show ?thesis by (auto simp: sent)
qed

text \<open>A host whose UDP socket is interrupted once and then sends.\<close>

definition sample_udp_os :: udp_os where
  "sample_udp_os = \<lparr>os_bind = (\<lambda>a. Ok ()),
     os_send_to = (\<lambda>i p d. if i = 0 then Err \<lparr>io_kind = Interrupted, raw_os_error = None, io_text = []\<rparr>
                           else Ok ())\<rparr>"

lemma sample_unpriv_send:
  "unpriv_send sample_udp_os dst None 1 0 payload = Some (Ok (), [payload, payload])"
proof -
  have "unpriv_loop sample_udp_os payload dst 0 1 None = Some (Ok (), Suc (Suc 0))"
    by (subst unpriv_loop.simps, subst unpriv_loop.simps) (simp add: sample_udp_os_def)
  then show ?thesis by (simp add: unpriv_send_def sample_udp_os_def)
qed

lemma unpriv_send_verdict_witness:
  "\<exists>a. attempts_spec 1 (map (\<lambda>i. os_send_to sample_udp_os i [7] \<lparr>sa_ip = Ipv4 127 0 0 1, sa_port = 162\<rparr>)
         [0..<2]) a \<and> is_ok a"
proof -
  obtain a where "attempts_spec 1 (map (\<lambda>i. os_send_to sample_udp_os i [7]
      \<lparr>sa_ip = Ipv4 127 0 0 1, sa_port = 162\<rparr>) [0..<2]) a"
    "Ok () = (case a of Ok _ \<Rightarrow> Ok () | Err e \<Rightarrow> Err (map_send_io e))"
    using unpriv_send_verdict [OF sample_unpriv_send [of "\<lparr>sa_ip = Ipv4 127 0 0 1, sa_port = 162\<rparr>" "[7]"]]
    by (auto simp: numeral_2_eq_2 sample_udp_os_def)
  then show ?thesis by (intro exI [of _ a]) (cases a; simp)
qed

text \<open>
  C24: The unprivileged transport returns as soon as the kernel has, within some number of
  calls, accepted one datagram or failed \<open>retries + 1\<close> of them with an error other than
  \<open>Interrupted\<close>: a kernel that answers decisively often enough always ends the loop.
\<close>

lemma unpriv_send_returns:
  assumes "(\<exists>i < k. os_send_to os i payload dst = Ok ())
    \<or> unat retries < length (decisive (\<lambda>i. os_send_to os i payload dst) 0 k)"
  shows "\<exists>r sent. unpriv_send os dst src_port timeout retries payload = Some (r, sent)
    \<and> length sent \<le> k"
proof -
  have "(\<exists>i \<ge> 0. i < 0 + k \<and> os_send_to os i payload dst = Ok ())
      \<or> unat retries + 1 \<le> length (decisive (\<lambda>i. os_send_to os i payload dst) 0 (0 + k))"
    using assms by auto
  from unpriv.returns [OF this, of None] obtain r m where
    "unpriv_loop os payload dst 0 (int (unat retries) + 1) None = Some (r, m)" "m \<le> k"
    by (auto simp: add.commute)
  then show ?thesis
    by (auto simp: unpriv_send_def split: result.splits)
qed

lemma unpriv_send_returns_witness:
  "\<exists>r sent. unpriv_send sample_udp_os \<lparr>sa_ip = Ipv4 127 0 0 1, sa_port = 162\<rparr> (Some 5000) 1 3 [7]
     = Some (r, sent) \<and> length sent \<le> 2"
  by (rule unpriv_send_returns) (auto simp: sample_udp_os_def intro!: exI [of _ 1])

text \<open>
  C25: The retry loop is the machine \<open>retry_step\<close>: it returns a result after \<open>m\<close> calls exactly
  when the machine reaches that end. In every state the machine can reach, no call made so far
  was accepted, the budget left and the failures other than \<open>Interrupted\<close> add up to
  \<open>retries + 1\<close>, the error kept is the last such failure, and the result of the loop does not
  depend on how far it has come.
\<close>

lemma unpriv_loop_machine:
  fixes retries :: u8
  shows "let answers = (\<lambda>i. os_send_to os i payload dst);
       b = int (unat retries) + 1;
       loop = unpriv_loop os payload dst;
       reaches = retry_steps answers (Running 0 b None)
   in (\<forall>r m. loop 0 b None = Some (r, m) \<longleftrightarrow> reaches (Finished r m))
    \<and> (\<forall>n budget l. reaches (Running n budget l) \<longrightarrow>
         retry_inv answers b (Running n budget l) \<and> loop n budget l = loop 0 b None)"
proof -
  have b: "int (unat retries) + 1 = int (unat retries + 1)" by simp
  show ?thesis
    unfolding Let_def
    by (intro conjI allI impI)
      (auto simp only: b unpriv.loop_runs
        intro: unpriv.steps_loop retry_inv_reachable [OF _ retry_inv_start] of_nat_0_le_iff)
qed

lemma unpriv_loop_machine_witness:
  "retry_inv (\<lambda>i. os_send_to sample_udp_os i [7] \<lparr>sa_ip = Ipv4 127 0 0 1, sa_port = 162\<rparr>) 1
     (Running 1 1 None)
   \<and> unpriv_loop sample_udp_os [7] \<lparr>sa_ip = Ipv4 127 0 0 1, sa_port = 162\<rparr> 1 1 None
     = unpriv_loop sample_udp_os [7] \<lparr>sa_ip = Ipv4 127 0 0 1, sa_port = 162\<rparr> 0 1 None"
proof -
  let ?d = "\<lparr>sa_ip = Ipv4 127 0 0 1, sa_port = 162\<rparr>"
  have "retry_step (\<lambda>i. os_send_to sample_udp_os i [7] ?d) (Running 0 1 None) (Running (Suc 0) 1 None)"
    by (rule retry_step.again [where e = "\<lparr>io_kind = Interrupted, raw_os_error = None, io_text = []\<rparr>"])
      (simp_all add: sample_udp_os_def)
  then have "retry_steps (\<lambda>i. os_send_to sample_udp_os i [7] ?d)
      (Running 0 (int (unat (0 :: u8)) + 1) None) (Running 1 1 None)"
    by (simp only: unsigned_0 semiring_1_class.of_nat_0 add_0 One_nat_def r_into_rtranclp)
  note at_one = unpriv_loop_machine [of sample_udp_os "[7]" ?d 0, unfolded Let_def, THEN conjunct2,
      rule_format, OF this]
  then show ?thesis by (simp only: unsigned_0 semiring_1_class.of_nat_0 add_0 at_one)
qed

end
