(* ===== verification/Run.thy ===== *)
theory Run
  imports Payload Debug RawTransport Unprivileged
begin

text \<open>
  \<open>run\<close> of \<open>src/lib.rs\<close> and \<open>main\<close> of \<open>src/main.rs\<close>: arguments, destination, payload, the
  optional dump, and one of the two transports.
\<close>

section \<open>The process\<close>

record ('h, 'f) world =
  w_env :: "('h, 'f) env"
  w_argv :: "(cli, clap_kind \<times> rstr) result"
  w_resolver :: resolver
  w_stderr :: writer
  w_target :: build_target
  w_raw :: raw_os
  w_udp :: udp_os

text \<open>What a run did: its result, the datagrams handed to \<open>send_to\<close>, the dump on stderr.\<close>

record report =
  rep_result :: "(unit, error) result"
  rep_sent :: "bytes list"
  rep_stderr :: rstr

definition failed :: "error \<Rightarrow> report" where
  "failed e = \<lparr>rep_result = Err e, rep_sent = [], rep_stderr = []\<rparr>"

definition transmit ::
  "('h, 'f) world \<Rightarrow> cli \<Rightarrow> socket_addr \<Rightarrow> bytes \<Rightarrow> ((unit, error) result \<times> bytes list) outcome"
where
  "transmit w c dst payload =
     (case src_addr_v4 c of
        Some src \<Rightarrow>
          looped (send_spoofed (w_target w) (w_raw w) dst src (cli_src_port c) (cli_timeout c)
                    (cli_retries c) payload)
      | None \<Rightarrow>
          looped (unpriv_send (w_udp w) dst (cli_src_port c) (cli_timeout c) (cli_retries c) payload))"

definition pre_send_dump :: "('h, 'f) world \<Rightarrow> cli \<Rightarrow> socket_addr \<Rightarrow> bytes \<Rightarrow> rstr" where
  "pre_send_dump w c dst payload =
     (if cli_debug_print_pdu c
      then fst (print_pre_send_dump (w_stderr w) (cli_version c) dst (src_addr_v4 c)
                  (cli_src_port c) payload)
      else [])"

text \<open>\<open>run\<close> after the arguments are parsed; \<open>cell\<close> is the start of the process clock.\<close>

definition run_cli :: "('h, 'f) world \<Rightarrow> nat option \<Rightarrow> cli \<Rightarrow> report outcome" where
  "run_cli w cell c =
     (case resolve_agent (w_resolver w) c of
        Err e \<Rightarrow> Return (failed e)
      | Ok dst \<Rightarrow>
          and_run (fst (build_payload (w_env w) cell c dst)) (\<lambda>r.
            case r of
              Err e \<Rightarrow> Return (failed e)
            | Ok payload \<Rightarrow>
                and_run (transmit w c dst payload) (\<lambda>(result, sent).
                  Return \<lparr>rep_result = result, rep_sent = sent,
                          rep_stderr = pre_send_dump w c dst payload\<rparr>)))"

datatype ending = Exited u8 | Ran "report outcome"

definition run :: "('h, 'f) world \<Rightarrow> nat option \<Rightarrow> ending" where
  "run w cell =
     (case parse_argv (w_argv w) of
        Exit code \<Rightarrow> Exited code
      | Parsed m \<Rightarrow>
          Ran (and_run m (\<lambda>r. case r of Err e \<Rightarrow> Return (failed e) | Ok c \<Rightarrow> run_cli w cell c)))"

text \<open>\<open>main\<close>: everything written to stderr and the exit status.\<close>

definition main :: "('h, 'f) world \<Rightarrow> (rstr \<times> u8) outcome" where
  "main w =
     (case run w None of
        Exited code \<Rightarrow> Return ([], code)
      | Ran m \<Rightarrow>
          map_outcome (\<lambda>rep. case main_result (rep_result rep) of
              (text, code) \<Rightarrow> (rep_stderr rep @ text, code)) m)"

lemma not_Err_unit [simp]: "(\<forall>e. r \<noteq> Err e) \<longleftrightarrow> r = Ok ()" for r :: "(unit, 'e) result"
  by (cases r) auto

lemma case_result_Ok_unit:
  "(case r of Ok u \<Rightarrow> Ok () | Err e \<Rightarrow> Err (g e)) = Ok () \<longleftrightarrow> r = Ok ()" for r :: "(unit, 'e) result"
  by (cases r) auto

lemma case_result_Err:
  "(case r of Ok u \<Rightarrow> Ok () | Err e \<Rightarrow> Err (g e)) = Err d \<longleftrightarrow> (\<exists>e. r = Err e \<and> d = g e)"
  by (cases r) auto

section \<open>What a run does\<close>

lemma attempts_spec_Ok: "attempts_spec b (map f [0..<m]) (Ok ()) \<Longrightarrow> 0 < m \<and> f (m - 1) = Ok ()"
  by (auto simp: attempts_spec_def Let_def last_map)

lemma unpriv_send_sent:
  "unpriv_send os dst src_port timeout retries payload = Some (r, sent) \<Longrightarrow> set sent \<subseteq> {payload}"
  by (cases "os_bind os \<lparr>sa_ip = ipv4_unspecified, sa_port = case src_port of Some p \<Rightarrow> p | None \<Rightarrow> 0\<rparr>")
    (auto simp: unpriv_send_def)

lemma unpriv_send_Ok:
  assumes "unpriv_send os dst src_port timeout retries payload = Some (Ok (), sent)"
  shows "sent \<noteq> [] \<and> os_send_to os (length sent - 1) payload dst = Ok ()"
proof -
  from assms obtain lr m where
    loop: "unpriv_loop os payload dst 0 (int (unat retries + 1)) None = Some (lr, m)" and
    lr: "lr = Ok ()" and sent: "sent = replicate m payload"
    by (auto simp: unpriv_send_def add.commute case_result_Ok_unit split: result.splits)
  from unpriv.attempts [OF loop] lr obtain a where
    "attempts_spec (unat retries + 1) (map (\<lambda>i. os_send_to os i payload dst) [0..<m]) a" "a = Ok ()"
    by (auto simp: case_result_Ok_unit dest: sym)
  with attempts_spec_Ok sent show ?thesis by fastforce
qed

lemma map_send_io_not_usage: "map_send_io e \<noteq> Usage m"
  by (auto simp: map_send_io_def split: io_kind.splits)

lemma unpriv_send_usage:
  "unpriv_send os dst src_port timeout retries payload = Some (Err (Usage m), sent) \<Longrightarrow> sent = []"
  using map_send_io_not_usage [symmetric]
  by (auto simp: unpriv_send_def case_result_Err split: result.splits)

lemma send_spoofed_Ok:
  assumes "send_spoofed t os dst src src_port timeout retries payload = Some (Ok (), sent)"
  shows "sent \<noteq> [] \<and> ros_send_to os (length sent - 1) (last sent) dst = Ok ()"
proof (cases rule: send_spoofed_cases [of t os dst src src_port timeout retries payload,
      case_names early sending])
  case (early e)
  with assms show ?thesis by simp
next
  case (sending port)
  let ?udp = "build_udp_datagram src (sa_ip dst) port (sa_port dst) payload"
  from assms [unfolded sending(3)] obtain lr m where
    loop: "raw_loop t os src dst ?udp 0 (int (unat retries + 1)) None = Some (lr, m)" and
    lr: "lr = Ok ()" and sent: "sent = map (raw_packet t os src dst ?udp) [0..<m]"
    by (auto simp: add.commute raw_report_def case_result_Ok_unit)
  from raw.attempts [OF loop] lr obtain a where
    "attempts_spec (unat retries + 1)
       (map (\<lambda>i. ros_send_to os i (raw_packet t os src dst ?udp i) dst) [0..<m]) a" "a = Ok ()"
    by (auto simp: case_result_Ok_unit dest: sym)
  with attempts_spec_Ok have "0 < m"
    "ros_send_to os (m - 1) (raw_packet t os src dst ?udp (m - 1)) dst = Ok ()" by fastforce+
  then show ?thesis by (simp add: sent last_map)
qed

lemma send_spoofed_usage:
  assumes "send_spoofed t os dst src src_port timeout retries payload = Some (Err (Usage m), sent)"
  shows "sent = []"
proof (cases rule: send_spoofed_cases [of t os dst src src_port timeout retries payload,
      case_names early sending])
  case (sending port)
  from assms [unfolded sending(3)] show ?thesis
    by (auto simp: raw_report_def case_result_Err classify_raw_send_not_usage [symmetric])
qed (use assms in simp)

text \<open>What a datagram on the wire is made of, and which datagram the kernel accepted.\<close>

definition delivers :: "cli \<Rightarrow> socket_addr \<Rightarrow> bytes \<Rightarrow> bytes \<Rightarrow> bool" where
  "delivers c dst payload d \<longleftrightarrow>
     (case src_addr_v4 c of
        None \<Rightarrow> d = payload
      | Some src \<Rightarrow> drop 28 d = payload \<and> take 4 (drop 12 d) = octets src
          \<and> take 4 (drop 16 d) = octets (sa_ip dst))"

definition accepted :: "('h, 'f) world \<Rightarrow> cli \<Rightarrow> socket_addr \<Rightarrow> bytes list \<Rightarrow> bool" where
  "accepted w c dst sent \<longleftrightarrow> sent \<noteq> [] \<and>
     (case src_addr_v4 c of
        None \<Rightarrow> os_send_to (w_udp w) (length sent - 1) (last sent) dst = Ok ()
      | Some src \<Rightarrow> ros_send_to (w_raw w) (length sent - 1) (last sent) dst = Ok ())"

lemma transmit_delivers:
  assumes "transmit w c dst payload = Return (r, sent)" and "d \<in> set sent"
  shows "delivers c dst payload d"
proof (cases "src_addr_v4 c")
  case None
  with assms unpriv_send_sent show ?thesis by (fastforce simp: transmit_def delivers_def)
next
  case (Some src)
  with assms(1) have s: "send_spoofed (w_target w) (w_raw w) dst src (cli_src_port c) (cli_timeout c)
      (cli_retries c) payload = Some (r, sent)"
    by (simp add: transmit_def)
  show ?thesis
  proof (rule send_spoofed_sent [OF s assms(2)])
    fix ident port
    let ?udp = "build_udp_datagram src (sa_ip dst) port (sa_port dst) payload"
    assume p: "d = build_ipv4_header (w_target w) src (sa_ip dst) (of_nat (8 + length payload)) ident @ ?udp"
    note parts = header_parts [OF p]
    have "drop 28 d = drop 8 (drop 20 d)" by simp
    also have "\<dots> = payload" by (simp only: parts) (simp add: udp_datagram_layout)
    finally show ?thesis using parts Some by (simp add: delivers_def)
  qed
qed

lemma transmit_accepted:
  assumes "transmit w c dst payload = Return (Ok (), sent)"
  shows "accepted w c dst sent"
proof (cases "src_addr_v4 c")
  case None
  with assms have u: "unpriv_send (w_udp w) dst (cli_src_port c) (cli_timeout c) (cli_retries c) payload
      = Some (Ok (), sent)" by (simp add: transmit_def)
  then have "last sent = payload" using unpriv_send_sent [OF u] unpriv_send_Ok [OF u]
    by (metis last_in_set singletonD subsetD)
  with None unpriv_send_Ok [OF u] show ?thesis by (simp add: accepted_def)
next
  case (Some src)
  with assms send_spoofed_Ok show ?thesis by (fastforce simp: transmit_def accepted_def)
qed

lemma transmit_usage:
  "transmit w c dst payload = Return (Err (Usage m), sent) \<Longrightarrow> sent = []"
  by (auto simp: transmit_def split: option.splits dest: unpriv_send_usage send_spoofed_usage)

text \<open>A run either fails before it sends, or sends the payload of the validated command line.\<close>

definition sends :: "('h, 'f) world \<Rightarrow> nat option \<Rightarrow> cli \<Rightarrow> socket_addr \<Rightarrow> bytes \<Rightarrow> report \<Rightarrow> bool" where
  "sends w cell c dst payload rep \<longleftrightarrow>
     (\<exists>c0. w_argv w = Ok c0 \<and> validate c0 = Return (Ok c))
     \<and> resolve_agent (w_resolver w) c = Ok dst
     \<and> fst (build_payload (w_env w) cell c dst) = Return (Ok payload)
     \<and> transmit w c dst payload = Return (rep_result rep, rep_sent rep)"

lemma run_report:
  assumes "run w cell = Ran (Return rep)"
  shows "(\<exists>e. rep = failed e) \<or> (\<exists>c dst payload. sends w cell c dst payload rep)"
proof (cases "w_argv w")
  case (Err e)
  with assms show ?thesis by (auto simp: run_def parse_argv_def split: prod.splits if_splits)
next
  case (Ok c0)
  with assms obtain r where v: "validate c0 = Return r"
    and r: "(case r of Err e \<Rightarrow> Return (failed e) | Ok c \<Rightarrow> run_cli w cell c) = Return rep"
    by (auto simp: run_def parse_argv_def)
  show ?thesis
  proof (cases r)
    case c: (Ok c)
    show ?thesis
    proof (cases "resolve_agent (w_resolver w) c")
      case dst: (Ok dst)
      with r c obtain p where p: "fst (build_payload (w_env w) cell c dst) = Return p"
        and rest: "(case p of Err e \<Rightarrow> Return (failed e) | Ok payload \<Rightarrow>
            and_run (transmit w c dst payload) (\<lambda>(result, sent).
              Return \<lparr>rep_result = result, rep_sent = sent,
                      rep_stderr = pre_send_dump w c dst payload\<rparr>)) = Return rep"
        by (auto simp: run_cli_def)
      show ?thesis
      proof (cases p)
        case (Ok payload)
        with rest p dst v c \<open>w_argv w = Ok c0\<close> have "sends w cell c dst payload rep"
          by (auto simp: sends_def)
        then show ?thesis by blast
      qed (use rest in auto)
    qed (use r c in \<open>auto simp: run_cli_def\<close>)
  qed (use r in auto)
qed

lemma failed_simps [simp]: "rep_result (failed e) = Err e" "rep_sent (failed e) = []"
  by (simp_all add: failed_def)

end
