(* ===== verification/Session.thy ===== *)
theory Session
  imports Payload
begin

text \<open>
  Many SNMPv3 payloads built in one process, as a library caller of \<open>src/lib.rs\<close> can: the
  clock's starting point in \<open>process_uptime_seconds\<close> is the only state they share.
\<close>

section \<open>Steps\<close>

text \<open>
  \<open>session lib now cell ms\<close>: by the time \<open>now\<close>, in nanoseconds of a clock that does not run
  backwards, the cell holds \<open>cell\<close> and the messages \<open>ms\<close> were assembled, the oldest first. A
  call reads the clock twice while it assembles its message; one that is refused assembles
  none. The crates \<open>lib\<close> are the same for all calls, what the host answers is not.
\<close>

definition same_crates :: "('h, 'f) env \<Rightarrow> ('h, 'f) env \<Rightarrow> bool" where
  "same_crates lib env \<longleftrightarrow>
     env_crypto env = env_crypto lib \<and> env_codec env = env_codec lib \<and> env_floats env = env_floats lib
     \<and> env_checks env = env_checks lib"

inductive session :: "('h, 'f) env \<Rightarrow> nat \<Rightarrow> nat option \<Rightarrow> v3_trap_message list \<Rightarrow> bool" for lib where
  nothing_built: "session lib now None []"
| waited: "session lib now cell ms \<Longrightarrow> now \<le> now' \<Longrightarrow> session lib now' cell ms"
| built: "session lib now cell ms \<Longrightarrow> same_crates lib env \<Longrightarrow> env_instants env = (t0, t1) \<Longrightarrow> now \<le> t0 \<Longrightarrow> t0 \<le> t1
    \<Longrightarrow> v3_message_parts env c = Return (Ok msg)
    \<Longrightarrow> build_v3_payload env cell c = (r, cell')
    \<Longrightarrow> session lib t1 cell' (ms @ [msg (fst (process_uptime_seconds (t0, t1) cell))])"
| refused: "session lib now cell ms \<Longrightarrow> same_crates lib env
    \<Longrightarrow> v3_message_parts env c = Return (Err e)
    \<Longrightarrow> build_v3_payload env cell c = (r, cell') \<Longrightarrow> session lib now cell' ms"

lemma parts_engine_time:
  "v3_message_parts env c = Return (Ok msg) \<Longrightarrow>
     m_engine_time (msg t) = t \<and> m_engine_boots (msg t) = 1"
  by (auto simp: v3_message_parts_Ok v3_message_of_def)

lemma build_v3_payload_cell:
  "build_v3_payload env cell c = (r, cell') \<Longrightarrow>
     cell' = (case v3_message_parts env c of
        Return (Ok msg) \<Rightarrow> snd (process_uptime_seconds (env_instants env) cell) | _ \<Rightarrow> cell)"
  by (auto simp: build_v3_payload_def split: outcome.splits result.splits prod.splits)

text \<open>
  The invariant: nothing was assembled before the cell was set, and afterwards every engine time
  is at most the time of the clock since the start, in the order of the calls.
\<close>

definition whole_seconds :: "nat \<Rightarrow> nat \<Rightarrow> nat" where
  "whole_seconds start now = min ((now - start) div 1000000000) (2 ^ 31 - 1)"

lemma whole_seconds_mono: "now \<le> now' \<Longrightarrow> whole_seconds start now \<le> whole_seconds start now'"
  unfolding whole_seconds_def by (intro min.mono div_le_mono diff_le_mono) simp_all

lemma process_uptime_whole:
  "unat (fst (process_uptime_seconds now cell))
     = whole_seconds (case cell of Some s \<Rightarrow> s | None \<Rightarrow> fst now) (snd now)"
  by (simp add: process_uptime_seconds_def whole_seconds_def Let_def unat_of_nat min_def)

definition session_ok :: "nat \<Rightarrow> nat option \<Rightarrow> v3_trap_message list \<Rightarrow> bool" where
  "session_ok now cell ms \<longleftrightarrow>
     (case cell of
        None \<Rightarrow> ms = []
      | Some start \<Rightarrow> start \<le> now \<and> ms \<noteq> []
          \<and> sorted (map (\<lambda>m. unat (m_engine_time m)) ms)
          \<and> list_all (\<lambda>m. unat (m_engine_time m) \<le> whole_seconds start now \<and> m_engine_boots m = 1) ms)"

lemma session_ok_later: "session_ok now cell ms \<Longrightarrow> now \<le> now' \<Longrightarrow> session_ok now' cell ms"
  using whole_seconds_mono [of now now']
  by (auto simp: session_ok_def list_all_iff split: option.splits intro: order_trans)

lemma session_ok_build:
  assumes "session_ok now cell ms" and "now \<le> t0" and "t0 \<le> t1"
    and "m_engine_time m = fst (process_uptime_seconds (t0, t1) cell)" and "m_engine_boots m = 1"
  shows "session_ok t1 (snd (process_uptime_seconds (t0, t1) cell)) (ms @ [m])"
proof (cases cell)
  case None
  then have "snd (process_uptime_seconds (t0, t1) cell) = Some t0"
    by (simp add: process_uptime_seconds_def Let_def)
  moreover have "unat (m_engine_time m) = whole_seconds t0 t1"
    using assms(4) None by (simp add: process_uptime_whole)
  moreover have "ms = []" using assms(1) None by (simp add: session_ok_def)
  ultimately show ?thesis using assms(3,5) by (simp add: session_ok_def)
next
  case (Some s)
  then have c: "snd (process_uptime_seconds (t0, t1) cell) = Some s" by (simp add: process_uptime_cell)
  have t: "unat (m_engine_time m) = whole_seconds s t1"
    using assms(4) Some by (simp add: process_uptime_whole)
  have "session_ok t1 (Some s) ms"
    using session_ok_later [OF assms(1), of t1] assms(2,3) Some by simp
  then show ?thesis
    unfolding c using t assms(5) by (auto simp: session_ok_def list_all_iff sorted_append)
qed

lemma session_invariant: "session lib now cell ms \<Longrightarrow> session_ok now cell ms"
proof (induction rule: session.induct)
  case (nothing_built now)
  then show ?case by (simp add: session_ok_def)
next
  case (waited now cell ms now')
  then show ?case using session_ok_later [of now cell ms now'] by blast
next
  case (built now cell ms env t0 t1 c msg r cell')
  note p = \<open>v3_message_parts env c = Return (Ok msg)\<close>
  have c: "cell' = snd (process_uptime_seconds (t0, t1) cell)"
    using build_v3_payload_cell [OF \<open>build_v3_payload env cell c = (r, cell')\<close>]
      \<open>env_instants env = (t0, t1)\<close> p by simp
  show ?case
    unfolding c
    by (rule session_ok_build [OF \<open>session_ok now cell ms\<close> \<open>now \<le> t0\<close> \<open>t0 \<le> t1\<close>])
      (simp_all add: parts_engine_time [OF p])
next
  case (refused now cell ms env c e r cell')
  then show ?case using build_v3_payload_cell [of env cell c r cell'] by simp
qed

end
