(* ===== verification/Ber.thy ===== *)
theory Ber
  imports V3
begin

text \<open>
  A reference BER encoder (X.690, definite lengths) for the message types, as an instance of
  the parameter \<open>codec\<close>: it shows that the contract asked of the crate can be met, lets the
  theorems be evaluated at concrete messages, and reproduces the captured messages under
  \<open>tests/fixtures/\<close>. It models no code of the repository.
\<close>

section \<open>Primitive encodings\<close>

fun min_octets :: "nat \<Rightarrow> bytes" where
  "min_octets n = (if n < 256 then [of_nat n] else min_octets (n div 256) @ [of_nat (n mod 256)])"

declare min_octets.simps [simp del]

text \<open>
  Lengths beyond the longest form of X.690, which no memory holds, are written in unary after
  the reserved octet, so that the function is total and one to one.
\<close>

definition len_octets :: "nat \<Rightarrow> bytes" where
  "len_octets n =
     (if n < 128 then [of_nat n]
      else if length (min_octets n) < 127 then of_nat (128 + length (min_octets n)) # min_octets n
      else 0xFF # replicate n 0 @ [1])"

definition tlv :: "u8 \<Rightarrow> bytes \<Rightarrow> bytes" where
  "tlv tag content = tag # len_octets (length content) @ content"

text \<open>Two's complement with as few octets as possible.\<close>

function int_octets :: "int \<Rightarrow> bytes" where
  "int_octets i =
     (if - 128 \<le> i \<and> i < 128 then [of_int i] else int_octets (i div 256) @ [of_int (i mod 256)])"
  by pat_completeness auto
termination
  by (relation "measure (\<lambda>i. nat \<bar>i\<bar>)") auto

declare int_octets.simps [simp del]

text \<open>Base 128, all octets but the last with the top bit.\<close>

fun sub_high :: "nat \<Rightarrow> bytes" where
  "sub_high n = (if n = 0 then [] else sub_high (n div 128) @ [of_nat (128 + n mod 128)])"

declare sub_high.simps [simp del]

definition sub_id :: "nat \<Rightarrow> bytes" where
  "sub_id n = sub_high (n div 128) @ [of_nat (n mod 128)]"

definition oid_octets :: "oid \<Rightarrow> bytes" where
  "oid_octets arcs =
     sub_id (40 * unat (arcs ! 0) + unat (arcs ! 1)) @ concat (map (\<lambda>a. sub_id (unat a)) (drop 2 arcs))"

definition ber_int :: "int \<Rightarrow> bytes" where "ber_int i = tlv 0x02 (int_octets i)"
definition ber_octets :: "bytes \<Rightarrow> bytes" where "ber_octets bs = tlv 0x04 bs"
definition ber_null :: bytes where "ber_null = tlv 0x05 []"
definition ber_oid :: "oid \<Rightarrow> bytes" where "ber_oid arcs = tlv 0x06 (oid_octets arcs)"
definition ber_seq :: "bytes list \<Rightarrow> bytes" where "ber_seq items = tlv 0x30 (concat items)"

section \<open>The message types\<close>

fun ber_value_v2 :: "value_v2 \<Rightarrow> bytes" where
  "ber_value_v2 (ValueV2 (SimpleV2 (IntegerV2 i))) = ber_int i"
| "ber_value_v2 (ValueV2 (SimpleV2 (StringV2 bs))) = ber_octets bs"
| "ber_value_v2 (ValueV2 (SimpleV2 (ObjectIdV2 arcs))) = ber_oid arcs"
| "ber_value_v2 (ValueV2 (ApplicationWideV2 (AddressV2 bs))) = tlv 0x40 bs"
| "ber_value_v2 (ValueV2 (ApplicationWideV2 (UnsignedV2 u))) = tlv 0x42 (int_octets (uint u))"
| "ber_value_v2 (ValueV2 (ApplicationWideV2 (TicksV2 t))) = tlv 0x43 (int_octets (uint t))"
| "ber_value_v2 (ValueV2 (ApplicationWideV2 (BigCounterV2 n))) = tlv 0x46 (int_octets (uint n))"
| "ber_value_v2 UnspecifiedV2 = ber_null"

fun ber_value_v1 :: "object_v1 \<Rightarrow> bytes" where
  "ber_value_v1 (SimpleV1 (NumberV1 i)) = ber_int i"
| "ber_value_v1 (SimpleV1 (StringV1 bs)) = ber_octets bs"
| "ber_value_v1 (SimpleV1 (ObjectV1 arcs)) = ber_oid arcs"
| "ber_value_v1 (SimpleV1 EmptyV1) = ber_null"
| "ber_value_v1 (ApplicationWideV1 (AddressV1 (Internet bs))) = tlv 0x40 bs"
| "ber_value_v1 (ApplicationWideV1 (GaugeV1 u)) = tlv 0x42 (int_octets (uint u))"
| "ber_value_v1 (ApplicationWideV1 (TicksV1 t)) = tlv 0x43 (int_octets (uint t))"

definition ber_pdu_v2 :: "pdu_v2 \<Rightarrow> bytes" where
  "ber_pdu_v2 p = tlv 0xA7 (ber_int (sint (request_id p)) @ ber_int (uint (error_status p))
     @ ber_int (uint (error_index p))
     @ ber_seq (map (\<lambda>b. ber_seq [ber_oid (name_v2 b), ber_value_v2 (value_v2 b)]) (variable_bindings p)))"

fun ber_address :: "network_address \<Rightarrow> bytes" where
  "ber_address (Internet bs) = tlv 0x40 bs"

definition ber_trap_v1 :: "trap_v1 \<Rightarrow> bytes" where
  "ber_trap_v1 t = tlv 0xA4 (ber_oid (trap_enterprise t) @ ber_address (trap_agent_addr t)
     @ ber_int (trap_generic t) @ ber_int (trap_specific t)
     @ tlv 0x43 (int_octets (uint (trap_time_stamp t)))
     @ ber_seq (map (\<lambda>b. ber_seq [ber_oid (name_v1 b), ber_value_v1 (value_v1 b)]) (trap_bindings t)))"

definition ber_scoped :: "scoped_pdu \<Rightarrow> bytes" where
  "ber_scoped s = ber_seq [ber_octets (scoped_engine_id s), ber_octets (scoped_name s),
     ber_pdu_v2 (scoped_trap s)]"

fun ber_scoped_data :: "scoped_data \<Rightarrow> bytes" where
  "ber_scoped_data (CleartextPdu s) = ber_scoped s"
| "ber_scoped_data (EncryptedPdu bs) = ber_octets bs"

definition ber_usm :: "usm_params \<Rightarrow> bytes" where
  "ber_usm p = ber_seq [ber_octets (authoritative_engine_id p),
     ber_int (authoritative_engine_boots p), ber_int (authoritative_engine_time p),
     ber_octets (usm_user_name p), ber_octets (authentication_parameters p),
     ber_octets (privacy_parameters p)]"

definition ber_v3 :: "message_v3 \<Rightarrow> bytes" where
  "ber_v3 m = ber_seq [ber_int (v3_version m),
     ber_seq [ber_int (message_id (global_data m)), ber_int (max_size (global_data m)),
       ber_octets (flags (global_data m)), ber_int (security_model (global_data m))],
     ber_octets (security_parameters m), ber_scoped_data (v3_scoped_data m)]"

definition ber_codec :: codec where
  "ber_codec = \<lparr>
     encode_v1 = (\<lambda>m. Ok (ber_seq [ber_int (v1_version m), ber_octets (v1_community m),
       ber_trap_v1 (v1_data m)])),
     encode_v2c = (\<lambda>m. Ok (ber_seq [ber_int (v2c_version m), ber_octets (v2c_community m),
       ber_pdu_v2 (v2c_data m)])),
     encode_scoped = (\<lambda>s. Ok (ber_scoped s)),
     encode_usm = (\<lambda>p. Ok (ber_usm p)),
     encode_v3 = (\<lambda>m. Ok (ber_v3 m)),
     no_error_status = 0,
     version_v1 = 0,
     version_v2c = 1 \<rparr>"

section \<open>The instance meets the contract\<close>

lemma splices_octets:
  "splices (\<lambda>a. Ok (ber_seq (pre @ ber_octets a # post)))"
  unfolding splices_def
proof (rule allI, rule disjI1)
  fix n
  let ?k = "length (concat pre) + (1 + length (len_octets n) + n) + length (concat post)"
  have "ber_seq (pre @ ber_octets a # post)
      = (0x30 # len_octets ?k @ concat pre @ 0x04 # len_octets n) @ a @ concat post"
    if "length a = n" for a
    using that by (simp add: ber_seq_def ber_octets_def tlv_def algebra_simps)
  then show "\<exists>p q. \<forall>a. length a = n \<longrightarrow> Ok (ber_seq (pre @ ber_octets a # post)) = Ok (p @ a @ q)"
    by blast
qed

lemma ber_splice_law [simp]: "splice_law ber_codec"
proof -
  have "splices (\<lambda>a. Ok (ber_usm (p\<lparr>authentication_parameters := a\<rparr>)) :: (bytes, rstr) result)" for p
    using splices_octets [of "[ber_octets (authoritative_engine_id p),
        ber_int (authoritative_engine_boots p), ber_int (authoritative_engine_time p),
        ber_octets (usm_user_name p)]" "[ber_octets (privacy_parameters p)]"]
    by (simp add: ber_usm_def)
  moreover have "splices (\<lambda>s. Ok (ber_v3 (m\<lparr>security_parameters := s\<rparr>)) :: (bytes, rstr) result)" for m
    using splices_octets [of "[ber_int (v3_version m),
       ber_seq [ber_int (message_id (global_data m)), ber_int (max_size (global_data m)),
         ber_octets (flags (global_data m)), ber_int (security_model (global_data m))]]"
       "[ber_scoped_data (v3_scoped_data m)]"]
    by (simp add: ber_v3_def)
  ultimately show ?thesis by (simp add: splice_law_def ber_codec_def)
qed

section \<open>The captured messages\<close>

lemmas ber_eval = ber_seq_def ber_int_def ber_octets_def ber_oid_def ber_null_def
  ber_pdu_v2_def ber_trap_v1_def tlv_def len_octets_def int_octets.simps min_octets.simps
  sub_high.simps sub_id_def oid_octets_def utf8_def utf8_char_def lit_def

text \<open>
  With the reference encoder, the trap of the first test under \<open>tests/fixtures/\<close> gives the
  bytes captured from Net-SNMP's \<open>snmptrap\<close> for SNMPv1, octet by octet.
\<close>

lemma golden_v1:
  "build_v1_trap ber_codec
     \<lparr>v1t_community = utf8 (lit ''public''), v1t_enterprise = [1, 3, 6, 1, 4, 1, 8072, 2, 3, 0, 1],
      v1t_agent_addr = Ipv4 10 0 0 1, v1t_generic = 6, v1t_specific = 17, v1t_uptime = 99999,
      v1t_varbinds = [([1, 3, 6, 1, 4, 1, 8072, 2, 3, 2, 1], VInteger 7)]\<rparr>
   = Ok
      [48, 63, 2, 1, 0, 4, 6, 112, 117, 98, 108, 105, 99, 164, 50, 6, 11, 43, 6, 1,
      4, 1, 191, 8, 2, 3, 0, 1, 64, 4, 10, 0, 0, 1, 2, 1, 6, 2, 1, 17, 67, 3, 1, 134,
      159, 48, 18, 48, 16, 6, 11, 43, 6, 1, 4, 1, 191, 8, 2, 3, 2, 1, 2, 1, 7]"
  by (simp add: build_v1_trap_def make_v1_varbind_def ber_codec_def ber_trap_v1_def)
    (simp add: ber_eval)

text \<open>
  With the reference encoder, the trap of the other test gives the bytes captured from
  Net-SNMP's \<open>snmptrap\<close> for SNMPv2c, octet by octet, with the request identifier of the
  capture.
\<close>

lemma golden_v2c:
  "build_v2c_trap ber_codec
     \<lparr>v2t_community = utf8 (lit ''public''), v2t_request_id = 1172399486, v2t_uptime = 12345,
      v2t_trap_oid = [1, 3, 6, 1, 6, 3, 1, 1, 5, 1],
      v2t_varbinds = [([1, 3, 6, 1, 4, 1, 8072, 2, 3, 2, 1], VInteger 42)]\<rparr>
   = Ok
      [48, 86, 2, 1, 1, 4, 6, 112, 117, 98, 108, 105, 99, 167, 73, 2, 4, 69, 225,
      101, 126, 2, 1, 0, 2, 1, 0, 48, 59, 48, 14, 6, 8, 43, 6, 1, 2, 1, 1, 3, 0, 67,
      2, 48, 57, 48, 23, 6, 10, 43, 6, 1, 6, 3, 1, 1, 4, 1, 0, 6, 9, 43, 6, 1, 6, 3,
      1, 1, 5, 1, 48, 16, 6, 11, 43, 6, 1, 4, 1, 191, 8, 2, 3, 2, 1, 2, 1, 42]"
  by (simp add: build_v2c_message v2_bindings_def SYS_UPTIME_OID_def SNMP_TRAP_OID_OID_def
      ber_codec_def)
    (simp add: ber_eval)

end
