(* ===== verification/BerCode.thy ===== *)
theory BerCode
  imports Ber
begin

text \<open>
  The reference encoder is unambiguous: encodings can be concatenated and taken apart again, so
  a message with valid identifiers is determined by its bytes. This is what BER promises of the
  crate \<open>rasn\<close>, stated as \<open>unambiguous_law\<close>.
\<close>

section \<open>Codes without ambiguity\<close>

text \<open>What is concatenated can be taken apart again.\<close>

locale prefix_code =
  fixes enc :: "'a \<Rightarrow> bytes" and valid :: "'a \<Rightarrow> bool"
  assumes cancel: "valid x \<Longrightarrow> valid y \<Longrightarrow> enc x @ xs = enc y @ ys \<Longrightarrow> x = y \<and> xs = ys"
    and nonempty: "enc x \<noteq> []"
begin

lemma append_iff: "valid x \<Longrightarrow> valid y \<Longrightarrow> enc x @ xs = enc y @ ys \<longleftrightarrow> x = y \<and> xs = ys"
  using cancel by blast

lemma eq_iff: "valid x \<Longrightarrow> valid y \<Longrightarrow> enc x = enc y \<longleftrightarrow> x = y"
  using append_iff [of x y "[]" "[]"] by simp

lemma lists:
  "list_all valid xs \<Longrightarrow> list_all valid ys \<Longrightarrow> concat (map enc xs) = concat (map enc ys) \<Longrightarrow> xs = ys"
proof (induction xs arbitrary: ys)
  case Nil
  then show ?case using nonempty [of "hd ys"] by (cases ys) simp_all
next
  case (Cons x xs)
  then obtain y zs where ys: "ys = y # zs" using nonempty [of x] by (cases ys) simp_all
  with Cons.prems have "valid x" "valid y" "enc x @ concat (map enc xs) = enc y @ concat (map enc zs)"
    by simp_all
  then have "x = y \<and> concat (map enc xs) = concat (map enc zs)" by (rule cancel)
  with Cons ys show ?case by simp
qed

end

section \<open>Numbers\<close>

lemma append_last_iff: "xs @ [x] = ys @ [y] \<longleftrightarrow> xs = ys \<and> x = y"
  by auto

lemma octet_eq_iff:
  "m < 256 \<Longrightarrow> n < 256 \<Longrightarrow> (of_nat m :: u8) = of_nat n \<longleftrightarrow> m = n"
  by (simp add: word_of_nat_eq_iff take_bit_eq_mod)

lemma min_octets_nonempty [simp]: "min_octets n \<noteq> []" "[] \<noteq> min_octets n"
  by (subst min_octets.simps, simp)+

lemma min_octets_inj: "min_octets m = min_octets n \<Longrightarrow> m = n"
proof (induction m arbitrary: n rule: min_octets.induct)
  case (1 m)
  show ?case
  proof (cases "m < 256"; cases "n < 256")
    assume "m < 256" "n < 256"
    then show ?thesis using "1.prems" by (simp add: min_octets.simps octet_eq_iff)
  next
    assume "\<not> m < 256" "\<not> n < 256"
    then have "m div 256 = n div 256 \<and> m mod 256 = n mod 256"
      using "1.prems" "1.IH" by (simp add: min_octets.simps [of m] min_octets.simps [of n] octet_eq_iff)
    then show ?thesis by (metis div_mult_mod_eq)
  qed (use "1.prems" in \<open>simp_all add: min_octets.simps [of m] min_octets.simps [of n]\<close>)
qed

lemma int_octets_nonempty [simp]: "int_octets i \<noteq> []" "[] \<noteq> int_octets i"
  by (subst int_octets.simps, simp)+

lemma sint_octet: "- 128 \<le> i \<Longrightarrow> i < 128 \<Longrightarrow> sint (of_int i :: u8) = i"
  by (simp add: signed_of_int signed_take_bit_int_eq_self)

lemma uint_octet: "uint (of_int (i mod 256) :: u8) = i mod 256"
  by (simp add: unsigned_of_int take_bit_eq_mod)

lemma int_octets_cases:
  "- 128 \<le> i \<and> i < 128 \<Longrightarrow> int_octets i = [of_int i]"
  "\<not> (- 128 \<le> i \<and> i < 128) \<Longrightarrow> int_octets i = int_octets (i div 256) @ [of_int (i mod 256)]"
  by (subst int_octets.simps, simp only: if_True if_False simp_thms)+

lemma int_octets_inj: "int_octets i = int_octets j \<Longrightarrow> i = j"
proof (induction i arbitrary: j rule: int_octets.induct)
  case (1 i)
  let ?small = "\<lambda>i. - 128 \<le> i \<and> i < (128 :: int)"
  show ?case
  proof (cases "?small i"; cases "?small j")
    assume s: "?small i" "?small j"
    from "1.prems" have "(of_int i :: u8) = of_int j"
      unfolding int_octets_cases(1) [OF s(1)] int_octets_cases(1) [OF s(2)] by simp
    with s show ?thesis by (metis sint_octet)
  next
    assume l: "\<not> ?small i" "\<not> ?small j"
    from "1.prems" have "int_octets (i div 256) = int_octets (j div 256)"
      and w: "(of_int (i mod 256) :: u8) = of_int (j mod 256)"
      unfolding int_octets_cases(2) [OF l(1)] int_octets_cases(2) [OF l(2)] by simp_all
    then have "i div 256 = j div 256" using l "1.IH" by blast
    moreover have "i mod 256 = j mod 256" using arg_cong [OF w, of uint] by (simp only: uint_octet)
    ultimately show ?thesis by (metis div_mult_mod_eq)
  next
    assume "?small i" "\<not> ?small j"
    with "1.prems" show ?thesis using int_octets_cases(1) [of i] int_octets_cases(2) [of j] by simp
  next
    assume "\<not> ?small i" "?small j"
    with "1.prems" show ?thesis using int_octets_cases(2) [of i] int_octets_cases(1) [of j] by simp
  qed
qed

text \<open>Base 128: the top bit says that more octets follow.\<close>

lemma high_octet: "128 + n mod 128 < (256 :: nat)"
  using mod_less_divisor [of 128 n] by linarith

lemma sub_high_inj: "sub_high m = sub_high n \<Longrightarrow> m = n"
proof (induction m arbitrary: n rule: sub_high.induct)
  case (1 m)
  show ?case
  proof (cases "m = 0 \<or> n = 0")
    case True
    then show ?thesis using "1.prems" by (auto simp: sub_high.simps [of m] sub_high.simps [of n] split: if_splits)
  next
    case False
    then have "m div 128 = n div 128 \<and> 128 + m mod 128 = 128 + n mod 128"
      using "1.prems" "1.IH" octet_eq_iff [OF high_octet high_octet, of m n]
      by (simp add: sub_high.simps [of m] sub_high.simps [of n])
    then show ?thesis by (metis add_left_cancel div_mult_mod_eq)
  qed
qed

lemma sub_high_top: "b \<in> set (sub_high n) \<Longrightarrow> 128 \<le> b"
proof (induction n rule: sub_high.induct)
  case (1 n)
  have "(128 :: u8) \<le> of_nat (128 + n mod 128)"
    using high_octet [of n] by (simp only: word_le_nat_alt unat_of_nat) simp
  with 1 show ?case by (auto simp: sub_high.simps [of n] split: if_splits)
qed

lemma low_octet: "(of_nat (n mod 128) :: u8) < 128"
  by (simp add: word_less_nat_alt unat_of_nat)

interpretation sub_id: prefix_code sub_id "\<lambda>_. True"
proof unfold_locales
  fix m n xs ys
  assume "sub_id m @ xs = sub_id n @ ys"
  then have e: "sub_high (m div 128) @ of_nat (m mod 128) # xs = sub_high (n div 128) @ of_nat (n mod 128) # ys"
    by (simp add: sub_id_def)
  have t: "takeWhile (\<lambda>b. 128 \<le> b) (sub_high k @ of_nat (j mod 128) # zs) = sub_high k"
    "dropWhile (\<lambda>b. 128 \<le> b) (sub_high k @ of_nat (j mod 128) # zs) = of_nat (j mod 128) # zs"
    for k j :: nat and zs
    using sub_high_top low_octet [of j] by (simp_all add: takeWhile_append2 dropWhile_append2 not_le)
  from arg_cong [OF e, of "takeWhile (\<lambda>b. 128 \<le> b)"] arg_cong [OF e, of "dropWhile (\<lambda>b. 128 \<le> b)"]
  have "sub_high (m div 128) = sub_high (n div 128)"
    and r: "(of_nat (m mod 128) :: u8) = of_nat (n mod 128)" "xs = ys"
    by (simp_all only: t list.inject)
  then have "m div 128 = n div 128" "m mod 128 = n mod 128"
    using sub_high_inj octet_eq_iff [of "m mod 128" "n mod 128"] by (auto simp: less_imp_le_nat)
  then show "m = n \<and> xs = ys" using r by (metis div_mult_mod_eq)
qed (simp add: sub_id_def)

section \<open>Tagged values\<close>

lemma unary_inj: "replicate m 0 @ (1 :: u8) # xs = replicate n 0 @ 1 # ys \<Longrightarrow> m = n \<and> xs = ys"
proof (induction m arbitrary: n)
  case 0
  then show ?case by (cases n) simp_all
next
  case (Suc m)
  then show ?case by (cases n) simp_all
qed

interpretation len: prefix_code len_octets "\<lambda>_. True"
proof unfold_locales
  fix m n xs ys
  assume e: "len_octets m @ xs = len_octets n @ ys"
  let ?first = "\<lambda>n. if n < 128 then n else if length (min_octets n) < 127 then 128 + length (min_octets n)
    else 255"
  have f: "hd (len_octets k @ zs) = of_nat (?first k)" "?first k < 256" for k zs
    by (simp_all add: len_octets_def)
  from arg_cong [OF e, of hd] have first: "?first m = ?first n"
    unfolding f(1) by (simp only: octet_eq_iff [OF f(2) f(2)])
  consider "m < 128" "n < 128"
    | "\<not> m < 128" "\<not> n < 128" "length (min_octets m) < 127" "length (min_octets n) < 127"
    | "\<not> m < 128" "\<not> n < 128" "\<not> length (min_octets m) < 127" "\<not> length (min_octets n) < 127"
    using first by (simp split: if_splits)
  then show "m = n \<and> xs = ys"
  proof cases
    case 1
    with e show ?thesis using octet_eq_iff [of m n] by (simp add: len_octets_def)
  next
    case 2
    with first have l: "length (min_octets m) = length (min_octets n)" by simp
    from 2 e have "min_octets m @ xs = min_octets n @ ys" by (simp add: len_octets_def)
    with l show ?thesis by (simp add: min_octets_inj)
  next
    case 3
    with e have "replicate m 0 @ (1 :: u8) # xs = replicate n 0 @ 1 # ys" by (simp add: len_octets_def)
    then show ?thesis by (rule unary_inj)
  qed
qed (simp add: len_octets_def)

lemma tlv_nonempty [simp]: "tlv t c \<noteq> []"
  by (simp add: tlv_def)

lemma tlv_append_iff [simp]: "tlv t c @ xs = tlv u d @ ys \<longleftrightarrow> t = u \<and> c = d \<and> xs = ys"
proof
  assume "tlv t c @ xs = tlv u d @ ys"
  then have "t = u" "len_octets (length c) @ (c @ xs) = len_octets (length d) @ (d @ ys)"
    by (simp_all add: tlv_def)
  from len.cancel [OF TrueI TrueI this(2)] this(1) show "t = u \<and> c = d \<and> xs = ys" by auto
qed simp

lemma tlv_eq_iff [simp]: "tlv t c = tlv u d \<longleftrightarrow> t = u \<and> c = d"
  using tlv_append_iff [of t c "[]" u d "[]"] by (simp del: tlv_append_iff)

section \<open>Integers, octet strings, identifiers\<close>

lemmas word_eq = word_uint_eq_iff [symmetric] word_unat_eq_iff [symmetric]

lemma int_octets_eq_iff [simp]: "int_octets i = int_octets j \<longleftrightarrow> i = j"
  using int_octets_inj by blast

lemma ber_int_iffs [simp]:
  "ber_int i @ xs = ber_int j @ ys \<longleftrightarrow> i = j \<and> xs = ys" "ber_int i = ber_int j \<longleftrightarrow> i = j"
  by (auto simp: ber_int_def)

lemma ber_octets_iffs [simp]:
  "ber_octets a @ xs = ber_octets b @ ys \<longleftrightarrow> a = b \<and> xs = ys" "ber_octets a = ber_octets b \<longleftrightarrow> a = b"
  by (auto simp: ber_octets_def)

lemma oid_octets_inj: "valid_oid xs \<Longrightarrow> valid_oid ys \<Longrightarrow> oid_octets xs = oid_octets ys \<Longrightarrow> xs = ys"
proof -
  assume v: "valid_oid xs" "valid_oid ys" and e: "oid_octets xs = oid_octets ys"
  have "sub_id (ber_first xs) @ concat (map sub_id (map unat (drop 2 xs)))
      = sub_id (ber_first ys) @ concat (map sub_id (map unat (drop 2 ys)))"
    using e by (simp add: oid_octets_def ber_first_def comp_def)
  from sub_id.cancel [OF TrueI TrueI this] have first: "ber_first xs = ber_first ys"
    and "concat (map sub_id (map unat (drop 2 xs))) = concat (map sub_id (map unat (drop 2 ys)))"
    by simp_all
  from sub_id.lists [OF _ _ this(2)] have "map unat (drop 2 xs) = map unat (drop 2 ys)"
    by (simp add: list_all_iff)
  then have "drop 2 xs = drop 2 ys"
    by (rule map_injective) (simp add: inj_on_def word_eq)
  moreover have "zs = zs ! 0 # zs ! 1 # drop 2 zs" if "valid_oid zs" for zs
    using that by (cases zs; cases "tl zs") (auto simp: valid_oid_def)
  ultimately show ?thesis using v ber_first_inj [OF v first] by metis
qed

interpretation oid: prefix_code ber_oid valid_oid
  by unfold_locales (auto simp: ber_oid_def dest: oid_octets_inj)

declare oid.append_iff [simp] oid.eq_iff [simp]

section \<open>The messages\<close>

text \<open>
  BER merges the first two arcs of an identifier, so only messages whose identifiers are valid
  can be told apart.
\<close>

fun valid_value_v2 :: "value_v2 \<Rightarrow> bool" where
  "valid_value_v2 (ValueV2 (SimpleV2 (ObjectIdV2 arcs))) = valid_oid arcs"
| "valid_value_v2 _ = True"

fun valid_value_v1 :: "object_v1 \<Rightarrow> bool" where
  "valid_value_v1 (SimpleV1 (ObjectV1 arcs)) = valid_oid arcs"
| "valid_value_v1 _ = True"

definition valid_binding_v2 :: "varbind_v2 \<Rightarrow> bool" where
  "valid_binding_v2 b \<longleftrightarrow> valid_oid (name_v2 b) \<and> valid_value_v2 (value_v2 b)"

definition valid_binding_v1 :: "varbind_v1 \<Rightarrow> bool" where
  "valid_binding_v1 b \<longleftrightarrow> valid_oid (name_v1 b) \<and> valid_value_v1 (value_v1 b)"

definition valid_pdu :: "pdu_v2 \<Rightarrow> bool" where
  "valid_pdu pdu \<longleftrightarrow> list_all valid_binding_v2 (variable_bindings pdu)"

definition valid_v1 :: "message_v1 \<Rightarrow> bool" where
  "valid_v1 m \<longleftrightarrow> valid_oid (trap_enterprise (v1_data m))
     \<and> list_all valid_binding_v1 (trap_bindings (v1_data m))"

definition valid_v3 :: "message_v3 \<Rightarrow> bool" where
  "valid_v3 msg \<longleftrightarrow>
     (case v3_scoped_data msg of
        CleartextPdu sp \<Rightarrow> valid_pdu (scoped_trap sp) | EncryptedPdu ct \<Rightarrow> True)"

lemma ber_value_v2_inj:
  "valid_value_v2 v \<Longrightarrow> valid_value_v2 w \<Longrightarrow> ber_value_v2 v = ber_value_v2 w \<Longrightarrow> v = w"
  by (cases v rule: ber_value_v2.cases; cases w rule: ber_value_v2.cases)
    (auto simp: ber_int_def ber_octets_def ber_oid_def ber_null_def word_eq dest: oid_octets_inj)

lemma ber_value_v1_inj:
  "valid_value_v1 v \<Longrightarrow> valid_value_v1 w \<Longrightarrow> ber_value_v1 v = ber_value_v1 w \<Longrightarrow> v = w"
  by (cases v rule: ber_value_v1.cases; cases w rule: ber_value_v1.cases)
    (auto simp: ber_int_def ber_octets_def ber_oid_def ber_null_def word_eq dest: oid_octets_inj)

lemma ber_seq_iffs [simp]:
  "ber_seq a @ xs = ber_seq b @ ys \<longleftrightarrow> concat a = concat b \<and> xs = ys"
  "ber_seq a = ber_seq b \<longleftrightarrow> concat a = concat b"
  by (simp_all add: ber_seq_def)

interpretation binding_v2:
  prefix_code "\<lambda>b. ber_seq [ber_oid (name_v2 b), ber_value_v2 (value_v2 b)]" valid_binding_v2
  by unfold_locales
    (auto simp: valid_binding_v2_def ber_seq_def dest: ber_value_v2_inj intro: varbind_v2.equality)

interpretation binding_v1:
  prefix_code "\<lambda>b. ber_seq [ber_oid (name_v1 b), ber_value_v1 (value_v1 b)]" valid_binding_v1
  by unfold_locales
    (auto simp: valid_binding_v1_def ber_seq_def dest: ber_value_v1_inj intro: varbind_v1.equality)

lemma ber_pdu_inj:
  "valid_pdu p \<Longrightarrow> valid_pdu q \<Longrightarrow> ber_pdu_v2 p = ber_pdu_v2 q \<Longrightarrow> p = q"
  using binding_v2.lists [of "variable_bindings p" "variable_bindings q"]
  by (auto simp: valid_pdu_def ber_pdu_v2_def word_eq intro: pdu_v2.equality)

lemma ber_scoped_inj:
  "valid_pdu (scoped_trap s) \<Longrightarrow> valid_pdu (scoped_trap u) \<Longrightarrow> ber_scoped s = ber_scoped u \<Longrightarrow> s = u"
  by (auto simp: ber_scoped_def dest: ber_pdu_inj intro: scoped_pdu.equality)

lemma ber_usm_inj: "ber_usm p = ber_usm q \<Longrightarrow> p = q"
  by (auto simp: ber_usm_def intro: usm_params.equality)

lemma ber_trap_v1_inj:
  assumes "valid_oid (trap_enterprise t)" and "valid_oid (trap_enterprise u)"
    and "list_all valid_binding_v1 (trap_bindings t)" and "list_all valid_binding_v1 (trap_bindings u)"
    and "ber_trap_v1 t = ber_trap_v1 u"
  shows "t = u"
proof -
  have "ber_address a @ xs = ber_address b @ ys \<longleftrightarrow> a = b \<and> xs = ys" for a b xs ys
    by (cases a; cases b) simp
  then show ?thesis
    using assms binding_v1.lists [OF assms(3,4)]
    by (auto simp: ber_trap_v1_def word_eq intro: trap_v1.equality)
qed

lemma ber_v3_inj:
  assumes "valid_v3 m" and "valid_v3 n" and "ber_v3 m = ber_v3 n"
  shows "m = n"
proof -
  have "ber_scoped_data (v3_scoped_data m) = ber_scoped_data (v3_scoped_data n)"
    using assms(3) by (simp add: ber_v3_def)
  then have "v3_scoped_data m = v3_scoped_data n"
    using assms(1,2)
    by (cases "v3_scoped_data m"; cases "v3_scoped_data n")
      (auto simp: valid_v3_def ber_octets_def ber_scoped_def ber_seq_def
         dest: ber_scoped_inj [unfolded ber_scoped_def ber_seq_def])
  then show ?thesis
    using assms(3) by (auto simp: ber_v3_def intro!: message_v3.equality header_v3.equality)
qed

section \<open>The law\<close>

definition tells_apart :: "('a \<Rightarrow> bool) \<Rightarrow> ('a \<Rightarrow> (bytes, rstr) result) \<Rightarrow> bool" where
  "tells_apart valid enc \<longleftrightarrow>
     (\<forall>x y b. valid x \<longrightarrow> valid y \<longrightarrow> enc x = Ok b \<longrightarrow> enc y = Ok b \<longrightarrow> x = y)"

text \<open>Two messages with valid identifiers and the same bytes are the same message.\<close>

definition unambiguous_law :: "codec \<Rightarrow> bool" where
  "unambiguous_law cd \<longleftrightarrow>
     tells_apart valid_v1 (encode_v1 cd)
     \<and> tells_apart (\<lambda>m. valid_pdu (v2c_data m)) (encode_v2c cd)
     \<and> tells_apart (\<lambda>s. valid_pdu (scoped_trap s)) (encode_scoped cd)
     \<and> tells_apart (\<lambda>p. True) (encode_usm cd)
     \<and> tells_apart valid_v3 (encode_v3 cd)"

lemma ber_unambiguous: "unambiguous_law ber_codec"
proof -
  have "tells_apart valid_v1 (encode_v1 ber_codec)"
    by (auto simp: tells_apart_def ber_codec_def valid_v1_def dest: ber_trap_v1_inj
        intro!: message_v1.equality)
  moreover have "tells_apart (\<lambda>m. valid_pdu (v2c_data m)) (encode_v2c ber_codec)"
    by (auto simp: tells_apart_def ber_codec_def dest: ber_pdu_inj intro!: message_v2c.equality)
  ultimately show ?thesis
    by (auto simp: unambiguous_law_def tells_apart_def ber_codec_def
        dest: ber_scoped_inj ber_usm_inj ber_v3_inj)
qed

end
