(* ===== verification/V3Message.thy ===== *)
theory V3Message
  imports Ber
begin

text \<open>
  What the receiver of an SNMPv3 trap gets: the properties of \<open>build_v3_trap_message\<close>, each
  evaluated at a concrete message with the reference encoder of \<open>Ber\<close> and the small
  cryptographic functions of \<open>Usm\<close>.
\<close>

section \<open>A concrete message\<close>

definition sample_trap :: v2c_trap where
  "sample_trap = \<lparr>v2t_community = [], v2t_request_id = 7, v2t_uptime = 42,
     v2t_trap_oid = [1, 3, 6, 1, 6, 3, 1, 1, 5, 1], v2t_varbinds = []\<rparr>"

definition sample_message :: "v3_security \<Rightarrow> v3_trap_message" where
  "sample_message s = \<lparr>m_authoritative_engine_id = EngineId [0x80, 0, 0xF0, 0x45, 1, 198, 51, 100, 42],
     m_context_engine_id = EngineId [0x80, 0, 0xF0, 0x45, 1, 198, 51, 100, 42],
     m_context_name = [], m_user_name = [117], m_engine_boots = 1, m_engine_time = 0,
     m_msg_id = 1, m_security = s, m_trap = sample_trap\<rparr>"

definition sample_security :: v3_security where
  "sample_security = SecAuthPriv Sha1 (replicate 20 7) Aes128 (replicate 16 9) 5"

text \<open>The reference encoder never fails, so every message with fitting keys is built.\<close>

lemma ber_wire_ok: "\<exists>b. wire ber_codec m sd pp a = Ok b"
  by (simp add: wire_def ber_codec_def)

lemma ber_build_Ok:
  assumes "size_law C" and "keys_fit (m_security m)"
  shows "\<exists>out. build_v3_trap_message debug C ber_codec m = Return (Ok out)"
proof -
  obtain r where r: "build_v3_trap_message debug C ber_codec m = Return r"
    using build_v3_returns [OF assms(1) ber_splice_law assms(2)] by (auto simp: returns_def)
  have sd: "scoped_data_of C ber_codec m sp \<noteq> Return (Err e)" for sp e
    by (cases "m_security m") (auto simp: scoped_data_of_def encode_with_def ber_codec_def and_try_eq_Err)
  have "r \<noteq> Err e" for e
  proof
    assume "r = Err e"
    with r show False
      using ber_wire_ok [of m]
      unfolding build_v3_wire
      by (auto simp: and_try_eq_Err sd split: option.splits if_splits) (metis result.distinct(1))+
  qed
  with r show ?thesis by (cases r) auto
qed

lemma sample_keys_fit: "keys_fit (m_security (sample_message sample_security))"
  by (simp add: sample_message_def sample_security_def)

section \<open>Properties\<close>

text \<open>
  C1: Every authenticated message is one the receiver can verify: its bytes are those of the
  message whose authentication parameters are the tag, with the tag in one place, and zeroing
  that place gives exactly the bytes of the message with a zero field of the same length, whose
  truncated HMAC under the key of the message is the tag.
\<close>

lemma v3_tag_verifies:
  assumes "splice_law cd" and "build_v3_trap_message debug C cd m = Return (Ok out)"
    and "auth (m_security m) = Some (p, k)"
  shows "\<exists>sd pp pre tag post t.
      scoped_data_of C cd m (scoped_of cd m) = Return (Ok (sd, pp))
    \<and> out = pre @ tag @ post
    \<and> wire cd m sd pp tag = Ok out
    \<and> wire cd m sd pp (replicate (auth_param_len p) 0) = Ok (pre @ replicate (auth_param_len p) 0 @ post)
    \<and> length tag = auth_param_len p
    \<and> hmac_tag C p k (pre @ replicate (auth_param_len p) 0 @ post) = Some t
    \<and> tag = take (auth_param_len p) t"
proof (rule build_v3_Ok [OF assms(2)])
  fix sd pp a
  assume sd: "scoped_data_of C cd m (scoped_of cd m) = Return (Ok (sd, pp))"
    and w: "wire cd m sd pp a = Ok out" and la: "length a = placeholder_len (m_security m)"
    and s: "\<And>p k. auth (m_security m) = Some (p, k) \<Longrightarrow>
      \<exists>b0. wire cd m sd pp (replicate (auth_param_len p) 0) = Ok b0 \<and> auth_sign C b0 k p = Return a"
  from s [OF assms(3)] obtain b0 where
    b0: "wire cd m sd pp (replicate (auth_param_len p) 0) = Ok b0" "auth_sign C b0 k p = Return a"
    by blast
  have len: "length a = auth_param_len p" using la assms(3) by (simp add: placeholder_len_auth)
  from splices_same_length [OF wire_splices [OF assms(1)] w, of "replicate (auth_param_len p) 0"]
  obtain pre post where "out = pre @ a @ post" "b0 = pre @ replicate (auth_param_len p) 0 @ post"
    using b0(1) len by auto
  moreover from b0(2) obtain t where "hmac_tag C p k b0 = Some t" "a = take (auth_param_len p) t"
    by (auto simp: auth_sign_def split: if_splits)
  ultimately show ?thesis using len sd w b0(1) by blast
qed

lemma v3_tag_verifies_witness:
  "\<exists>out. build_v3_trap_message True sample_crypto ber_codec (sample_message sample_security) = Return (Ok out)
     \<and> (\<exists>pre tag post t. out = pre @ tag @ post \<and> length tag = 12
          \<and> hmac_tag sample_crypto Sha1 (replicate 20 7) (pre @ replicate 12 0 @ post) = Some t
          \<and> tag = take 12 t)"
proof -
  obtain out where out: "build_v3_trap_message True sample_crypto ber_codec
      (sample_message sample_security) = Return (Ok out)"
    using ber_build_Ok [OF sample_sizes sample_keys_fit] by blast
  have "auth (m_security (sample_message sample_security)) = Some (Sha1, replicate 20 7)"
    by (simp add: sample_message_def sample_security_def)
  from v3_tag_verifies [OF ber_splice_law out this] out show ?thesis by auto
qed


text \<open>
  C6: Every message that is built carries the trap: its bytes encode version 3, the header with
  the message identifier and the flags of the level, the security parameters with engine, boots,
  time and user, and a scoped PDU that is the trap's in clear, or, at the level with privacy,
  a ciphertext the receiver decrypts to the encoded PDU under the initialisation vector made of
  the boots, the time and the privacy parameters it is sent; the reportable flag is never set.
\<close>

lemma v3_message_carries_trap:
  assumes "cipher_law C" and "build_v3_trap_message debug C cd m = Return (Ok out)"
  shows "\<exists>sp a pp sd. encode_v3 cd \<lparr>v3_version = 3, global_data = v3_header m,
             security_parameters = sp, v3_scoped_data = sd\<rparr> = Ok out
     \<and> encode_usm cd (build_usm_params m a pp) = Ok sp \<and> carries C cd m sd pp
     \<and> flags (v3_header m) = [flag_byte (m_security m)] \<and> \<not> bit (flag_byte (m_security m)) 2"
proof -
  have "\<not> bit (flag_byte (m_security m)) 2"
    by (cases "m_security m") (simp_all add: FLAG_AUTH_def FLAG_PRIV_def bit_or_iff)
  then show ?thesis using build_v3_message [OF assms] by (auto simp: v3_header_def)
qed

lemma v3_message_carries_trap_witness:
  "\<exists>out sd pp. build_v3_trap_message True sample_crypto ber_codec (sample_message sample_security)
       = Return (Ok out)
     \<and> carries sample_crypto ber_codec (sample_message sample_security) sd pp"
proof -
  obtain out where out: "build_v3_trap_message True sample_crypto ber_codec
      (sample_message sample_security) = Return (Ok out)"
    using ber_build_Ok [OF sample_sizes sample_keys_fit] by blast
  from v3_message_carries_trap [OF sample_cipher out] out show ?thesis by blast
qed


end
