(* ===== verification/Wire.thy ===== *)
theory Wire
  imports BerCode V3Message Payload
begin

text \<open>
  What the octets of a trap say: with an encoder that tells messages apart, two traps with the
  same octets are the same trap, up to the difference between BITS and an octet string, which
  SMIv2 does not send.
\<close>

section \<open>Traps with valid identifiers\<close>

fun valid_value :: "varbind_value \<Rightarrow> bool" where
  "valid_value (VObjectId arcs) = valid_oid arcs"
| "valid_value _ = True"

definition valid_varbinds :: "(oid \<times> varbind_value) list \<Rightarrow> bool" where
  "valid_varbinds vbs \<longleftrightarrow> list_all (\<lambda>(oid, v). valid_oid oid \<and> valid_value v) vbs"

definition valid_trap :: "v2c_trap \<Rightarrow> bool" where
  "valid_trap t \<longleftrightarrow> valid_oid (v2t_trap_oid t) \<and> valid_varbinds (v2t_varbinds t)"

text \<open>The two traps ask for the same thing.\<close>

definition same_trap :: "v2c_trap \<Rightarrow> v2c_trap \<Rightarrow> bool" where
  "same_trap t u \<longleftrightarrow>
     v2t_request_id t = v2t_request_id u \<and> v2t_uptime t = v2t_uptime u
     \<and> v2t_trap_oid t = v2t_trap_oid u
     \<and> map (apsnd erase_bits) (v2t_varbinds t) = map (apsnd erase_bits) (v2t_varbinds u)"

lemma expressible_valid: "expressible_binding b \<Longrightarrow> valid_oid (fst b) \<and> valid_value (snd b)"
  by (cases "snd b") (auto simp: expressible_binding_def)

lemma parsed_varbinds_valid: "parse_trailing_varbinds rest = Return (Ok vbs) \<Longrightarrow> valid_varbinds vbs"
  using parse_trailing_expressible expressible_valid
  by (fastforce simp: valid_varbinds_def list_all_iff)

section \<open>SNMPv2c\<close>

lemma valid_smi_v2: "valid_value_v2 (smi_v2 v) = valid_value v"
  by (cases v) simp_all

lemma valid_v2_bindings:
  "valid_pdu p \<longleftrightarrow> valid_oid trap_oid \<and> valid_varbinds vbs"
  if "variable_bindings p = v2_bindings uptime trap_oid vbs"
proof -
  have "valid_oid SYS_UPTIME_OID" "valid_oid SNMP_TRAP_OID_OID"
    by (simp_all add: valid_oid_def SYS_UPTIME_OID_def SNMP_TRAP_OID_OID_def)
  with that show ?thesis
    by (simp add: valid_pdu_def v2_bindings_def valid_binding_v2_def valid_varbinds_def
        list_all_iff split_beta valid_smi_v2)
qed

lemma v2_bindings_eq_iff:
  "v2_bindings u o1 vs = v2_bindings u' o1' vs' \<longleftrightarrow>
     u = u' \<and> o1 = o1' \<and> map (apsnd erase_bits) vs = map (apsnd erase_bits) vs'"
proof -
  have "map (\<lambda>(oid, v). \<lparr>name_v2 = oid, value_v2 = smi_v2 v\<rparr>) vs
      = map (\<lambda>(oid, v). \<lparr>name_v2 = oid, value_v2 = smi_v2 v\<rparr>) vs'
    \<longleftrightarrow> map (apsnd erase_bits) vs = map (apsnd erase_bits) vs'"
    by (auto simp: list_eq_iff_nth_eq split_beta smi_v2_eq_iff prod_eq_iff)
  then show ?thesis by (auto simp: v2_bindings_def)
qed

lemma v2c_trap_unambiguous:
  assumes "unambiguous_law cd" and "valid_trap t" and "valid_trap u"
    and "build_v2c_trap cd t = Ok out" and "build_v2c_trap cd u = Ok out"
  shows "v2t_community t = v2t_community u \<and> same_trap t u"
proof -
  have l: "tells_apart (\<lambda>m. valid_pdu (v2c_data m)) (encode_v2c cd)"
    using assms(1) by (simp add: unambiguous_law_def)
  let ?m = "\<lambda>t. \<lparr>v2c_version = version_v2c cd, v2c_community = v2t_community t,
      v2c_data = \<lparr>request_id = v2t_request_id t, error_status = no_error_status cd, error_index = 0,
        variable_bindings = v2_bindings (v2t_uptime t) (v2t_trap_oid t) (v2t_varbinds t)\<rparr>\<rparr>"
  have "encode_v2c cd (?m t) = Ok out" "encode_v2c cd (?m u) = Ok out"
    using assms(4,5) by (simp_all add: build_v2c_message)
  moreover have "valid_pdu (v2c_data (?m t))" "valid_pdu (v2c_data (?m u))"
    using assms(2,3) by (simp_all add: valid_trap_def valid_v2_bindings)
  ultimately have "?m t = ?m u"
    using l unfolding tells_apart_def by blast
  then show ?thesis by (simp add: v2_bindings_eq_iff same_trap_def)
qed

section \<open>SNMPv1\<close>

lemma make_v1_valid:
  "make_v1_varbind oid v = Ok b \<Longrightarrow> valid_oid oid \<Longrightarrow> valid_value v \<Longrightarrow> valid_binding_v1 b"
  by (cases v) (auto simp: make_v1_varbind_def valid_binding_v1_def)

lemma v1_varbinds_iff:
  "map_try (\<lambda>(oid, v). make_v1_varbind oid v) vs = Ok bs
     \<longleftrightarrow> list_all2 (\<lambda>b w. make_v1_varbind (fst b) (snd b) = Ok w) vs bs"
  by (simp add: map_try_Ok_iff split_beta)

lemma v1_varbinds_inj:
  assumes "list_all2 (\<lambda>b w. make_v1_varbind (fst b) (snd b) = Ok w) vs bs"
    and "list_all2 (\<lambda>b w. make_v1_varbind (fst b) (snd b) = Ok w) ws bs"
  shows "vs = ws"
proof (rule nth_equalityI)
  show "length vs = length ws" using assms by (simp add: list_all2_lengthD)
  fix i assume "i < length vs"
  then show "vs ! i = ws ! i"
    using list_all2_nthD [OF assms(1), of i] list_all2_nthD [OF assms(2), of i] assms
    by (auto simp: prod_eq_iff list_all2_lengthD dest: make_v1_inj)
qed

definition valid_v1_trap :: "v1_trap \<Rightarrow> bool" where
  "valid_v1_trap t \<longleftrightarrow> valid_oid (v1t_enterprise t) \<and> valid_varbinds (v1t_varbinds t)"

definition v1_message :: "codec \<Rightarrow> v1_trap \<Rightarrow> varbind_v1 list \<Rightarrow> message_v1" where
  "v1_message cd t bs =
     \<lparr>v1_version = version_v1 cd, v1_community = v1t_community t,
      v1_data = \<lparr>trap_enterprise = v1t_enterprise t,
        trap_agent_addr = Internet (octets (v1t_agent_addr t)),
        trap_generic = sint (v1t_generic t), trap_specific = sint (v1t_specific t),
        trap_time_stamp = v1t_uptime t, trap_bindings = bs\<rparr>\<rparr>"

lemma build_v1_Ok:
  assumes "build_v1_trap cd t = Ok out" and "valid_v1_trap t"
  obtains bs where "list_all2 (\<lambda>b w. make_v1_varbind (fst b) (snd b) = Ok w) (v1t_varbinds t) bs"
    and "valid_v1 (v1_message cd t bs)" and "encode_v1 cd (v1_message cd t bs) = Ok out"
proof -
  from assms(1) obtain bs where
    bs: "list_all2 (\<lambda>b w. make_v1_varbind (fst b) (snd b) = Ok w) (v1t_varbinds t) bs"
    and enc: "encode_v1 cd (v1_message cd t bs) = Ok out"
    by (auto simp: build_v1_trap_def v1_message_def v1_varbinds_iff)
  have "list_all valid_binding_v1 bs"
    using bs assms(2)
    by (fastforce simp: valid_v1_trap_def valid_varbinds_def list_all2_conv_all_nth list_all_length
        split_beta dest: make_v1_valid)
  with assms(2) have "valid_v1 (v1_message cd t bs)"
    by (simp add: valid_v1_def valid_v1_trap_def v1_message_def)
  with bs enc show ?thesis by (intro that)
qed

lemma v1_trap_unambiguous:
  assumes "unambiguous_law cd" and "valid_v1_trap t" and "valid_v1_trap u"
    and "build_v1_trap cd t = Ok out" and "build_v1_trap cd u = Ok out"
  shows "t = u"
proof -
  obtain bs where bs: "list_all2 (\<lambda>b w. make_v1_varbind (fst b) (snd b) = Ok w) (v1t_varbinds t) bs"
    "valid_v1 (v1_message cd t bs)" "encode_v1 cd (v1_message cd t bs) = Ok out"
    by (rule build_v1_Ok [OF assms(4,2)])
  obtain cs where cs: "list_all2 (\<lambda>b w. make_v1_varbind (fst b) (snd b) = Ok w) (v1t_varbinds u) cs"
    "valid_v1 (v1_message cd u cs)" "encode_v1 cd (v1_message cd u cs) = Ok out"
    by (rule build_v1_Ok [OF assms(5,3)])
  have e: "v1_message cd t bs = v1_message cd u cs"
    using assms(1) bs(2,3) cs(2,3) unfolding unambiguous_law_def tells_apart_def by blast
  with bs(1) cs(1) have "v1t_varbinds t = v1t_varbinds u"
    by (auto simp: v1_message_def intro: v1_varbinds_inj)
  with e show ?thesis by (auto simp: v1_message_def intro: v1_trap.equality)
qed

section \<open>Command lines\<close>

lemma v2_arguments_valid:
  "v2_arguments env args uptime trap_oid vbs \<Longrightarrow>
     valid_trap \<lparr>v2t_community = c, v2t_request_id = r, v2t_uptime = uptime, v2t_trap_oid = trap_oid,
       v2t_varbinds = vbs\<rparr>"
  by (auto simp: valid_trap_def v2_arguments_def parse_oid_Ok_iff dest: parsed_varbinds_valid)

lemma v1_arguments_valid:
  "v1_arguments env args src dst enterprise agent generic specific uptime vbs \<Longrightarrow>
     valid_v1_trap \<lparr>v1t_community = c, v1t_enterprise = enterprise, v1t_agent_addr = agent,
       v1t_generic = generic, v1t_specific = specific, v1t_uptime = uptime, v1t_varbinds = vbs\<rparr>"
  by (auto simp: valid_v1_trap_def v1_arguments_def parse_oid_Ok_iff valid_oid_def
      DEFAULT_V1_ENTERPRISE_OID_def dest: parsed_varbinds_valid split: if_splits)

text \<open>Two command lines ask for the same SNMPv2c trap, or for the same SNMPv1 trap.\<close>

definition same_v2c_request :: "('h, 'f) env \<Rightarrow> cli \<Rightarrow> ('g, 'e) env \<Rightarrow> cli \<Rightarrow> bool" where
  "same_v2c_request env c env' c' \<longleftrightarrow>
     (\<exists>uptime trap_oid vbs vbs'.
        v2_arguments env (cli_trap_args c) uptime trap_oid vbs
        \<and> v2_arguments env' (cli_trap_args c') uptime trap_oid vbs'
        \<and> map (apsnd erase_bits) vbs = map (apsnd erase_bits) vbs')"

definition same_v1_request ::
  "('h, 'f) env \<Rightarrow> cli \<Rightarrow> socket_addr \<Rightarrow> ('g, 'e) env \<Rightarrow> cli \<Rightarrow> socket_addr \<Rightarrow> bool"
where
  "same_v1_request env c dst env' c' dst' \<longleftrightarrow>
     (\<exists>enterprise agent generic specific uptime vbs.
        v1_arguments env (cli_trap_args c) (src_addr_v4 c) dst
          enterprise agent generic specific uptime vbs
        \<and> v1_arguments env' (cli_trap_args c') (src_addr_v4 c') dst'
          enterprise agent generic specific uptime vbs)"

lemma v2c_payload_unambiguous:
  assumes "unambiguous_law (env_codec env)" and "env_codec env' = env_codec env"
    and "build_v2c_payload env c = Return (Ok out)" and "build_v2c_payload env' c' = Return (Ok out)"
  shows "utf8 (cli_community c) = utf8 (cli_community c') \<and> same_v2c_request env c env' c'"
proof -
  from assms(3) obtain u1 o1 vs where a: "v2_arguments env (cli_trap_args c) u1 o1 vs"
    and b: "build_v2c_trap (env_codec env) \<lparr>v2t_community = utf8 (cli_community c),
      v2t_request_id = fresh_request_id (env_request_id env), v2t_uptime = u1, v2t_trap_oid = o1,
      v2t_varbinds = vs\<rparr> = Ok out"
    unfolding build_v2c_payload_Ok by blast
  from assms(4) obtain u2 o2 ws where a': "v2_arguments env' (cli_trap_args c') u2 o2 ws"
    and b': "build_v2c_trap (env_codec env) \<lparr>v2t_community = utf8 (cli_community c'),
      v2t_request_id = fresh_request_id (env_request_id env'), v2t_uptime = u2, v2t_trap_oid = o2,
      v2t_varbinds = ws\<rparr> = Ok out"
    unfolding build_v2c_payload_Ok assms(2) by blast
  from v2c_trap_unambiguous [OF assms(1) v2_arguments_valid [OF a] v2_arguments_valid [OF a'] b b'] a a'
  show ?thesis by (auto simp: same_trap_def same_v2c_request_def)
qed

lemma v1_payload_unambiguous:
  assumes "unambiguous_law (env_codec env)" and "env_codec env' = env_codec env"
    and "build_v1_payload env c dst = Return (Ok out)"
    and "build_v1_payload env' c' dst' = Return (Ok out)"
  shows "utf8 (cli_community c) = utf8 (cli_community c') \<and> same_v1_request env c dst env' c' dst'"
proof -
  from assms(3) obtain e1 a1 g1 s1 u1 vs where
    a: "v1_arguments env (cli_trap_args c) (src_addr_v4 c) dst e1 a1 g1 s1 u1 vs"
    and b: "build_v1_trap (env_codec env) \<lparr>v1t_community = utf8 (cli_community c),
      v1t_enterprise = e1, v1t_agent_addr = a1, v1t_generic = g1, v1t_specific = s1,
      v1t_uptime = u1, v1t_varbinds = vs\<rparr> = Ok out"
    unfolding build_v1_payload_Ok by blast
  from assms(4) obtain e2 a2 g2 s2 u2 ws where
    a': "v1_arguments env' (cli_trap_args c') (src_addr_v4 c') dst' e2 a2 g2 s2 u2 ws"
    and b': "build_v1_trap (env_codec env) \<lparr>v1t_community = utf8 (cli_community c'),
      v1t_enterprise = e2, v1t_agent_addr = a2, v1t_generic = g2, v1t_specific = s2,
      v1t_uptime = u2, v1t_varbinds = ws\<rparr> = Ok out"
    unfolding build_v1_payload_Ok assms(2) by blast
  from v1_trap_unambiguous [OF assms(1) v1_arguments_valid [OF a] v1_arguments_valid [OF a'] b b'] a a'
  show ?thesis unfolding same_v1_request_def v1_trap.ext_inject by blast
qed

section \<open>SNMPv3\<close>

text \<open>The privacy protocol and key of a message.\<close>

fun privacy :: "v3_security \<Rightarrow> (priv_protocol \<times> bytes) option" where
  "privacy (SecAuthPriv _ _ proto key _) = Some (proto, take (key_len proto) key)"
| "privacy _ = None"

lemma scoped_of_valid: "valid_pdu (scoped_trap (scoped_of cd m)) \<longleftrightarrow> valid_trap (m_trap m)"
  by (simp add: scoped_of_def valid_v2_bindings valid_trap_def)

lemma scoped_of_eq:
  "scoped_of cd m = scoped_of cd n \<longleftrightarrow>
     eid_bytes (m_context_engine_id m) = eid_bytes (m_context_engine_id n)
     \<and> m_context_name m = m_context_name n \<and> same_trap (m_trap m) (m_trap n)"
  by (auto simp: scoped_of_def v2_bindings_eq_iff same_trap_def)

text \<open>What is decrypted under one key is one scoped PDU.\<close>

lemma carries_same:
  assumes "unambiguous_law cd" and "valid_trap (m_trap m)" and "valid_trap (m_trap n)"
    and "privacy (m_security m) \<in> {None, privacy (m_security n)} \<or> privacy (m_security n) = None"
    and "m_engine_boots m = m_engine_boots n" and "m_engine_time m = m_engine_time n"
    and "carries C cd m sd pp" and "carries C cd n sd pp"
  shows "scoped_of cd m = scoped_of cd n"
proof (cases sd)
  case (CleartextPdu sp)
  with assms(7,8) show ?thesis by simp
next
  case (EncryptedPdu ct)
  with assms(4-8) obtain plain where
    "encode_scoped cd (scoped_of cd m) = Ok plain" "encode_scoped cd (scoped_of cd n) = Ok plain"
    by auto
  then show ?thesis
    using assms(1-3) unfolding unambiguous_law_def tells_apart_def scoped_of_valid [symmetric, of _ cd]
    by blast
qed

lemma valid_v3_carries:
  "valid_trap (m_trap m) \<Longrightarrow> carries C cd m sd pp \<Longrightarrow> valid_v3 \<lparr>v3_version = v, global_data = h,
     security_parameters = sp, v3_scoped_data = sd\<rparr>"
  by (cases sd) (auto simp: valid_v3_def scoped_of_valid)

text \<open>
  C13: The octets of an SNMPv3 message say everything: two messages with the same octets have
  the same identifier, flags, engines, boots, time, user, context and trap, with its request
  identifier, uptime, object identifier and bindings in order, at every level and whatever the
  passwords, as long as two messages with privacy were made with the same privacy key. Only
  whether octets were given as BITS or as a string is lost.
\<close>

lemma v3_messages_unambiguous:
  assumes "unambiguous_law cd" and "cipher_law C"
    and "valid_trap (m_trap m)" and "valid_trap (m_trap n)"
    and "privacy (m_security m) \<in> {None, privacy (m_security n)} \<or> privacy (m_security n) = None"
    and "build_v3_trap_message debug C cd m = Return (Ok out)"
    and "build_v3_trap_message debug' C cd n = Return (Ok out)"
  shows "m_msg_id m = m_msg_id n
    \<and> flag_byte (m_security m) = flag_byte (m_security n)
    \<and> m_authoritative_engine_id m = m_authoritative_engine_id n
    \<and> m_engine_boots m = m_engine_boots n \<and> m_engine_time m = m_engine_time n
    \<and> m_user_name m = m_user_name n
    \<and> m_context_engine_id m = m_context_engine_id n \<and> m_context_name m = m_context_name n
    \<and> same_trap (m_trap m) (m_trap n)"
proof -
  obtain sp a pp sd where m: "encode_v3 cd \<lparr>v3_version = 3, global_data = v3_header m,
      security_parameters = sp, v3_scoped_data = sd\<rparr> = Ok out"
    "encode_usm cd (build_usm_params m a pp) = Ok sp" "carries C cd m sd pp"
    using build_v3_message [OF assms(2,6)] by blast
  obtain sp' a' pp' sd' where n: "encode_v3 cd \<lparr>v3_version = 3, global_data = v3_header n,
      security_parameters = sp', v3_scoped_data = sd'\<rparr> = Ok out"
    "encode_usm cd (build_usm_params n a' pp') = Ok sp'" "carries C cd n sd' pp'"
    using build_v3_message [OF assms(2,7)] by blast
  have h: "v3_header m = v3_header n" "sp = sp'" "sd = sd'"
    using assms(1) m(1) n(1) valid_v3_carries [OF assms(3) m(3)] valid_v3_carries [OF assms(4) n(3)]
    unfolding unambiguous_law_def tells_apart_def by (metis message_v3.simps(1-4))+
  have u: "build_usm_params m a pp = build_usm_params n a' pp'"
    using assms(1) m(2) n(2) h(2) unfolding unambiguous_law_def tells_apart_def by blast
  then have e: "m_engine_boots m = m_engine_boots n" "m_engine_time m = m_engine_time n" "pp = pp'"
    by (simp_all add: build_usm_params_def word_eq)
  have "scoped_of cd m = scoped_of cd n"
    using carries_same [OF assms(1,3,4,5) e(1,2) m(3)] n(3) h(3) e(3) by blast
  then show ?thesis
    using h(1) u e by (simp add: scoped_of_eq build_usm_params_def v3_header_def engine_id.expand)
qed

lemma v3_messages_unambiguous_witness:
  "\<exists>out. build_v3_trap_message True sample_crypto ber_codec (sample_message sample_security) = Return (Ok out)
     \<and> build_v3_trap_message True sample_crypto ber_codec
          ((sample_message sample_security)\<lparr>m_user_name := [118]\<rparr>) \<noteq> Return (Ok out)"
proof -
  obtain out where out: "build_v3_trap_message True sample_crypto ber_codec
      (sample_message sample_security) = Return (Ok out)"
    using ber_build_Ok [OF sample_sizes sample_keys_fit] by blast
  have "valid_trap sample_trap"
    by (simp add: valid_trap_def sample_trap_def valid_varbinds_def valid_oid_def)
  then show ?thesis
    using out v3_messages_unambiguous [OF ber_unambiguous sample_cipher, of "sample_message sample_security"
        "(sample_message sample_security)\<lparr>m_user_name := [118]\<rparr>" True out True]
    by (auto simp: sample_message_def)
qed

end
