(* ===== verification/TestKit.thy ===== *)
theory TestKit
  imports V3Message Run
begin

unbundle bit_operations_syntax

text \<open>
  What the unit tests of the source share: the assertions they make on texts and errors, and
  the collection \<open>running\<close> of the equations that evaluate the model on concrete input. A test
  function \<open>f\<close> of a module \<open>tests\<close> becomes the predicate \<open>test_f\<close>: the conjunction of its
  assertions, \<open>unwrap\<close> and a failing pattern match being assertions too.
\<close>

named_theorems running

text \<open>\<open>str::contains\<close>.\<close>

fun contains :: "rstr \<Rightarrow> rstr \<Rightarrow> bool" where
  "contains p [] \<longleftrightarrow> p = []"
| "contains p (c # s) \<longleftrightarrow> starts_with p (c # s) \<or> contains p s"

lemma contains_append: "contains p (xs @ p @ ys)"
proof (induction xs)
  case Nil
  show ?case
    by (cases "p @ ys") (simp, metis append.left_neutral append_Nil contains.simps(2) starts_with_iff)
qed simp

text \<open>\<open>Err(Error::Usage(msg))\<close> with an assertion on \<open>msg\<close>.\<close>

definition usage_with :: "(rstr \<Rightarrow> bool) \<Rightarrow> ('a, error) result \<Rightarrow> bool" where
  "usage_with P r \<longleftrightarrow> (case r of Err (Usage msg) \<Rightarrow> P msg | _ \<Rightarrow> False)"

lemma usage_with_simps [simp]:
  "usage_with P (Err (Usage msg)) = P msg" "\<not> usage_with P (Ok x)"
  by (simp_all add: usage_with_def)

text \<open>Recursive functions unfold on concrete arguments only.\<close>

lemma dec_unfold [running]:
  "n < 10 \<Longrightarrow> dec n = [48 + n]"
  "10 \<le> n \<Longrightarrow> dec n = dec (n div 10) @ [48 + n mod 10]"
  by (subst dec.simps, simp)+

lemma hex_min_unfold [running]:
  "n < 16 \<Longrightarrow> hex_min n = [hex_digit n]"
  "16 \<le> n \<Longrightarrow> hex_min n = hex_min (n div 16) @ [hex_digit (n mod 16)]"
  by (subst hex_min.simps, simp)+

lemma chunks_unfold [running]:
  "chunks n [] = []"
  "0 < n \<Longrightarrow> chunks n (x # xs) = take n (x # xs) # chunks n (drop n (x # xs))"
  by (subst chunks.simps, simp)+

lemma fold_carries_unfold [running]:
  "unat s < 65536 \<Longrightarrow> fold_carries s = s"
  "65536 \<le> unat s \<Longrightarrow> fold_carries s = fold_carries ((s AND 0xFFFF) + drop_bit 16 s)"
  by (subst fold_carries.simps, use high16_nonzero [of s] in auto)+

lemma read_groups_pred [running]:
  "read_groups i (numeral k) s =
     (case (if 0 < (pred_numeral k :: nat) then read_separator 58 i read_ipv4 s else None) of
        Some (v4, r) \<Rightarrow> (i + 2, True, r)
      | None \<Rightarrow>
          (case read_separator 58 i (read_number 16 4 True 0xFFFF) s of
             Some (g, r) \<Rightarrow> read_groups (Suc i) (pred_numeral k) r
           | None \<Rightarrow> (i, False, s)))"
  by (simp add: numeral_eq_Suc)

lemma upt_pred [running]: "[0..<numeral k] = [0..<pred_numeral k] @ [pred_numeral k]"
  by (simp add: numeral_eq_Suc)

lemma replicate_pred [running]: "replicate (numeral k) x = x # replicate (pred_numeral k) x"
  by (simp add: numeral_eq_Suc)

declare lit_def [running] Let_def [running] starts_with_def [running] strip_prefix_def [running]
  trim_def [running] trim_start_def [running] trim_end_def [running]
  is_whitespace_def [running] is_ascii_whitespace_def [running] is_ascii_hexdigit_def [running]
  to_digit_def [running] parse_unsigned_def [running] parse_i32_def [running]
  parse_u8_radix_def [running] parse_u16_def [running] parse_u32_def [running]
  parse_u64_def [running] parse_ipv4_def [running] read_ipv4_def [running]
  read_octet_def [running] read_separator_def [running] read_given_char_def [running]
  read_number_def [running] number_value_def [running] utf8_def [running] utf8_char_def [running] str_len_def [running]

end
