(* ===== verification/RawTests.thy ===== *)
theory RawTests
  imports TestKit
begin

text \<open>
  The unit tests of \<open>src/transport/raw.rs\<close>: each holds of the model, that of the header on every
  target.
\<close>

declare ip_checksum_def [running] of_be_Cons [running] be_bytes_2 [running]
  build_ipv4_header_def [running] build_udp_datagram_def [running]

definition test_rfc1071_known_answer :: bool where
  "test_rfc1071_known_answer \<longleftrightarrow>
     ip_checksum [0x00, 0x01, 0xf2, 0x03, 0xf4, 0xf5, 0xf6, 0xf7] = 0x220d"

lemma rfc1071_known_answer: test_rfc1071_known_answer
  by (simp add: test_rfc1071_known_answer_def running)

definition test_checksum_zero_data :: bool where
  "test_checksum_zero_data \<longleftrightarrow>
     ip_checksum (replicate 20 0) = 0xFFFF"

lemma checksum_zero_data: test_checksum_zero_data
  by (simp add: test_checksum_zero_data_def running)

definition test_ipv4_header_round_trip :: "build_target \<Rightarrow> bool" where
  "test_ipv4_header_round_trip t \<longleftrightarrow>
     (let src = Ipv4 198 51 100 42; dst = Ipv4 192 0 2 50;
          hdr = build_ipv4_header t src dst 28 0xBEEF in
      hdr ! 0 = 0x45 \<and> hdr ! 9 = 17 \<and> hdr ! 8 = 64
      \<and> [hdr ! 2, hdr ! 3] = iphdr_u16_to_kernel t 48
      \<and> [hdr ! 6, hdr ! 7] = iphdr_u16_to_kernel t 0x4000
      \<and> take 4 (drop 12 hdr) = octets src \<and> drop 16 hdr = octets dst
      \<and> ip_checksum hdr = 0)"

lemma ipv4_header_round_trip: "test_ipv4_header_round_trip t"
  by (cases "bt_os t"; cases "bt_big_endian t")
    (simp_all add: test_ipv4_header_round_trip_def iphdr_u16_to_kernel_def to_ne_bytes_def running)

definition test_udp_checksum_uses_spoofed_source :: bool where
  "test_udp_checksum_uses_spoofed_source \<longleftrightarrow>
     (let payload = [0x30, 0x05, 0x68, 0x65, 0x6C, 0x6C, 0x6F];
          src_spoofed = Ipv4 198 51 100 42; src_real = Ipv4 10 0 0 1; dst = Ipv4 192 0 2 50;
          dg_a = build_udp_datagram src_spoofed dst 50000 162 payload;
          dg_b = build_udp_datagram src_real dst 50000 162 payload in
      take 2 (drop 6 dg_a) \<noteq> take 2 (drop 6 dg_b))"

lemma udp_checksum_uses_spoofed_source: test_udp_checksum_uses_spoofed_source
  by (simp add: test_udp_checksum_uses_spoofed_source_def running)

definition test_udp_zero_checksum_replaced_with_all_ones :: bool where
  "test_udp_zero_checksum_replaced_with_all_ones \<longleftrightarrow>
     (let dg = build_udp_datagram (Ipv4 1 2 3 4) (Ipv4 5 6 7 8) 12345 162 [0x78] in
      of_be [dg ! 6, dg ! 7] \<noteq> 0)"

lemma udp_zero_checksum_replaced_with_all_ones: test_udp_zero_checksum_replaced_with_all_ones
  by (simp add: test_udp_zero_checksum_replaced_with_all_ones_def running)

end
