(* ===== verification/DebugTests.thy ===== *)
theory DebugTests
  imports TestKit
begin

text \<open>
  The unit tests of \<open>src/debug.rs\<close>: each holds of the model.
\<close>

text \<open>Writing to a \<open>Vec\<close> never fails.\<close>

definition to_vec :: writer where
  "to_vec = (\<lambda>n p. Ok ())"

lemma to_vec_pieces [running]: "write_pieces to_vec n ps = (concat ps, Ok ())"
  by (rule write_pieces_ok) (simp add: to_vec_def)

lemma to_vec_call [running]: "to_vec n p = Ok ()"
  by (simp add: to_vec_def)

declare print_pre_send_dump_def [running] write_hex_dump_def [running]
  header_line_def [running] show_socket_addr_def [running] hex_dump_pieces_def [running]
  dump_line_def [running] hex_columns_def [running] padding_def [running] hex2_def [running]
  hex_digit_def [running] hex08_def [running] ascii_column_def [running]
  is_ascii_graphic_def [running] newline_def [running]

definition test_header_redacts_community_and_names_fields :: bool where
  "test_header_redacts_community_and_names_fields \<longleftrightarrow>
     (let (text, r) = print_pre_send_dump to_vec V2c \<lparr>sa_ip = Ipv4 192 0 2 50, sa_port = 162\<rparr>
          (Some (Ipv4 198 51 100 42)) (Some 49152) [0x30, 0x05, 0x68, 0x65, 0x6C, 0x6C, 0x6F] in
      r = Ok ()
      \<and> contains (lit ''snmp_version=2c'') text
      \<and> contains (lit ''dst=192.0.2.50:162'') text
      \<and> contains (lit ''src=198.51.100.42'') text
      \<and> contains (lit ''community=***'') text
      \<and> contains (lit ''payload_bytes=7'') text
      \<and> contains (lit ''30 05'') text
      \<and> contains (lit ''hello'') text)"

lemma header_redacts_community_and_names_fields: test_header_redacts_community_and_names_fields
  by (simp add: test_header_redacts_community_and_names_fields_def running)

definition test_header_uses_placeholders_when_src_unset :: bool where
  "test_header_uses_placeholders_when_src_unset \<longleftrightarrow>
     (let (text, r) = print_pre_send_dump to_vec V2c \<lparr>sa_ip = Ipv4 192 0 2 50, sa_port = 162\<rparr>
          None None [0x78] in
      r = Ok ()
      \<and> contains (lit ''src=<kernel-selected>'') text
      \<and> contains (lit ''src_port=<ephemeral>'') text)"

lemma header_uses_placeholders_when_src_unset: test_header_uses_placeholders_when_src_unset
  by (simp add: test_header_uses_placeholders_when_src_unset_def running)

definition test_hex_dump_format_matches_xxd_basics :: bool where
  "test_hex_dump_format_matches_xxd_basics \<longleftrightarrow>
     (let (s, r) = write_hex_dump to_vec 0 (replicate 16 0) in
      r = Ok () \<and> starts_with (lit ''00000000: '') s \<and> contains (lit ''00 00 00 00'') s)"

lemma hex_dump_format_matches_xxd_basics: test_hex_dump_format_matches_xxd_basics
  by (simp add: test_hex_dump_format_matches_xxd_basics_def running)

end
