(* ===== verification/EngineTests.thy ===== *)
theory EngineTests
  imports TestKit
begin

text \<open>
  The unit tests of \<open>src/engine.rs\<close>: each holds of the model, the two of \<open>resolve\<close> on every host.
\<close>

declare from_ipv4_def [running] from_mac_def [running] from_text_def [running]
  from_octets_def [running] eid_len_def [running] pen_prefix [running] MAX_PAYLOAD_def [running]
  MIN_ENGINE_ID_def [running] MAX_ENGINE_ID_def [running] FORMAT_IPV4_def [running]
  FORMAT_MAC_def [running] FORMAT_TEXT_def [running] FORMAT_OCTETS_def [running]
  eid_clean_def [running] strip_hex_prefix_def [running] parse_user_input_def [running]
  decode_hex_nibble_def [running] is_virtual_interface_def [running]
  VIRTUAL_INTERFACE_PREFIXES_def [running] is_physical_prefix_def [running]
  parse_mac_part_def [running] parse_mac_text_def [running]

definition test_pen_prefix_bytes :: bool where
  "test_pen_prefix_bytes \<longleftrightarrow>
     push_pen_prefix [] = [0x80, 0x00, 0xF0, 0x45]"

lemma pen_prefix_bytes: test_pen_prefix_bytes
  by (simp add: test_pen_prefix_bytes_def running)

definition test_from_ipv4_layout :: bool where
  "test_from_ipv4_layout \<longleftrightarrow>
     (let eid = from_ipv4 (the (parse_ipv4 (lit ''198.51.100.42''))) in
      eid_bytes eid = [0x80, 0x00, 0xF0, 0x45, 0x01, 0xC6, 0x33, 0x64, 0x2A]
      \<and> eid_len eid = 9)"

lemma from_ipv4_layout: test_from_ipv4_layout
  by (simp add: test_from_ipv4_layout_def running)

definition test_from_mac_layout :: bool where
  "test_from_mac_layout \<longleftrightarrow>
     (let eid = from_mac (Mac 0xDE 0xAD 0xBE 0xEF 0x12 0x34) in
      eid_bytes eid = [0x80, 0x00, 0xF0, 0x45, 0x03, 0xDE, 0xAD, 0xBE, 0xEF, 0x12, 0x34]
      \<and> eid_len eid = 11)"

lemma from_mac_layout: test_from_mac_layout
  by (simp add: test_from_mac_layout_def running)

definition test_from_text_layout :: bool where
  "test_from_text_layout \<longleftrightarrow>
     eid_bytes (from_text (lit ''host42''))
       = [0x80, 0x00, 0xF0, 0x45, 0x04, 0x68, 0x6F, 0x73, 0x74, 0x34, 0x32]"

lemma from_text_layout: test_from_text_layout
  by (simp add: test_from_text_layout_def running)

definition test_from_text_truncates_to_max_payload :: bool where
  "test_from_text_truncates_to_max_payload \<longleftrightarrow>
     (let long = replicate (MAX_PAYLOAD + 10) (of_char CHR ''a'') in
      eid_len (from_text long) = 5 + MAX_PAYLOAD)"

lemma from_text_truncates_to_max_payload: test_from_text_truncates_to_max_payload
  by (simp add: test_from_text_truncates_to_max_payload_def running eval_nat_numeral)

definition test_from_octets_layout :: bool where
  "test_from_octets_layout \<longleftrightarrow>
     eid_bytes (from_octets [0x01, 0x02, 0x03]) = [0x80, 0x00, 0xF0, 0x45, 0x05, 0x01, 0x02, 0x03]"

lemma from_octets_layout: test_from_octets_layout
  by (simp add: test_from_octets_layout_def running)

definition test_parse_user_input_plain_hex :: bool where
  "test_parse_user_input_plain_hex \<longleftrightarrow>
     parse_user_input (lit ''80001f88010203'') = Ok (EngineId [0x80, 0x00, 0x1F, 0x88, 0x01, 0x02, 0x03])"

lemma parse_user_input_plain_hex: test_parse_user_input_plain_hex
  by (simp add: test_parse_user_input_plain_hex_def running)

definition test_parse_user_input_with_0x_prefix :: bool where
  "test_parse_user_input_with_0x_prefix \<longleftrightarrow>
     parse_user_input (lit ''0x80001f88010203'') = Ok (EngineId [0x80, 0x00, 0x1F, 0x88, 0x01, 0x02, 0x03])"

lemma parse_user_input_with_0x_prefix: test_parse_user_input_with_0x_prefix
  by (simp add: test_parse_user_input_with_0x_prefix_def running)

definition test_parse_user_input_with_uppercase_0x_prefix :: bool where
  "test_parse_user_input_with_uppercase_0x_prefix \<longleftrightarrow>
     parse_user_input (lit ''0X80001F8842'') = Ok (EngineId [0x80, 0x00, 0x1F, 0x88, 0x42])"

lemma parse_user_input_with_uppercase_0x_prefix: test_parse_user_input_with_uppercase_0x_prefix
  by (simp add: test_parse_user_input_with_uppercase_0x_prefix_def running)

definition test_parse_user_input_with_colon_separators :: bool where
  "test_parse_user_input_with_colon_separators \<longleftrightarrow>
     parse_user_input (lit ''80:00:1f:88:01:02'') = Ok (EngineId [0x80, 0x00, 0x1F, 0x88, 0x01, 0x02])"

lemma parse_user_input_with_colon_separators: test_parse_user_input_with_colon_separators
  by (simp add: test_parse_user_input_with_colon_separators_def running)

definition test_parse_user_input_with_whitespace :: bool where
  "test_parse_user_input_with_whitespace \<longleftrightarrow>
     parse_user_input (lit ''80 00 1f 88 42'') = Ok (EngineId [0x80, 0x00, 0x1F, 0x88, 0x42])"

lemma parse_user_input_with_whitespace: test_parse_user_input_with_whitespace
  by (simp add: test_parse_user_input_with_whitespace_def running)

definition test_parse_user_input_rejects_empty :: bool where
  "test_parse_user_input_rejects_empty \<longleftrightarrow>
     parse_user_input (lit '''') = Err (EidEmpty)
     \<and> parse_user_input (lit ''   '') = Err (EidEmpty)"

lemma parse_user_input_rejects_empty: test_parse_user_input_rejects_empty
  by (simp add: test_parse_user_input_rejects_empty_def running)

definition test_parse_user_input_rejects_odd_length :: bool where
  "test_parse_user_input_rejects_odd_length \<longleftrightarrow>
     parse_user_input (lit ''abc'') = Err (EidOddLength 3)"

lemma parse_user_input_rejects_odd_length: test_parse_user_input_rejects_odd_length
  by (simp add: test_parse_user_input_rejects_odd_length_def running)

definition test_parse_user_input_rejects_garbage :: bool where
  "test_parse_user_input_rejects_garbage \<longleftrightarrow>
     (case parse_user_input (lit ''zzzz'') of Err (EidBadHex ch) \<Rightarrow> True | _ \<Rightarrow> False)"

lemma parse_user_input_rejects_garbage: test_parse_user_input_rejects_garbage
  by (simp add: test_parse_user_input_rejects_garbage_def running)

definition test_parse_user_input_rejects_too_long :: bool where
  "test_parse_user_input_rejects_too_long \<longleftrightarrow>
     (let s = concat (map (\<lambda>i. lit ''ab'') [0..<50]) in
      parse_user_input s = Err (EidTooLong 50 32))"

lemma parse_user_input_rejects_too_long: test_parse_user_input_rejects_too_long
  by (simp add: test_parse_user_input_rejects_too_long_def running map_replicate_const)

definition test_parse_user_input_rejects_too_short :: bool where
  "test_parse_user_input_rejects_too_short \<longleftrightarrow>
     parse_user_input (lit ''01020304'') = Err (EidTooShort 4 5)"

lemma parse_user_input_rejects_too_short: test_parse_user_input_rejects_too_short
  by (simp add: test_parse_user_input_rejects_too_short_def running)

definition test_parse_user_input_min_length_accepted :: bool where
  "test_parse_user_input_min_length_accepted \<longleftrightarrow>
     parse_user_input (lit ''0102030405'') = Ok (EngineId [0x01, 0x02, 0x03, 0x04, 0x05])"

lemma parse_user_input_min_length_accepted: test_parse_user_input_min_length_accepted
  by (simp add: test_parse_user_input_min_length_accepted_def running)

definition test_parse_user_input_rejects_pre_decode_when_overlong :: bool where
  "test_parse_user_input_rejects_pre_decode_when_overlong \<longleftrightarrow>
     (let s = concat (map (\<lambda>i. lit ''ab'') [0..<MAX_ENGINE_ID + 10]) in
      case parse_user_input s of Err (EidTooLong got mx) \<Rightarrow> True | _ \<Rightarrow> False)"

lemma parse_user_input_rejects_pre_decode_when_overlong: test_parse_user_input_rejects_pre_decode_when_overlong
  by (simp add: test_parse_user_input_rejects_pre_decode_when_overlong_def running map_replicate_const)

definition test_is_virtual_interface_matches_known_prefixes :: bool where
  "test_is_virtual_interface_matches_known_prefixes \<longleftrightarrow>
     list_all is_virtual_interface (map lit
         [''docker0'', ''br-abc123'', ''bond0'', ''virbr0'', ''veth123abc'', ''tun0'',
          ''tap0'', ''wg0'', ''cni0'', ''kube-bridge'', ''flannel.1'', ''cilium_host'',
          ''ovs-system'', ''dummy0'', ''vboxnet0'', ''vmnet8''])"

lemma is_virtual_interface_matches_known_prefixes: test_is_virtual_interface_matches_known_prefixes
  by (simp add: test_is_virtual_interface_matches_known_prefixes_def running)

definition test_is_virtual_interface_does_not_match_physical :: bool where
  "test_is_virtual_interface_does_not_match_physical \<longleftrightarrow>
     list_all (\<lambda>name. \<not> is_virtual_interface name) (map lit
         [''eth0'', ''en0'', ''enp0s3'', ''ens33'', ''wlan0'', ''wlp2s0''])"

lemma is_virtual_interface_does_not_match_physical: test_is_virtual_interface_does_not_match_physical
  by (simp add: test_is_virtual_interface_does_not_match_physical_def running)

definition test_is_physical_prefix_matches :: bool where
  "test_is_physical_prefix_matches \<longleftrightarrow>
     is_physical_prefix (lit ''eth0'')
     \<and> is_physical_prefix (lit ''en0'')
     \<and> is_physical_prefix (lit ''enp0s3'')
     \<and> is_physical_prefix (lit ''wlan0'')
     \<and> is_physical_prefix (lit ''wlp2s0'')
     \<and> \<not> is_physical_prefix (lit ''docker0'')
     \<and> \<not> is_physical_prefix (lit ''bond0'')"

lemma is_physical_prefix_matches: test_is_physical_prefix_matches
  by (simp add: test_is_physical_prefix_matches_def running)

definition test_resolve_user_override_wins_over_src_addr :: "host \<Rightarrow> bool" where
  "test_resolve_user_override_wins_over_src_addr host \<longleftrightarrow>
     (case parse_user_input (lit ''80001fa050000102'') of
        Ok user \<Rightarrow> resolve host (Some user) (Some (the (parse_ipv4 (lit ''10.0.0.1'')))) = user
      | Err e \<Rightarrow> False)"

lemma resolve_user_override_wins_over_src_addr: "test_resolve_user_override_wins_over_src_addr host"
  by (simp add: test_resolve_user_override_wins_over_src_addr_def running resolve_def)

definition test_resolve_src_addr_produces_format_1 :: "host \<Rightarrow> bool" where
  "test_resolve_src_addr_produces_format_1 host \<longleftrightarrow>
     (let resolved = resolve host None (Some (the (parse_ipv4 (lit ''198.51.100.42'')))) in
      eid_bytes resolved ! 4 = FORMAT_IPV4
      \<and> drop 5 (eid_bytes resolved) = [0xC6, 0x33, 0x64, 0x2A])"

lemma resolve_src_addr_produces_format_1: "test_resolve_src_addr_produces_format_1 host"
  by (simp add: test_resolve_src_addr_produces_format_1_def running resolve_def)

definition test_parse_mac_text_basic :: bool where
  "test_parse_mac_text_basic \<longleftrightarrow>
     parse_mac_text (lit ''de:ad:be:ef:12:34'') = Some (Mac 0xDE 0xAD 0xBE 0xEF 0x12 0x34)
     \<and> parse_mac_text (lit ''00:00:00:00:00:00'') = Some (Mac 0 0 0 0 0 0)
     \<and> parse_mac_text (lit ''not-a-mac'') = None
     \<and> parse_mac_text (lit ''de:ad:be:ef:12'') = None"

lemma parse_mac_text_basic: test_parse_mac_text_basic
  by (simp add: test_parse_mac_text_basic_def running)

end
