(* ===== verification/UsmTests.thy ===== *)
theory UsmTests
  imports EngineTests
begin

text \<open>
  The unit tests of \<open>src/usm.rs\<close> that do not compare with published values of a hash function or
  a cipher: each holds of the model, for every lawful choice of the cryptographic functions where
  the test uses them.
\<close>

declare auth_from_str_def [running] priv_from_str_def [running] to_ascii_uppercase_def [running]
  upper_char_def [running] MIN_USM_PASSWORD_LEN_def [running]

lemma be_bytes_8:
  "be_bytes 8 v = be_bytes 4 (drop_bit 32 v) @ be_bytes 4 v"
  for v :: u64
  by (simp add: be_bytes_4 eval_nat_numeral drop_bit_drop_bit)

definition rfc3414_engine_id :: engine_id where
  "rfc3414_engine_id =
     (case parse_user_input (lit ''000000000000000000000002'') of
        Ok eid \<Rightarrow> eid | Err _ \<Rightarrow> EngineId [])"

lemma rfc3414_engine_id_value: "rfc3414_engine_id = EngineId (replicate 11 0 @ [2])"
  by (simp add: rfc3414_engine_id_def running)

definition test_auth_proto_parse_accepts_sha_aliases :: bool where
  "test_auth_proto_parse_accepts_sha_aliases \<longleftrightarrow>
     auth_from_str (lit ''SHA'') = Ok Sha1
     \<and> auth_from_str (lit ''SHA-1'') = Ok Sha1
     \<and> auth_from_str (lit ''SHA-256'') = Ok Sha256
     \<and> auth_from_str (lit ''SHA512'') = Ok Sha512"

lemma auth_proto_parse_accepts_sha_aliases: test_auth_proto_parse_accepts_sha_aliases
  by (simp add: test_auth_proto_parse_accepts_sha_aliases_def running)

definition test_auth_proto_parse_is_case_insensitive :: bool where
  "test_auth_proto_parse_is_case_insensitive \<longleftrightarrow>
     auth_from_str (lit ''sha'') = Ok Sha1
     \<and> auth_from_str (lit ''Sha-256'') = Ok Sha256
     \<and> auth_from_str (lit ''sha512'') = Ok Sha512"

lemma auth_proto_parse_is_case_insensitive: test_auth_proto_parse_is_case_insensitive
  by (simp add: test_auth_proto_parse_is_case_insensitive_def running)

definition test_auth_proto_parse_rejects_md5_with_deprecation_hint :: bool where
  "test_auth_proto_parse_rejects_md5_with_deprecation_hint \<longleftrightarrow>
     list_all (\<lambda>input. usage_with (\<lambda>msg. contains (lit ''HMAC-MD5'') msg \<and> contains (lit ''not supported'') msg \<and> contains (lit ''SHA'') msg)
         (auth_from_str input))
       (map lit [''MD5'', ''md5'', ''Md5'', ''HMAC-MD5'', ''hmac-md5''])"

lemma auth_proto_parse_rejects_md5_with_deprecation_hint: test_auth_proto_parse_rejects_md5_with_deprecation_hint
  by (simp add: test_auth_proto_parse_rejects_md5_with_deprecation_hint_def running)

definition test_priv_proto_parse_accepts_aes_aliases :: bool where
  "test_priv_proto_parse_accepts_aes_aliases \<longleftrightarrow>
     priv_from_str (lit ''AES'') = Ok Aes128
     \<and> priv_from_str (lit ''AES-128'') = Ok Aes128
     \<and> priv_from_str (lit ''AES-256'') = Ok Aes256"

lemma priv_proto_parse_accepts_aes_aliases: test_priv_proto_parse_accepts_aes_aliases
  by (simp add: test_priv_proto_parse_accepts_aes_aliases_def running)

definition test_priv_proto_parse_is_case_insensitive :: bool where
  "test_priv_proto_parse_is_case_insensitive \<longleftrightarrow>
     priv_from_str (lit ''aes'') = Ok Aes128
     \<and> priv_from_str (lit ''Aes-256'') = Ok Aes256"

lemma priv_proto_parse_is_case_insensitive: test_priv_proto_parse_is_case_insensitive
  by (simp add: test_priv_proto_parse_is_case_insensitive_def running)

definition test_priv_proto_parse_rejects_des :: bool where
  "test_priv_proto_parse_rejects_des \<longleftrightarrow>
     list_all (\<lambda>input. usage_with (\<lambda>msg. contains (lit ''DES-CBC'') msg \<and> contains (lit ''AES'') msg)
         (priv_from_str input))
       (map lit [''DES'', ''des'', ''Des'', ''DES-CBC'', ''des-cbc''])"

lemma priv_proto_parse_rejects_des: test_priv_proto_parse_rejects_des
  by (simp add: test_priv_proto_parse_rejects_des_def running)

definition test_priv_proto_parse_rejects_3des :: bool where
  "test_priv_proto_parse_rejects_3des \<longleftrightarrow>
     list_all (\<lambda>input. usage_with (\<lambda>msg. contains (lit ''3DES-CBC'') msg)
         (priv_from_str input))
       (map lit [''3DES'', ''3des'', ''3DES-CBC'', ''tdes'', ''TDES''])"

lemma priv_proto_parse_rejects_3des: test_priv_proto_parse_rejects_3des
  by (simp add: test_priv_proto_parse_rejects_3des_def running)

definition test_password_to_key_lengths_match_digest :: "'h crypto \<Rightarrow> bool" where
  "test_password_to_key_lengths_match_digest C \<longleftrightarrow>
     list_all (\<lambda>proto.
         case password_to_key C (lit ''maplesyrup'') rfc3414_engine_id proto of
           Return (Ok key) \<Rightarrow> length key = digest_len proto
         | _ \<Rightarrow> False)
       [Sha224, Sha256, Sha384, Sha512]"

lemma password_to_key_lengths_match_digest:
  assumes "streaming_law C" and "size_law C"
  shows "test_password_to_key_lengths_match_digest C"
  using assms(2)
  by (simp add: test_password_to_key_lengths_match_digest_def password_to_key_result [OF assms(1)]
      length_localized_key running)

definition test_password_to_key_rejects_short_passwords :: "'h crypto \<Rightarrow> bool" where
  "test_password_to_key_rejects_short_passwords C \<longleftrightarrow>
     list_all (\<lambda>short.
         case password_to_key C short rfc3414_engine_id Sha256 of
           Return r \<Rightarrow> usage_with (\<lambda>msg. contains (lit ''at least 8'') msg
             \<and> contains (lit ''RFC 3414'') msg) r
         | _ \<Rightarrow> False)
       [[], lit ''a'', lit ''1234567'']
     \<and> (case password_to_key C (lit ''12345678'') rfc3414_engine_id Sha256 of
          Return (Ok key) \<Rightarrow> True | _ \<Rightarrow> False)"

lemma password_to_key_rejects_short_passwords:
  assumes "streaming_law C"
  shows "test_password_to_key_rejects_short_passwords C"
  by (simp add: test_password_to_key_rejects_short_passwords_def password_to_key_result [OF assms]
      running)

definition test_priv_key_from_password_sha256_aes128 :: "'h crypto \<Rightarrow> bool" where
  "test_priv_key_from_password_sha256_aes128 C \<longleftrightarrow>
     (case priv_key_from_password C (lit ''privpass'') rfc3414_engine_id Sha256 Aes128 of
        Return (Ok priv_key) \<Rightarrow> length priv_key = 16
      | _ \<Rightarrow> False)"

lemma priv_key_from_password_sha256_aes128:
  assumes "streaming_law C" and "size_law C"
  shows "test_priv_key_from_password_sha256_aes128 C"
  using length_localized_key [OF assms(2)]
  by (simp add: test_priv_key_from_password_sha256_aes128_def priv_key_from_password_def
      password_to_key_result [OF assms(1)] slice_to_def running)

definition test_priv_key_from_password_sha1_aes192_rejected :: "'h crypto \<Rightarrow> bool" where
  "test_priv_key_from_password_sha1_aes192_rejected C \<longleftrightarrow>
     (case priv_key_from_password C (lit ''passw0rd'') rfc3414_engine_id Sha1 Aes192 of
        Return r \<Rightarrow> usage_with (\<lambda>msg. contains (lit ''SHA-1'') msg \<and> contains (lit ''AES-192'') msg) r
      | _ \<Rightarrow> False)"

lemma priv_key_from_password_sha1_aes192_rejected:
  assumes "streaming_law C" and "size_law C"
  shows "test_priv_key_from_password_sha1_aes192_rejected C"
  using assms(2)
  by (simp add: test_priv_key_from_password_sha1_aes192_rejected_def priv_key_from_password_def
      password_to_key_result [OF assms(1)] length_localized_key running)

definition test_priv_key_from_password_sha1_aes256_rejected :: "'h crypto \<Rightarrow> bool" where
  "test_priv_key_from_password_sha1_aes256_rejected C \<longleftrightarrow>
     (case priv_key_from_password C (lit ''passw0rd'') rfc3414_engine_id Sha1 Aes256 of
        Return r \<Rightarrow> usage_with (\<lambda>msg. True) r
      | _ \<Rightarrow> False)"

lemma priv_key_from_password_sha1_aes256_rejected:
  assumes "streaming_law C" and "size_law C"
  shows "test_priv_key_from_password_sha1_aes256_rejected C"
  using assms(2)
  by (simp add: test_priv_key_from_password_sha1_aes256_rejected_def priv_key_from_password_def
      password_to_key_result [OF assms(1)] length_localized_key running)

definition test_priv_key_from_password_rejects_short_password_first :: "'h crypto \<Rightarrow> bool" where
  "test_priv_key_from_password_rejects_short_password_first C \<longleftrightarrow>
     (case priv_key_from_password C (lit ''p'') rfc3414_engine_id Sha1 Aes256 of
        Return r \<Rightarrow> usage_with (contains (lit ''at least 8'')) r
      | _ \<Rightarrow> False)"

lemma priv_key_from_password_rejects_short_password_first:
  assumes "streaming_law C" and "size_law C"
  shows "test_priv_key_from_password_rejects_short_password_first C"
  using assms(2)
  by (simp add: test_priv_key_from_password_rejects_short_password_first_def priv_key_from_password_def
      password_to_key_result [OF assms(1)] length_localized_key running)

definition test_auth_protocol_display :: bool where
  "test_auth_protocol_display \<longleftrightarrow>
     show_auth Sha1 = lit ''SHA-1'' \<and> show_auth Sha256 = lit ''SHA-256''
     \<and> show_auth Sha512 = lit ''SHA-512''"

lemma auth_protocol_display: test_auth_protocol_display
  by (simp add: test_auth_protocol_display_def running)

definition test_priv_protocol_display :: bool where
  "test_priv_protocol_display \<longleftrightarrow>
     show_priv Aes128 = lit ''AES-128'' \<and> show_priv Aes192 = lit ''AES-192''
     \<and> show_priv Aes256 = lit ''AES-256''"

lemma priv_protocol_display: test_priv_protocol_display
  by (simp add: test_priv_protocol_display_def running)

definition test_auth_sign_panics_on_wrong_key_length :: "'h crypto \<Rightarrow> bool" where
  "test_auth_sign_panics_on_wrong_key_length C \<longleftrightarrow>
     auth_sign C [0x78] (replicate 16 0) Sha256 = Panic"

lemma auth_sign_panics_on_wrong_key_length: "test_auth_sign_panics_on_wrong_key_length C"
  by (simp add: test_auth_sign_panics_on_wrong_key_length_def running auth_sign_def)

definition test_priv_encrypt_panics_on_under_length_key :: "'h crypto \<Rightarrow> bool" where
  "test_priv_encrypt_panics_on_under_length_key C \<longleftrightarrow>
     priv_encrypt C [0x70, 0x6C, 0x61, 0x69, 0x6E] (replicate 8 0) 1 1 0 Aes128 = Panic"

lemma priv_encrypt_panics_on_under_length_key: "test_priv_encrypt_panics_on_under_length_key C"
  by (simp add: test_priv_encrypt_panics_on_under_length_key_def running priv_encrypt_def)

definition test_hmac_sha1_truncates_to_12_bytes :: "'h crypto \<Rightarrow> bool" where
  "test_hmac_sha1_truncates_to_12_bytes C \<longleftrightarrow>
     (case auth_sign C [0x78] (replicate 20 0) Sha1 of
        Return tag \<Rightarrow> length tag = 12 | _ \<Rightarrow> False)"

lemma hmac_sha1_truncates_to_12_bytes:
  assumes "size_law C"
  shows "test_hmac_sha1_truncates_to_12_bytes C"
proof (rule auth_sign_result [OF assms, where m = "[0x78]"])
  show "length (replicate 20 (0 :: u8)) = digest_len Sha1" by simp
qed (simp add: test_hmac_sha1_truncates_to_12_bytes_def)

definition test_priv_encrypt_round_trip_aes128 :: "'h crypto \<Rightarrow> bool" where
  "test_priv_encrypt_round_trip_aes128 C \<longleftrightarrow>
     (let key = replicate 16 0x42;
          plaintext = utf8 (lit ''the scoped PDU bytes go here'') in
      case priv_encrypt C plaintext key 1 100 0xDEADBEEFCAFEBABE Aes128 of
        Return ct \<Rightarrow>
          length ct = length plaintext \<and> ct \<noteq> plaintext
          \<and> cfb_decrypt C Aes128 key (make_aes_iv 1 100 0xDEADBEEFCAFEBABE) ct = Some plaintext
      | _ \<Rightarrow> False)"

lemma priv_encrypt_round_trip_aes128:
  assumes "size_law C" and "cipher_law C"
    and "cfb_encrypt C Aes128 (replicate 16 0x42) (make_aes_iv 1 100 0xDEADBEEFCAFEBABE)
      (utf8 (lit ''the scoped PDU bytes go here'')) \<noteq> Some (utf8 (lit ''the scoped PDU bytes go here''))"
  shows "test_priv_encrypt_round_trip_aes128 C"
proof (rule priv_encrypt_result [OF assms(1), of Aes128 "replicate 16 0x42" "utf8 (lit ''the scoped PDU bytes go here'')"
      1 100 "0xDEADBEEFCAFEBABE"])
  fix ct
  assume "priv_encrypt C (utf8 (lit ''the scoped PDU bytes go here'')) (replicate 16 0x42) 1 100
      0xDEADBEEFCAFEBABE Aes128 = Return ct"
    and "length ct = length (utf8 (lit ''the scoped PDU bytes go here''))"
    and "cfb_encrypt C Aes128 (take (key_len Aes128) (replicate 16 0x42))
      (make_aes_iv 1 100 0xDEADBEEFCAFEBABE) (utf8 (lit ''the scoped PDU bytes go here'')) = Some ct"
  with assms(3) priv_encrypt_decrypts [OF assms(2) this(1)] show ?thesis
    by (auto simp: test_priv_encrypt_round_trip_aes128_def Let_def)
qed simp

definition test_priv_encrypt_round_trip_aes256 :: "'h crypto \<Rightarrow> bool" where
  "test_priv_encrypt_round_trip_aes256 C \<longleftrightarrow>
     (let key = replicate 32 0x77;
          plaintext = utf8 (lit ''another scoped PDU'') in
      case priv_encrypt C plaintext key 7 9999 0xFFFFEEEEDDDDCCCC Aes256 of
        Return ct \<Rightarrow>
          length ct = length plaintext \<and> ct \<noteq> plaintext
          \<and> cfb_decrypt C Aes256 key (make_aes_iv 7 9999 0xFFFFEEEEDDDDCCCC) ct = Some plaintext
      | _ \<Rightarrow> False)"

lemma priv_encrypt_round_trip_aes256:
  assumes "size_law C" and "cipher_law C"
    and "cfb_encrypt C Aes256 (replicate 32 0x77) (make_aes_iv 7 9999 0xFFFFEEEEDDDDCCCC)
      (utf8 (lit ''another scoped PDU'')) \<noteq> Some (utf8 (lit ''another scoped PDU''))"
  shows "test_priv_encrypt_round_trip_aes256 C"
proof (rule priv_encrypt_result [OF assms(1), of Aes256 "replicate 32 0x77" "utf8 (lit ''another scoped PDU'')"
      7 9999 "0xFFFFEEEEDDDDCCCC"])
  fix ct
  assume "priv_encrypt C (utf8 (lit ''another scoped PDU'')) (replicate 32 0x77) 7 9999
      0xFFFFEEEEDDDDCCCC Aes256 = Return ct"
    and "length ct = length (utf8 (lit ''another scoped PDU''))"
    and "cfb_encrypt C Aes256 (take (key_len Aes256) (replicate 32 0x77))
      (make_aes_iv 7 9999 0xFFFFEEEEDDDDCCCC) (utf8 (lit ''another scoped PDU'')) = Some ct"
  with assms(3) priv_encrypt_decrypts [OF assms(2) this(1)] show ?thesis
    by (auto simp: test_priv_encrypt_round_trip_aes256_def Let_def)
qed simp

definition test_priv_encrypt_iv_construction :: bool where
  "test_priv_encrypt_iv_construction \<longleftrightarrow>
     make_aes_iv 1 0x10203040 0xAABBCCDDEEFF0011
       = [0x00, 0x00, 0x00, 0x01, 0x10, 0x20, 0x30, 0x40,
          0xAA, 0xBB, 0xCC, 0xDD, 0xEE, 0xFF, 0x00, 0x11]"

lemma priv_encrypt_iv_construction: test_priv_encrypt_iv_construction
  by (simp add: test_priv_encrypt_iv_construction_def running make_aes_iv_def be_bytes_4 be_bytes_8)

end
