(* ===== verification/PduTests.thy ===== *)
theory PduTests
  imports TestKit BerCode
begin

text \<open>
  The unit tests of \<open>src/pdu.rs\<close>. The two that decode what was encoded hold for every encoder
  that accepts the message and every decoder that inverts it, the others for every encoder.
\<close>

declare build_v1_trap_def [running] make_v1_varbind_def [running]

text \<open>\<open>ber::decode\<close>, at the types the tests use it at, inverts the encoder.\<close>

record decoder =
  decode_v1 :: "bytes \<Rightarrow> message_v1 option"
  decode_v2c :: "bytes \<Rightarrow> message_v2c option"
  decode_v3 :: "bytes \<Rightarrow> message_v3 option"
  decode_usm :: "bytes \<Rightarrow> usm_params option"
  decode_scoped :: "bytes \<Rightarrow> scoped_pdu option"

definition inverts ::
  "('a \<Rightarrow> bool) \<Rightarrow> (bytes \<Rightarrow> 'a option) \<Rightarrow> ('a \<Rightarrow> (bytes, rstr) result) \<Rightarrow> bool"
where
  "inverts valid decode enc \<longleftrightarrow>
     (\<forall>x. \<exists>b. enc x = Ok b \<and> (valid x \<longrightarrow> decode b = Some x))"

lemma inverts_Ok: "inverts valid decode enc \<Longrightarrow> enc x = Ok b \<Longrightarrow> valid x \<Longrightarrow> decode b = Some x"
  unfolding inverts_def by (metis result.inject(1))

text \<open>An encoder that tells messages apart and accepts all of them has a decoder.\<close>

definition inverse_of ::
  "('a \<Rightarrow> bool) \<Rightarrow> ('a \<Rightarrow> (bytes, rstr) result) \<Rightarrow> bytes \<Rightarrow> 'a option"
where
  "inverse_of valid enc b =
     (if \<exists>x. valid x \<and> enc x = Ok b then Some (THE x. valid x \<and> enc x = Ok b) else None)"

lemma reference_inverts:
  assumes "tells_apart valid (\<lambda>x. Ok (f x))"
  shows "inverts valid (inverse_of valid (\<lambda>x. Ok (f x))) (\<lambda>x. Ok (f x))"
proof -
  have "(THE y. valid y \<and> f y = f x) = x" if "valid x" for x
    using that assms by (intro the_equality) (auto simp: tells_apart_def)
  then show ?thesis by (auto simp: inverts_def inverse_of_def)
qed

definition reference_decoder :: decoder where
  "reference_decoder =
     \<lparr>decode_v1 = inverse_of valid_v1 (encode_v1 ber_codec),
      decode_v2c = inverse_of (\<lambda>m. valid_pdu (v2c_data m)) (encode_v2c ber_codec),
      decode_v3 = inverse_of valid_v3 (encode_v3 ber_codec),
      decode_usm = inverse_of (\<lambda>u. True) (encode_usm ber_codec),
      decode_scoped = inverse_of (\<lambda>s. valid_pdu (scoped_trap s)) (encode_scoped ber_codec)\<rparr>"

lemma inverted:
  assumes "inverts valid decode enc" and "valid x"
  shows "(case map_err Encode (enc x) of
      Ok b \<Rightarrow> (case decode b of Some y \<Rightarrow> P y | None \<Rightarrow> False) | Err _ \<Rightarrow> False) = P x"
  using assms(1) [unfolded inverts_def, rule_format, of x] assms(2) by auto

lemmas valid_defs = valid_pdu_def valid_binding_v2_def valid_v1_def valid_binding_v1_def
  valid_oid_def SYS_UPTIME_OID_def SNMP_TRAP_OID_OID_def

definition test_v2c_trap_roundtrips :: "codec \<Rightarrow> decoder \<Rightarrow> bool" where
  "test_v2c_trap_roundtrips cd D \<longleftrightarrow>
     (case build_v2c_trap cd
        \<lparr>v2t_community = utf8 (lit ''public''), v2t_request_id = 1414684022, v2t_uptime = 12345,
         v2t_trap_oid = [1, 3, 6, 1, 6, 3, 1, 1, 5, 1],
         v2t_varbinds = [([1, 3, 6, 1, 4, 1, 8072, 2, 3, 2, 1], VInteger 42)]\<rparr> of
        Ok bytes \<Rightarrow>
          (case decode_v2c D bytes of
             Some decoded \<Rightarrow>
               (let pdu = v2c_data decoded in
                v2c_community decoded = utf8 (lit ''public'')
                \<and> request_id pdu = 1414684022 \<and> error_status pdu = 0 \<and> error_index pdu = 0
                \<and> length (variable_bindings pdu) = 3
                \<and> name_v2 (variable_bindings pdu ! 0) = SYS_UPTIME_OID
                \<and> name_v2 (variable_bindings pdu ! 1) = SNMP_TRAP_OID_OID)
           | None \<Rightarrow> False)
      | Err _ \<Rightarrow> False)"

lemma v2c_trap_roundtrips:
  assumes "inverts (\<lambda>m. valid_pdu (v2c_data m)) (decode_v2c D) (encode_v2c cd)" and "no_error_status cd = 0"
  shows "test_v2c_trap_roundtrips cd D"
  by (simp add: test_v2c_trap_roundtrips_def build_v2c_trap_def make_v2_varbind_def
      inverted [OF assms(1)] assms(2) valid_defs)

definition test_v1_trap_roundtrips :: "codec \<Rightarrow> decoder \<Rightarrow> bool" where
  "test_v1_trap_roundtrips cd D \<longleftrightarrow>
     (case build_v1_trap cd
        \<lparr>v1t_community = utf8 (lit ''public''), v1t_enterprise = [1, 3, 6, 1, 4, 1, 3, 1, 1],
         v1t_agent_addr = Ipv4 10 0 0 1, v1t_generic = 6, v1t_specific = 17, v1t_uptime = 99999,
         v1t_varbinds = [([1, 3, 6, 1, 4, 1, 8072, 2, 3, 2, 1], VInteger 7)]\<rparr> of
        Ok bytes \<Rightarrow>
          (case decode_v1 D bytes of
             Some decoded \<Rightarrow>
               (let trap = v1_data decoded in
                v1_community decoded = utf8 (lit ''public'')
                \<and> trap_generic trap = 6 \<and> trap_specific trap = 17 \<and> trap_time_stamp trap = 99999
                \<and> (case trap_agent_addr trap of Internet ip \<Rightarrow> ip = [10, 0, 0, 1]))
           | None \<Rightarrow> False)
      | Err _ \<Rightarrow> False)"

lemma v1_trap_roundtrips:
  assumes "inverts valid_v1 (decode_v1 D) (encode_v1 cd)"
  shows "test_v1_trap_roundtrips cd D"
  by (simp add: test_v1_trap_roundtrips_def build_v1_trap_def make_v1_varbind_def
      inverted [OF assms] valid_defs)

definition test_bits_in_v1_rejected :: "codec \<Rightarrow> bool" where
  "test_bits_in_v1_rejected cd \<longleftrightarrow>
     (case build_v1_trap cd
        \<lparr>v1t_community = utf8 (lit ''public''), v1t_enterprise = [1, 3, 6, 1, 4, 1, 3, 1, 1],
         v1t_agent_addr = Ipv4 10 0 0 1, v1t_generic = 6, v1t_specific = 1, v1t_uptime = 0,
         v1t_varbinds = [([1, 3, 6, 1, 4, 1, 8072, 2, 3, 2, 1], VBits [0x80])]\<rparr> of
        Err (Encode msg) \<Rightarrow> contains (lit ''BITS'') msg
      | _ \<Rightarrow> False)"

lemma bits_in_v1_rejected: "test_bits_in_v1_rejected cd"
  by (simp add: test_bits_in_v1_rejected_def running)

definition test_counter64_in_v1_rejected :: "codec \<Rightarrow> bool" where
  "test_counter64_in_v1_rejected cd \<longleftrightarrow>
     (case build_v1_trap cd
        \<lparr>v1t_community = utf8 (lit ''public''), v1t_enterprise = [1, 3, 6, 1, 4, 1, 3, 1, 1],
         v1t_agent_addr = Ipv4 10 0 0 1, v1t_generic = 6, v1t_specific = 1, v1t_uptime = 0,
         v1t_varbinds = [([1, 3, 6, 1, 4, 1, 8072, 2, 3, 2, 1], VCounter64 42)]\<rparr> of
        Err (Encode msg) \<Rightarrow> contains (lit ''Counter64'') msg
      | _ \<Rightarrow> False)"

lemma counter64_in_v1_rejected: "test_counter64_in_v1_rejected cd"
  by (simp add: test_counter64_in_v1_rejected_def running)

end
