(* ===== verification/V3Tests.thy ===== *)
theory V3Tests
  imports PduTests EngineTests
begin

text \<open>
  The unit tests of \<open>src/v3.rs\<close>: each holds of the model, those that decode what was built for
  every encoder and decoder that invert each other and every lawful choice of the
  cryptographic functions.
\<close>

text \<open>The engine identifier is the value of \<open>parse_user_input("80001f88010203040506")\<close>.\<close>

definition fixture_engine_id_v3 :: engine_id where
  "fixture_engine_id_v3 = EngineId [0x80, 0x00, 0x1F, 0x88, 0x01, 0x02, 0x03, 0x04, 0x05, 0x06]"

lemma fixture_engine_id_parses:
  "parse_user_input (lit ''80001f88010203040506'') = Ok fixture_engine_id_v3"
  by (simp add: fixture_engine_id_v3_def running)

definition fixture_trap :: "i32_draw \<Rightarrow> v2c_trap" where
  "fixture_trap rng =
     \<lparr>v2t_community = [], v2t_request_id = fresh_request_id rng, v2t_uptime = 12345,
      v2t_trap_oid = [1, 3, 6, 1, 6, 3, 1, 1, 5, 1],
      v2t_varbinds = [([1, 3, 6, 1, 4, 1, 8072, 2, 3, 2, 1], VInteger 42)]\<rparr>"

definition fixture_no_auth :: "i32_draw \<Rightarrow> v3_trap_message" where
  "fixture_no_auth rng =
     \<lparr>m_authoritative_engine_id = fixture_engine_id_v3, m_context_engine_id = fixture_engine_id_v3,
      m_context_name = [], m_user_name = utf8 (lit ''testuser''), m_engine_boots = 1,
      m_engine_time = 100, m_msg_id = 0xCAFEBABE AND 0x7FFFFFFF, m_security = SecNoAuthNoPriv,
      m_trap = fixture_trap rng\<rparr>"

text \<open>The closing assertions on the bindings of a decoded scoped PDU.\<close>

definition three_bindings :: "scoped_pdu \<Rightarrow> bool" where
  "three_bindings scoped \<longleftrightarrow>
     (let bindings = variable_bindings (scoped_trap scoped) in
      length bindings = 3 \<and> name_v2 (bindings ! 0) = SYS_UPTIME_OID
      \<and> name_v2 (bindings ! 1) = SNMP_TRAP_OID_OID)"

text \<open>
  Building, decoding the message and decoding its security parameters, each of which must
  succeed; the two decoders are \<open>decode_message\<close> and \<open>decode_usm_params\<close> of the tests.
\<close>

definition received ::
  "bool \<Rightarrow> 'h crypto \<Rightarrow> codec \<Rightarrow> decoder \<Rightarrow> v3_trap_message
    \<Rightarrow> (message_v3 \<Rightarrow> usm_params \<Rightarrow> bool) \<Rightarrow> bool"
where
  "received debug C cd D m P \<longleftrightarrow>
     (case build_v3_trap_message debug C cd m of
        Return (Ok bytes) \<Rightarrow>
          (case decode_v3 D bytes of
             Some msg \<Rightarrow>
               (case decode_usm D (security_parameters msg) of Some usm \<Rightarrow> P msg usm | None \<Rightarrow> False)
           | None \<Rightarrow> False)
      | _ \<Rightarrow> False)"

text \<open>The crates as the tests use them.\<close>

definition crates_work :: "'h crypto \<Rightarrow> codec \<Rightarrow> decoder \<Rightarrow> bool" where
  "crates_work C cd D \<longleftrightarrow>
     size_law C \<and> cipher_law C \<and> splice_law cd
     \<and> inverts valid_v3 (decode_v3 D) (encode_v3 cd)
     \<and> inverts (\<lambda>u. True) (decode_usm D) (encode_usm cd)
     \<and> inverts (\<lambda>sp. valid_pdu (scoped_trap sp)) (decode_scoped D) (encode_scoped cd)"

lemma sample_crates_work: "crates_work sample_crypto ber_codec reference_decoder"
proof -
  have t: "tells_apart valid_v3 (\<lambda>m. Ok (ber_v3 m))" "tells_apart (\<lambda>u. True) (\<lambda>p. Ok (ber_usm p))"
    "tells_apart (\<lambda>s. valid_pdu (scoped_trap s)) (\<lambda>s. Ok (ber_scoped s))"
    using ber_unambiguous by (simp_all add: unambiguous_law_def ber_codec_def)
  have e: "encode_v3 ber_codec = (\<lambda>m. Ok (ber_v3 m))" "encode_usm ber_codec = (\<lambda>p. Ok (ber_usm p))"
    "encode_scoped ber_codec = (\<lambda>s. Ok (ber_scoped s))"
    by (simp_all add: ber_codec_def)
  show ?thesis
    using reference_inverts [OF t(1)] reference_inverts [OF t(2)] reference_inverts [OF t(3)]
    by (simp add: crates_work_def reference_decoder_def e)
qed

lemma never_Err: "inverts valid decode enc \<Longrightarrow> enc x \<noteq> Err e"
  unfolding inverts_def by (metis result.distinct(1))

lemma encoders_accept:
  assumes "crates_work C cd D"
  shows "wire cd m sd pp a \<noteq> Err e" "scoped_data_of C cd m sp \<noteq> Return (Err e')"
proof -
  have v3: "encode_v3 cd x \<noteq> Err e" and u: "encode_usm cd y \<noteq> Err e"
    and s: "encode_scoped cd z \<noteq> Err e" for x y z e
    using assms by (auto simp: crates_work_def dest: never_Err)
  from v3 u show "wire cd m sd pp a \<noteq> Err e"
    by (cases "encode_usm cd (build_usm_params m a pp)") (auto simp: wire_def)
  show "scoped_data_of C cd m sp \<noteq> Return (Err e')"
    by (cases "m_security m")
      (auto simp: scoped_data_of_def encode_with_def and_try_eq_Err s map_err_eq_Err)
qed

lemma fixture_valid:
  "m_trap m = fixture_trap rng \<Longrightarrow> valid_pdu (scoped_trap (scoped_of cd m))"
  by (simp add: scoped_of_def v2_bindings_def fixture_trap_def valid_defs)

lemma build_v3_succeeds:
  assumes "crates_work C cd D" and "keys_fit (m_security m)"
  shows "\<exists>out. build_v3_trap_message debug C cd m = Return (Ok out)"
proof -
  have laws: "size_law C" "splice_law cd" using assms(1) by (simp_all add: crates_work_def)
  obtain r where r: "build_v3_trap_message debug C cd m = Return r"
    using build_v3_returns [OF laws assms(2)] by (auto simp: returns_def)
  have "r \<noteq> Err e" for e
  proof
    assume "r = Err e"
    with r show False
      using encoders_accept [OF assms(1)]
      unfolding build_v3_wire
      by (auto simp: and_try_eq_Err split: option.splits if_splits)
  qed
  with r show ?thesis by (cases r) auto
qed

text \<open>With crates that work the message comes back, with the tag or without.\<close>

lemma received_iff:
  assumes "crates_work C cd D" and "m_trap m = fixture_trap rng" and "keys_fit (m_security m)"
  obtains sd pp a where "scoped_data_of C cd m (scoped_of cd m) = Return (Ok (sd, pp))"
    and "length a = placeholder_len (m_security m)"
    and "auth (m_security m) = None \<Longrightarrow> a = []"
    and "\<And>p k. auth (m_security m) = Some (p, k) \<Longrightarrow>
           \<exists>b0. wire cd m sd pp (replicate (auth_param_len p) 0) = Ok b0 \<and> auth_sign C b0 k p = Return a"
    and "\<And>P. received debug C cd D m P \<longleftrightarrow>
           (\<exists>s. encode_usm cd (build_usm_params m a pp) = Ok s
              \<and> P (v3_message m sd s) (build_usm_params m a pp))"
proof -
  have laws: "size_law C" "splice_law cd" "inverts valid_v3 (decode_v3 D) (encode_v3 cd)"
    "inverts (\<lambda>u. True) (decode_usm D) (encode_usm cd)"
    using assms(1) by (simp_all add: crates_work_def)
  obtain out where out: "build_v3_trap_message debug C cd m = Return (Ok out)"
    using build_v3_succeeds [OF assms(1,3)] by blast
  show ?thesis
  proof (rule build_v3_Ok [OF out])
    fix sd pp a
    assume h: "scoped_data_of C cd m (scoped_of cd m) = Return (Ok (sd, pp))"
      "length a = placeholder_len (m_security m)" "auth (m_security m) = None \<Longrightarrow> a = []"
      "\<And>p k. auth (m_security m) = Some (p, k) \<Longrightarrow>
         \<exists>b0. wire cd m sd pp (replicate (auth_param_len p) 0) = Ok b0 \<and> auth_sign C b0 k p = Return a"
      and "wire cd m sd pp a = Ok out"
    then obtain s where s: "encode_usm cd (build_usm_params m a pp) = Ok s"
      "encode_v3 cd (v3_message m sd s) = Ok out" by (auto simp: wire_def)
    have "valid_v3 (v3_message m sd s)"
      using h(1) fixture_valid [OF assms(2), of cd]
      by (cases "m_security m") (auto simp: scoped_data_of_def valid_v3_def v3_message_def)
    then have "decode_v3 D out = Some (v3_message m sd s)"
      "decode_usm D s = Some (build_usm_params m a pp)"
      using inverts_Ok [OF laws(3) s(2)] inverts_Ok [OF laws(4) s(1)] by simp_all
    then have "received debug C cd D m P \<longleftrightarrow>
        (\<exists>s. encode_usm cd (build_usm_params m a pp) = Ok s
           \<and> P (v3_message m sd s) (build_usm_params m a pp))" for P
      using s(1) by (simp add: received_def out v3_message_def)
    with h show ?thesis by (intro that)
  qed
qed

lemmas fixture_defs = fixture_no_auth_def fixture_trap_def v3_message_def v3_header_def
  build_usm_params_def MSG_VERSION_V3_def SECURITY_MODEL_USM_def

lemma scoped_of_fixture:
  "three_bindings (scoped_of cd (fixture_no_auth rng))"
  by (simp add: three_bindings_def scoped_of_def v2_bindings_def fixture_no_auth_def fixture_trap_def)

definition test_no_auth_no_priv_round_trip :: "bool \<Rightarrow> 'h crypto \<Rightarrow> codec \<Rightarrow> decoder \<Rightarrow> i32_draw \<Rightarrow> bool" where
  "test_no_auth_no_priv_round_trip debug C cd D rng \<longleftrightarrow>
     (let m = fixture_no_auth rng in
      received debug C cd D m (\<lambda>msg usm.
        v3_version msg = uint MSG_VERSION_V3
        \<and> security_model (global_data msg) = uint SECURITY_MODEL_USM
        \<and> flags (global_data msg) = [0]
        \<and> authoritative_engine_id usm = eid_bytes (m_authoritative_engine_id m)
        \<and> usm_user_name usm = utf8 (lit ''testuser'')
        \<and> authentication_parameters usm = [] \<and> privacy_parameters usm = []
        \<and> (case v3_scoped_data msg of
             CleartextPdu scoped \<Rightarrow>
               scoped_engine_id scoped = eid_bytes (m_authoritative_engine_id m)
               \<and> three_bindings scoped
           | EncryptedPdu _ \<Rightarrow> False)))"

lemma no_auth_no_priv_round_trip:
  assumes "crates_work C cd D"
  shows "test_no_auth_no_priv_round_trip debug C cd D rng"
proof -
  let ?m = "fixture_no_auth rng"
  have sec: "m_security ?m = SecNoAuthNoPriv" by (simp add: fixture_no_auth_def)
  show ?thesis
  proof (rule received_iff [OF assms, of ?m rng debug])
    fix sd pp a
    assume "scoped_data_of C cd ?m (scoped_of cd ?m) = Return (Ok (sd, pp))"
      and "auth (m_security ?m) = None \<Longrightarrow> a = []"
      and r: "\<And>P. received debug C cd D ?m P \<longleftrightarrow>
        (\<exists>s. encode_usm cd (build_usm_params ?m a pp) = Ok s
           \<and> P (v3_message ?m sd s) (build_usm_params ?m a pp))"
    then have sd: "sd = CleartextPdu (scoped_of cd ?m)" "pp = []" "a = []"
      by (simp_all add: scoped_data_of_def sec)
    moreover obtain s where "encode_usm cd (build_usm_params ?m [] []) = Ok s"
      using assms unfolding crates_work_def inverts_def by blast
    ultimately show ?thesis
      unfolding test_no_auth_no_priv_round_trip_def Let_def r
      using scoped_of_fixture [of cd rng]
      by (simp add: fixture_defs scoped_of_def)
  qed (simp_all add: sec fixture_no_auth_def)
qed

definition test_auth_no_priv_sha256_hmac_verifies :: "bool \<Rightarrow> 'h crypto \<Rightarrow> codec \<Rightarrow> decoder \<Rightarrow> i32_draw \<Rightarrow> bool" where
  "test_auth_no_priv_sha256_hmac_verifies debug C cd D rng \<longleftrightarrow>
     (let auth_key = replicate (digest_len Sha256) 0xAA;
          m = (fixture_no_auth rng)\<lparr>m_security := SecAuthNoPriv Sha256 auth_key\<rparr> in
      received debug C cd D m (\<lambda>msg usm.
        let received_tag = authentication_parameters usm;
            zero_tag = replicate (auth_param_len Sha256) 0;
            usm_zeroed = usm\<lparr>authentication_parameters := zero_tag\<rparr> in
        flags (global_data msg) = [FLAG_AUTH]
        \<and> length received_tag = auth_param_len Sha256
        \<and> (case encode_usm cd usm_zeroed of
             Ok usm_zeroed_bytes \<Rightarrow>
               (case encode_v3 cd (msg\<lparr>security_parameters := usm_zeroed_bytes\<rparr>) of
                  Ok zeroed_message_bytes \<Rightarrow>
                    auth_sign C zeroed_message_bytes auth_key Sha256 = Return received_tag
                | Err _ \<Rightarrow> False)
           | Err _ \<Rightarrow> False)))"

lemma auth_no_priv_sha256_hmac_verifies:
  assumes "crates_work C cd D"
  shows "test_auth_no_priv_sha256_hmac_verifies debug C cd D rng"
proof -
  define m where "m = (fixture_no_auth rng)
    \<lparr>m_security := SecAuthNoPriv Sha256 (replicate (digest_len Sha256) 0xAA)\<rparr>"
  have sec: "m_security m = SecAuthNoPriv Sha256 (replicate (digest_len Sha256) 0xAA)"
    by (simp add: m_def)
  show ?thesis
  proof (rule received_iff [OF assms, of m rng debug])
    fix sd pp a
    assume la: "length a = placeholder_len (m_security m)"
      and s: "\<And>p k. auth (m_security m) = Some (p, k) \<Longrightarrow>
        \<exists>b0. wire cd m sd pp (replicate (auth_param_len p) 0) = Ok b0 \<and> auth_sign C b0 k p = Return a"
      and r: "\<And>P. received debug C cd D m P \<longleftrightarrow>
        (\<exists>s. encode_usm cd (build_usm_params m a pp) = Ok s
           \<and> P (v3_message m sd s) (build_usm_params m a pp))"
    obtain s1 where "encode_usm cd (build_usm_params m a pp) = Ok s1"
      using assms unfolding crates_work_def inverts_def by blast
    moreover obtain b0 s0 where "auth_sign C b0 (replicate (digest_len Sha256) 0xAA) Sha256 = Return a"
      "encode_usm cd (build_usm_params m (replicate (auth_param_len Sha256) 0) pp) = Ok s0"
      "encode_v3 cd (v3_message m sd s0) = Ok b0"
      using s by (auto simp: sec wire_def)
    ultimately show ?thesis
      using la
      unfolding test_auth_no_priv_sha256_hmac_verifies_def Let_def m_def [symmetric] r
      by (auto simp: build_usm_params_def v3_message_def v3_header_def sec placeholder_len_def)
  qed (simp_all add: sec m_def fixture_no_auth_def)
qed

definition test_auth_priv_sha256_aes128_round_trip :: "bool \<Rightarrow> 'h crypto \<Rightarrow> codec \<Rightarrow> decoder \<Rightarrow> i32_draw \<Rightarrow> bool" where
  "test_auth_priv_sha256_aes128_round_trip debug C cd D rng \<longleftrightarrow>
     (let auth_key = replicate (digest_len Sha256) 0x11;
          priv_key = replicate (key_len Aes128) 0x22;
          salt = 0xDEADBEEFCAFEBABE;
          m = (fixture_no_auth rng)\<lparr>m_security := SecAuthPriv Sha256 auth_key Aes128 priv_key salt\<rparr> in
      received debug C cd D m (\<lambda>msg usm.
        flags (global_data msg) = [FLAG_AUTH OR FLAG_PRIV]
        \<and> privacy_parameters usm = be_bytes 8 salt
        \<and> (case v3_scoped_data msg of
             EncryptedPdu encrypted \<Rightarrow>
               (let pp = privacy_parameters usm; recovered_salt = of_nat (of_be pp);
                    iv = be_bytes 4 (m_engine_boots m) @ be_bytes 4 (m_engine_time m) @ be_bytes 8 salt in
                length pp = 8 \<and> recovered_salt = salt
                \<and> (case cfb_decrypt C Aes128 priv_key iv encrypted of
                     Some buf \<Rightarrow>
                       (case decode_scoped D buf of
                          Some scoped \<Rightarrow>
                            scoped_engine_id scoped = eid_bytes (m_context_engine_id m)
                            \<and> three_bindings scoped
                        | None \<Rightarrow> False)
                   | None \<Rightarrow> False))
           | CleartextPdu _ \<Rightarrow> False)))"

lemma auth_priv_sha256_aes128_round_trip:
  assumes "crates_work C cd D"
  shows "test_auth_priv_sha256_aes128_round_trip debug C cd D rng"
proof -
  define m where "m = (fixture_no_auth rng)
    \<lparr>m_security := SecAuthPriv Sha256 (replicate (digest_len Sha256) 0x11) Aes128
       (replicate (key_len Aes128) 0x22) 0xDEADBEEFCAFEBABE\<rparr>"
  have sec: "m_security m = SecAuthPriv Sha256 (replicate (digest_len Sha256) 0x11) Aes128
      (replicate (key_len Aes128) 0x22) 0xDEADBEEFCAFEBABE"
    by (simp add: m_def)
  have fixture: "m_trap m = fixture_trap rng" by (simp add: m_def fixture_no_auth_def)
  have three: "three_bindings (scoped_of cd m)"
    using scoped_of_fixture [of cd rng] by (simp add: m_def scoped_of_def)
  show ?thesis
  proof (rule received_iff [OF assms, of m rng debug])
    fix sd pp a
    assume sd: "scoped_data_of C cd m (scoped_of cd m) = Return (Ok (sd, pp))"
      and r: "\<And>P. received debug C cd D m P \<longleftrightarrow>
        (\<exists>s. encode_usm cd (build_usm_params m a pp) = Ok s
           \<and> P (v3_message m sd s) (build_usm_params m a pp))"
    have laws: "cipher_law C" "inverts (\<lambda>sp. valid_pdu (scoped_trap sp)) (decode_scoped D) (encode_scoped cd)"
      using assms by (simp_all add: crates_work_def)
    obtain s1 where s1: "encode_usm cd (build_usm_params m a pp) = Ok s1"
      using assms unfolding crates_work_def inverts_def by blast
    have pp: "pp = be_bytes 8 (0xDEADBEEFCAFEBABE :: u64)"
      using sd by (auto simp: scoped_data_of_def sec)
    from scoped_data_carries [OF laws(1) sd] obtain ct plain where
      "sd = EncryptedPdu ct" "encode_scoped cd (scoped_of cd m) = Ok plain"
      "cfb_decrypt C Aes128 (replicate (key_len Aes128) 0x22)
         (be_bytes 4 (m_engine_boots m) @ be_bytes 4 (m_engine_time m) @ pp) ct = Some plain"
      by (cases sd) (auto simp: sec FLAG_AUTH_def FLAG_PRIV_def)
    moreover from this(2) have "decode_scoped D plain = Some (scoped_of cd m)"
      using inverts_Ok [OF laws(2) _ fixture_valid, of cd m plain rng]
      by (simp add: fixture)
    ultimately show ?thesis
      using three s1
      unfolding test_auth_priv_sha256_aes128_round_trip_def Let_def m_def [symmetric] r
      by (auto simp: build_usm_params_def v3_message_def v3_header_def sec pp scoped_of_def
          of_be_be_bytes_exact)
  qed (simp_all add: sec m_def fixture_no_auth_def)
qed

definition test_auth_priv_with_src_addr_engine_id_coherence :: "bool \<Rightarrow> 'h crypto \<Rightarrow> codec \<Rightarrow> decoder \<Rightarrow> i32_draw \<Rightarrow> host \<Rightarrow> bool" where
  "test_auth_priv_with_src_addr_engine_id_coherence debug C cd D rng host \<longleftrightarrow>
     (case parse_ipv4 (lit ''198.51.100.42'') of
        None \<Rightarrow> False
      | Some src_addr \<Rightarrow>
          (let derived = resolve host None (Some src_addr);
               expected = [0x80, 0x00, 0xF0, 0x45, 0x01, 0xC6, 0x33, 0x64, 0x2A];
               m = (fixture_no_auth rng)
                 \<lparr>m_authoritative_engine_id := derived, m_context_engine_id := derived,
                  m_security := SecAuthPriv Sha256 (replicate (digest_len Sha256) 0x33) Aes128
                    (replicate (key_len Aes128) 0x44) 0\<rparr> in
           eid_bytes derived = expected
           \<and> received debug C cd D m (\<lambda>msg usm. authoritative_engine_id usm = expected)))"

lemma auth_priv_with_src_addr_engine_id_coherence:
  assumes "crates_work C cd D"
  shows "test_auth_priv_with_src_addr_engine_id_coherence debug C cd D rng host"
proof -
  have ip: "parse_ipv4 (lit ''198.51.100.42'') = Some (Ipv4 198 51 100 42)"
    by (simp add: running)
  have eid: "eid_bytes (resolve host None (Some (Ipv4 198 51 100 42)))
      = [0x80, 0x00, 0xF0, 0x45, 0x01, 0xC6, 0x33, 0x64, 0x2A]"
    by (simp add: resolve_def running)
  define m where "m = (fixture_no_auth rng)
    \<lparr>m_authoritative_engine_id := resolve host None (Some (Ipv4 198 51 100 42)),
     m_context_engine_id := resolve host None (Some (Ipv4 198 51 100 42)),
     m_security := SecAuthPriv Sha256 (replicate (digest_len Sha256) 0x33) Aes128
       (replicate (key_len Aes128) 0x44) 0\<rparr>"
  have "received debug C cd D m (\<lambda>msg usm. authoritative_engine_id usm
      = [0x80, 0x00, 0xF0, 0x45, 0x01, 0xC6, 0x33, 0x64, 0x2A])"
  proof (rule received_iff [OF assms, of m rng debug])
    fix sd pp a
    assume r: "\<And>P. received debug C cd D m P \<longleftrightarrow>
        (\<exists>s. encode_usm cd (build_usm_params m a pp) = Ok s
           \<and> P (v3_message m sd s) (build_usm_params m a pp))"
    obtain s1 where "encode_usm cd (build_usm_params m a pp) = Ok s1"
      using assms unfolding crates_work_def inverts_def by blast
    moreover have "authoritative_engine_id (build_usm_params m a pp)
        = [0x80, 0x00, 0xF0, 0x45, 0x01, 0xC6, 0x33, 0x64, 0x2A]"
      using eid by (simp add: build_usm_params_def m_def)
    ultimately show ?thesis unfolding r by blast
  qed (simp_all add: m_def fixture_no_auth_def)
  then show ?thesis
    by (simp add: test_auth_priv_with_src_addr_engine_id_coherence_def ip m_def Let_def
        from_ipv4_def pen_prefix FORMAT_IPV4_def)
qed

definition test_flag_byte_encoding :: bool where
  "test_flag_byte_encoding \<longleftrightarrow>
     flag_byte SecNoAuthNoPriv = 0
     \<and> flag_byte (SecAuthNoPriv Sha256 (replicate 32 0)) = 1
     \<and> flag_byte (SecAuthPriv Sha256 (replicate 32 0) Aes128 (replicate 16 0) 0) = 3"

lemma flag_byte_encoding: test_flag_byte_encoding
  by (simp add: test_flag_byte_encoding_def FLAG_AUTH_def FLAG_PRIV_def)

definition test_fresh_msg_id_is_positive :: "(nat \<Rightarrow> i32_draw) \<Rightarrow> bool" where
  "test_fresh_msg_id_is_positive rng \<longleftrightarrow>
     list_all (\<lambda>i. 0 < sint (fresh_msg_id (rng i))) [0..<32]"

lemma fresh_msg_id_is_positive:
  assumes "\<And>i. fair_draw (rng i)"
  shows "test_fresh_msg_id_is_positive rng"
  using fresh_msg_id_range [OF assms]
  by (auto simp: test_fresh_msg_id_is_positive_def list_all_iff intro: less_le_trans [OF zero_less_one])

end
