(* ===== verification/HostTests.thy ===== *)
theory HostTests
  imports TestKit
begin

text \<open>
  The unit tests that talk to the kernel, those of \<open>src/helpers.rs\<close> and
  \<open>src/transport/unprivileged.rs\<close>, each with what it expects of the host as hypotheses.
\<close>

definition is_loopback :: "ipv4 \<Rightarrow> bool" where
  "is_loopback ip \<longleftrightarrow> octets ip ! 0 = 127"

definition test_host_uptime_returns_some_value :: "bool \<Rightarrow> 'f float_ops \<Rightarrow> clocks \<Rightarrow> bool" where
  "test_host_uptime_returns_some_value checks F ck \<longleftrightarrow>
     (case host_uptime_centiseconds checks F ck of
        Return (Ok v) \<Rightarrow> 0 < v \<or> up_target ck \<notin> {TargetLinux, TargetMacos}
      | _ \<Rightarrow> False)"

text \<open>A Linux host that has been up for a hundredth of a second.\<close>

lemma host_uptime_returns_some_value:
  assumes "up_target ck = TargetLinux" and "proc_uptime ck = Ok raw" and "first_word raw = Some w"
    and "parse_f64 F w = Ok secs" and "0 < centi_as_u64 F secs"
  shows "test_host_uptime_returns_some_value checks F ck"
proof -
  have "0 < cap_u32 u" if "0 < u" for u :: u64
    using that by (simp add: word_less_nat_alt unat_cap_u32)
  with assms show ?thesis
    by (simp add: test_host_uptime_returns_some_value_def host_uptime_centiseconds_def linux_uptime_def)
qed

definition test_egress_for_loopback_is_loopback :: "egress_os \<Rightarrow> bool" where
  "test_egress_for_loopback_is_loopback os \<longleftrightarrow>
     (case egress_ipv4_for os \<lparr>sa_ip = Ipv4 127 0 0 1, sa_port = 9\<rparr> of
        Ok src \<Rightarrow> is_loopback src | Err _ \<Rightarrow> False)"

lemma egress_for_loopback_is_loopback:
  assumes "eg_bind os = Ok ()" and "\<And>d. eg_connect os d = Ok ()"
    and "\<And>d. octets (sa_ip d) ! 0 = 127 \<Longrightarrow> \<exists>s. eg_local_addr os d = Ok (SockV4 s) \<and> is_loopback (sa_ip s)"
  shows "test_egress_for_loopback_is_loopback os"
  using assms(3) [of "\<lparr>sa_ip = Ipv4 127 0 0 1, sa_port = 9\<rparr>"]
  by (auto simp: test_egress_for_loopback_is_loopback_def egress_ipv4_for_def assms(1,2))

text \<open>
  The listener of the loopback test: \<open>recv\<close> is what \<open>recv_from\<close> returns after the datagrams of
  a sender were handed to the kernel, the first of them and its source.
\<close>

definition test_unprivileged_send_round_trip_loopback ::
  "udp_os \<Rightarrow> (bytes list \<Rightarrow> (bytes \<times> sock) option) \<Rightarrow> socket_addr \<Rightarrow> bool"
where
  "test_unprivileged_send_round_trip_loopback os recv listener_addr \<longleftrightarrow>
     (let payload = [0x30, 0x05] @ utf8 (lit ''hello'') in
      case unpriv_send os listener_addr None 1 0 payload of
        Some (Ok _, sent) \<Rightarrow>
          (case recv sent of
             Some (received, SockV4 v4) \<Rightarrow> received = payload \<and> is_loopback (sa_ip v4)
           | _ \<Rightarrow> False)
      | _ \<Rightarrow> False)"

lemma unprivileged_send_round_trip_loopback:
  assumes "\<And>a. os_bind os a = Ok ()" and "\<And>p. os_send_to os 0 p listener_addr = Ok ()"
    and "\<And>d ds. \<exists>v4. recv (d # ds) = Some (d, SockV4 v4) \<and> is_loopback (sa_ip v4)"
  shows "test_unprivileged_send_round_trip_loopback os recv listener_addr"
proof -
  have loop: "unpriv_loop os p listener_addr 0 1 None = Some (Ok (), Suc 0)" for p
    by (subst unpriv_loop.simps) (simp add: assms(2))
  obtain v4 where "recv [[0x30, 0x05] @ utf8 (lit ''hello'')]
      = Some ([0x30, 0x05] @ utf8 (lit ''hello''), SockV4 v4)" "is_loopback (sa_ip v4)"
    using assms(3) by blast
  then show ?thesis
    by (simp add: test_unprivileged_send_round_trip_loopback_def unpriv_send_def assms(1) loop Let_def)
qed

end
