(* ===== verification/Argv.thy ===== *)
theory Argv
  imports Run
begin

text \<open>
  The arguments \<open>src/cli.rs\<close> declares, and a reference parser for declarations of this kind: an
  instance of the parameter that stands for the parser the crate \<open>clap\<close> derives. It follows the
  documented rules: options in any order up to the second positional argument, from which on
  everything is taken as it is; a value after the option, attached to a short one, or after
  \<open>=\<close>; no option twice; no separate value that looks like an option. The texts of its errors
  are shorter than those of \<open>clap\<close>.
\<close>

type_synonym arg_parser = "rstr list \<Rightarrow> (cli, clap_kind \<times> rstr) result"

section \<open>The declaration\<close>

datatype arg_action = ShowHelp | ShowVersion | SetTrue | SetValue

record arg_spec =
  arg_short :: "rchar option"
  arg_long :: rstr
  arg_action :: arg_action
  arg_required :: bool
  arg_default :: "rstr option"

definition arg :: "string \<Rightarrow> string \<Rightarrow> arg_action \<Rightarrow> arg_spec" where
  "arg short long action =
     \<lparr>arg_short = (case lit short of [] \<Rightarrow> None | c # _ \<Rightarrow> Some c), arg_long = lit long,
      arg_action = action, arg_required = False, arg_default = None\<rparr>"

text \<open>
  The options of \<open>struct Cli\<close>, with what is required and the default values, and the one \<open>clap\<close>
  adds. The usual flag for the version is disabled.
\<close>

definition cli_options :: "arg_spec list" where
  "cli_options =
     [arg '''' ''binary-version'' ShowVersion,
      (arg ''v'' ''snmp-version'' SetValue)\<lparr>arg_required := True\<rparr>,
      (arg ''c'' ''community'' SetValue)\<lparr>arg_default := Some (lit [])\<rparr>,
      (arg ''r'' ''retries'' SetValue)\<lparr>arg_default := Some (lit ''0'')\<rparr>,
      (arg ''t'' ''timeout'' SetValue)\<lparr>arg_default := Some (lit ''1'')\<rparr>,
      arg '''' ''src-addr'' SetValue,
      arg '''' ''src-port'' SetValue,
      (arg '''' ''debug-print-pdu'' SetTrue)\<lparr>arg_default := Some (lit ''false'')\<rparr>,
      arg ''l'' ''security-level'' SetValue,
      arg ''u'' ''user'' SetValue,
      arg ''a'' ''auth-protocol'' SetValue,
      arg ''A'' ''auth-password'' SetValue,
      arg ''x'' ''priv-protocol'' SetValue,
      arg ''X'' ''priv-password'' SetValue,
      arg ''e'' ''context-engine-id'' SetValue,
      arg ''E'' ''authoritative-engine-id'' SetValue,
      arg ''n'' ''context-name'' SetValue,
      arg ''h'' ''help'' ShowHelp]"

text \<open>The positional arguments; the last takes everything that follows its first value.\<close>

record positional =
  pos_name :: rstr
  pos_required :: bool
  pos_trailing :: bool

definition cli_positionals :: "positional list" where
  "cli_positionals =
     [\<lparr>pos_name = lit ''AGENT'', pos_required = True, pos_trailing = False\<rparr>,
      \<lparr>pos_name = lit ''TRAP-ARGS'', pos_required = False, pos_trailing = True\<rparr>]"

section \<open>Reading the arguments\<close>

datatype token = Plain | Unknown | Named arg_spec "rstr option"

definition as_token :: "arg_spec option \<Rightarrow> rstr option \<Rightarrow> token" where
  "as_token spec attached = (case spec of None \<Rightarrow> Unknown | Some s \<Rightarrow> Named s attached)"

definition classify :: "rstr \<Rightarrow> token" where
  "classify a =
     (if starts_with (lit ''--'') a then
        let body = drop 2 a in
        as_token (find (\<lambda>s. arg_long s = takeWhile ((\<noteq>) 61) body) cli_options)
          (if 61 \<in> set body then Some (tl (dropWhile ((\<noteq>) 61) body)) else None)
      else (case a of
          c # d # tail \<Rightarrow>
            if c = 45 then
              as_token (find (\<lambda>s. arg_short s = Some d) cli_options)
                (case tail of [] \<Rightarrow> None | e # v \<Rightarrow> Some (if e = 61 then v else tail))
            else Plain
        | _ \<Rightarrow> Plain))"

definition looks_like_option :: "rstr \<Rightarrow> bool" where
  "looks_like_option v \<longleftrightarrow> starts_with (lit ''-'') v \<and> v \<noteq> lit ''-''"

definition refuse :: "string \<Rightarrow> rstr \<Rightarrow> ('a, clap_kind \<times> rstr) result" where
  "refuse what a = Err (OtherKind, lit ''error: '' @ lit what @ [32, 39] @ a @ [39])"

text \<open>The positional arguments read so far have reached the one that takes the rest.\<close>

definition trailing_started :: "rstr list \<Rightarrow> bool" where
  "trailing_started pos \<longleftrightarrow>
     length (takeWhile (\<lambda>p. \<not> pos_trailing p) cli_positionals) < length pos"

text \<open>The options with their values, and the positional arguments.\<close>

fun scan ::
  "rstr list \<Rightarrow> (rstr \<times> rstr) list \<Rightarrow> rstr list
    \<Rightarrow> ((rstr \<times> rstr) list \<times> rstr list, clap_kind \<times> rstr) result"
where
  "scan [] opts pos = Ok (opts, pos)"
| "scan (a # rest) opts pos =
     (if trailing_started pos then Ok (opts, pos @ a # rest)
      else if a = lit ''--'' then Ok (opts, pos @ rest)
      else (case classify a of
          Plain \<Rightarrow> scan rest opts (pos @ [a])
        | Unknown \<Rightarrow> refuse ''unexpected argument'' a
        | Named s attached \<Rightarrow>
            if arg_action s = ShowHelp then Err (DisplayHelp, [])
            else if arg_action s = ShowVersion then Err (DisplayVersion, [])
            else if arg_long s \<in> fst ` set opts then refuse ''argument used multiple times:'' a
            else if arg_action s = SetTrue then
              (if attached = None then scan rest ((arg_long s, lit ''true'') # opts) pos
               else refuse ''unexpected value for'' a)
            else (case attached of
                Some v \<Rightarrow> scan rest ((arg_long s, v) # opts) pos
              | None \<Rightarrow> (case rest of
                    [] \<Rightarrow> refuse ''a value is required for'' a
                  | v # rest' \<Rightarrow>
                      if looks_like_option v then refuse ''a value is required for'' a
                      else scan rest' ((arg_long s, v) # opts) pos))))"

section \<open>The fields\<close>

text \<open>The value of an option, or its default; SetTrue gives the text \<open>true\<close>.\<close>

definition value_of :: "(rstr \<times> rstr) list \<Rightarrow> string \<Rightarrow> rstr option" where
  "value_of opts name =
     (case map_of opts (lit name) of
        Some v \<Rightarrow> Some v
      | None \<Rightarrow> Option.bind (find (\<lambda>s. arg_long s = lit name) cli_options) arg_default)"

text \<open>A field of \<open>Cli\<close>: the value of its option, read by the type's parser.\<close>

definition field ::
  "(rstr \<times> rstr) list \<Rightarrow> string \<Rightarrow> (rstr \<Rightarrow> ('a, rstr) result) \<Rightarrow> ('a option, clap_kind \<times> rstr) result"
where
  "field opts name read =
     (case value_of opts name of
        None \<Rightarrow> Ok None
      | Some v \<Rightarrow>
          map_err (\<lambda>t. (OtherKind, lit ''error: invalid value '' @ [39] @ v @ [39]
                         @ lit '' for --'' @ lit name @ lit '': '' @ t))
            (map_ok Some (read v)))"

text \<open>What is required and was not given, by name.\<close>

definition missing :: "(rstr \<times> rstr) list \<Rightarrow> rstr list \<Rightarrow> rstr list" where
  "missing opts pos =
     map (\<lambda>s. lit ''--'' @ arg_long s)
       (filter (\<lambda>s. arg_required s \<and> map_of opts (arg_long s) = None) cli_options)
     @ map pos_name (filter pos_required (drop (length pos) cli_positionals))"

definition reference_parse :: arg_parser where
  "reference_parse argv =
     andthen (scan (tl argv) [] []) (\<lambda>(opts, pos).
     if missing opts pos \<noteq> [] then
       Err (OtherKind, lit ''error: the following required arguments were not provided:''
         @ concat (map (\<lambda>m. 32 # m) (missing opts pos)))
     else
     andthen (field opts ''snmp-version'' (\<lambda>s. map_err show_error (version_from_str s))) (\<lambda>version.
     andthen (field opts ''retries'' (\<lambda>s. map_err show_int_error (parse_u8_radix 10 s))) (\<lambda>retries.
     andthen (field opts ''timeout'' (\<lambda>s. map_err show_int_error (parse_u32 s))) (\<lambda>timeout.
     andthen (field opts ''src-port'' (\<lambda>s. map_err show_int_error (parse_u16 s))) (\<lambda>src_port.
     andthen (field opts ''security-level'' (\<lambda>s. map_err show_error (level_from_str s))) (\<lambda>level.
     andthen (field opts ''auth-protocol'' (\<lambda>s. map_err show_error (auth_from_str s))) (\<lambda>auth_p.
     andthen (field opts ''priv-protocol'' (\<lambda>s. map_err show_error (priv_from_str s))) (\<lambda>priv_p.
       Ok \<lparr>cli_version = the version,
           cli_community = the (value_of opts ''community''),
           cli_retries = the retries, cli_timeout = the timeout,
           cli_src_addr = value_of opts ''src-addr'', cli_src_port = src_port,
           cli_debug_print_pdu = (value_of opts ''debug-print-pdu'' = Some (lit ''true'')),
           cli_security_level = level, cli_user_name = value_of opts ''user'',
           cli_auth_protocol = auth_p, cli_auth_password = value_of opts ''auth-password'',
           cli_priv_protocol = priv_p, cli_priv_password = value_of opts ''priv-password'',
           cli_context_engine_id = value_of opts ''context-engine-id'',
           cli_authoritative_engine_id = value_of opts ''authoritative-engine-id'',
           cli_context_name = value_of opts ''context-name'',
           cli_agent = hd pos, cli_trap_args = tl pos\<rparr>))))))))"

end
