(* ===== verification/CliTests.thy ===== *)
theory CliTests
  imports Argv TestKit
begin

text \<open>
  The unit tests of \<open>src/cli.rs\<close>. A test that parses arguments takes the generated parser as an
  argument and holds of the reference parser of \<open>Argv\<close>; those of the destination hold for every
  resolver.
\<close>

declare parse_from_iter_def [running] validate_def [running] check_src_addr_def [running]
  validate_v3_flag_scope_def [running] v3_flag_pairs_def [running] validate_v3_required_def [running]
  require_some_def [running] require_password_def [running] version_from_str_def [running]
  level_from_str_def [running] to_ascii_lowercase_def [running] lower_char_def [running]
  parse_ip_def [running] read_ipv6_def [running] src_addr_v4_def [running]
  resolve_agent_string_def [running] split_host_port_def [running] rsplit_once_def [running]
  to_socket_addrs_def [running] DEFAULT_TRAP_PORT_def [running]
  arg_def [running] cli_options_def [running] as_token_def [running] classify_def [running]
  looks_like_option_def [running] refuse_def [running] field_def [running]
  value_of_def [running] missing_def [running] trailing_started_def [running]
  cli_positionals_def [running] reference_parse_def [running] MIN_USM_PASSWORD_LEN_def [running]
  auth_from_str_def [running] priv_from_str_def [running] to_ascii_uppercase_def [running]
  upper_char_def [running]

text \<open>The helper \<open>p\<close>: parsing under the name of the program, then validation.\<close>

definition parse_p :: "arg_parser \<Rightarrow> string list \<Rightarrow> (cli, error) result outcome" where
  "parse_p clap args = parse_from_iter (clap (map lit (''snmptrap-rs'' # args)))"

definition accepts :: "(cli \<Rightarrow> bool) \<Rightarrow> (cli, error) result outcome \<Rightarrow> bool" where
  "accepts P r \<longleftrightarrow> (case r of Return (Ok cli) \<Rightarrow> P cli | _ \<Rightarrow> False)"

definition rejects :: "(rstr \<Rightarrow> bool) \<Rightarrow> (cli, error) result outcome \<Rightarrow> bool" where
  "rejects P r \<longleftrightarrow> (case r of Return e \<Rightarrow> usage_with P e | _ \<Rightarrow> False)"

declare accepts_def [running] rejects_def [running] parse_p_def [running]

definition test_minimal_v2c_invocation_accepted :: "arg_parser \<Rightarrow> bool" where
  "test_minimal_v2c_invocation_accepted clap \<longleftrightarrow>
     accepts (\<lambda>cli. cli_version cli = V2c \<and> cli_community cli = lit ''public''
         \<and> cli_agent cli = lit ''127.0.0.1'')
       (parse_p clap
         [''-v'', ''2c'', ''-c'', ''public'', ''127.0.0.1'', [], ''1.3.6.1.6.3.1.1.5.1''])"

lemma minimal_v2c_invocation_accepted: "test_minimal_v2c_invocation_accepted reference_parse"
  by (simp add: test_minimal_v2c_invocation_accepted_def running)

definition test_minimal_v1_invocation_accepted :: "arg_parser \<Rightarrow> bool" where
  "test_minimal_v1_invocation_accepted clap \<longleftrightarrow>
     accepts (\<lambda>cli. cli_version cli = V1 \<and> length (cli_trap_args cli) = 5)
       (parse_p clap
         [''-v'', ''1'', ''-c'', ''public'', ''127.0.0.1'', [], [], ''6'', ''0'', []])"

lemma minimal_v1_invocation_accepted: "test_minimal_v1_invocation_accepted reference_parse"
  by (simp add: test_minimal_v1_invocation_accepted_def running)

definition test_missing_version_rejected :: "arg_parser \<Rightarrow> bool" where
  "test_missing_version_rejected clap \<longleftrightarrow>
     rejects (\<lambda>msg. contains (lit ''--snmp-version'') msg \<or> contains (lit ''-v'') msg \<or> contains (lit ''required'') msg)
       (parse_p clap
         [''-c'', ''public'', ''127.0.0.1''])"

lemma missing_version_rejected: "test_missing_version_rejected reference_parse"
  by (simp add: test_missing_version_rejected_def running)

definition test_unknown_flag_rejected :: "arg_parser \<Rightarrow> bool" where
  "test_unknown_flag_rejected clap \<longleftrightarrow>
     rejects (\<lambda>msg. contains (lit ''not-a-flag'') msg)
       (parse_p clap
         [''-v'', ''2c'', ''-c'', ''public'', ''--not-a-flag'', ''127.0.0.1'', [],
          ''1.3.6.1.6.3.1.1.5.1''])"

lemma unknown_flag_rejected: "test_unknown_flag_rejected reference_parse"
  by (simp add: test_unknown_flag_rejected_def running)

definition test_ipv6_in_src_addr_rejected :: "arg_parser \<Rightarrow> bool" where
  "test_ipv6_in_src_addr_rejected clap \<longleftrightarrow>
     rejects (\<lambda>msg. contains (lit ''IPv6'') msg \<or> contains (lit ''IPv4 only'') msg)
       (parse_p clap
         [''-v'', ''2c'', ''-c'', ''public'', ''--src-addr'', ''2001:db8::1'',
          ''127.0.0.1'', [], ''1.3.6.1.6.3.1.1.5.1''])"

lemma ipv6_in_src_addr_rejected: "test_ipv6_in_src_addr_rejected reference_parse"
  by (simp add: test_ipv6_in_src_addr_rejected_def running)

definition test_empty_community_rejected :: "arg_parser \<Rightarrow> bool" where
  "test_empty_community_rejected clap \<longleftrightarrow>
     rejects (\<lambda>msg. contains (lit ''community'') msg)
       (parse_p clap
         [''-v'', ''2c'', ''-c'', [], ''127.0.0.1'', [], ''1.3.6.1.6.3.1.1.5.1''])"

lemma empty_community_rejected: "test_empty_community_rejected reference_parse"
  by (simp add: test_empty_community_rejected_def running)

definition test_agent_resolution_accepts_host_only :: "resolver \<Rightarrow> bool" where
  "test_agent_resolution_accepts_host_only dns \<longleftrightarrow>
     resolve_agent_string dns (lit ''127.0.0.1'') = Ok \<lparr>sa_ip = Ipv4 127 0 0 1, sa_port = 162\<rparr>"

lemma agent_resolution_accepts_host_only: "test_agent_resolution_accepts_host_only dns"
  by (simp add: test_agent_resolution_accepts_host_only_def running)

definition test_agent_resolution_accepts_host_port :: "resolver \<Rightarrow> bool" where
  "test_agent_resolution_accepts_host_port dns \<longleftrightarrow>
     (case resolve_agent_string dns (lit ''127.0.0.1:1620'') of Ok sa \<Rightarrow> sa_port sa = 1620 | Err _ \<Rightarrow> False)"

lemma agent_resolution_accepts_host_port: "test_agent_resolution_accepts_host_port dns"
  by (simp add: test_agent_resolution_accepts_host_port_def running)

definition test_agent_resolution_accepts_udp_prefix :: "resolver \<Rightarrow> bool" where
  "test_agent_resolution_accepts_udp_prefix dns \<longleftrightarrow>
     resolve_agent_string dns (lit ''udp:127.0.0.1:1620'') = Ok \<lparr>sa_ip = Ipv4 127 0 0 1, sa_port = 1620\<rparr>"

lemma agent_resolution_accepts_udp_prefix: "test_agent_resolution_accepts_udp_prefix dns"
  by (simp add: test_agent_resolution_accepts_udp_prefix_def running)

definition test_ipv4_in_src_addr_accepted :: "arg_parser \<Rightarrow> bool" where
  "test_ipv4_in_src_addr_accepted clap \<longleftrightarrow>
     accepts (\<lambda>cli. src_addr_v4 cli = Some (Ipv4 198 51 100 42))
       (parse_p clap
         [''-v'', ''2c'', ''-c'', ''public'', ''--src-addr'', ''198.51.100.42'',
          ''127.0.0.1'', [], ''1.3.6.1.6.3.1.1.5.1''])"

lemma ipv4_in_src_addr_accepted: "test_ipv4_in_src_addr_accepted reference_parse"
  by (simp add: test_ipv4_in_src_addr_accepted_def running)

definition test_invalid_src_addr_rejected :: "arg_parser \<Rightarrow> bool" where
  "test_invalid_src_addr_rejected clap \<longleftrightarrow>
     rejects (\<lambda>msg. contains (lit ''--src-addr'') msg)
       (parse_p clap
         [''-v'', ''2c'', ''-c'', ''public'', ''--src-addr'', ''not-an-ip'', ''127.0.0.1'',
          [], ''1.3.6.1.6.3.1.1.5.1''])"

lemma invalid_src_addr_rejected: "test_invalid_src_addr_rejected reference_parse"
  by (simp add: test_invalid_src_addr_rejected_def running)

definition test_v3_minimal_no_auth_no_priv_accepted :: "arg_parser \<Rightarrow> bool" where
  "test_v3_minimal_no_auth_no_priv_accepted clap \<longleftrightarrow>
     accepts (\<lambda>cli. cli_version cli = V3 \<and> cli_user_name cli = Some (lit ''testuser'')
         \<and> cli_security_level cli = Some NoAuthNoPriv)
       (parse_p clap
         [''-v'', ''3'', ''-u'', ''testuser'', ''127.0.0.1'', [], ''1.3.6.1.6.3.1.1.5.1''])"

lemma v3_minimal_no_auth_no_priv_accepted: "test_v3_minimal_no_auth_no_priv_accepted reference_parse"
  by (simp add: test_v3_minimal_no_auth_no_priv_accepted_def running)

definition test_v3_security_level_is_case_insensitive :: "arg_parser \<Rightarrow> bool" where
  "test_v3_security_level_is_case_insensitive clap \<longleftrightarrow>
     accepts (\<lambda>cli. cli_security_level cli = Some AuthPriv)
       (parse_p clap
         [''-v'', ''3'', ''-u'', ''u'', ''-l'', ''AuthPriv'', ''-a'', ''SHA-256'', ''-A'',
          ''passw0rd'', ''-x'', ''AES'', ''-X'', ''passw0rd'', ''127.0.0.1'', [],
          ''1.3.6.1.6.3.1.1.5.1''])"

lemma v3_security_level_is_case_insensitive: "test_v3_security_level_is_case_insensitive reference_parse"
  by (simp add: test_v3_security_level_is_case_insensitive_def running)

definition test_v3_user_required :: "arg_parser \<Rightarrow> bool" where
  "test_v3_user_required clap \<longleftrightarrow>
     rejects (\<lambda>msg. contains (lit ''-u'') msg \<and> contains (lit ''required'') msg)
       (parse_p clap
         [''-v'', ''3'', ''127.0.0.1'', [], ''1.3.6.1.6.3.1.1.5.1''])"

lemma v3_user_required: "test_v3_user_required reference_parse"
  by (simp add: test_v3_user_required_def running)

definition test_v3_authnopriv_requires_a_and_uppercase_a :: "arg_parser \<Rightarrow> bool" where
  "test_v3_authnopriv_requires_a_and_uppercase_a clap \<longleftrightarrow>
     rejects (\<lambda>msg. contains (lit ''-a'') msg)
       (parse_p clap
         [''-v'', ''3'', ''-u'', ''u'', ''-l'', ''authNoPriv'', ''127.0.0.1'', [],
          ''1.3.6.1.6.3.1.1.5.1''])"

lemma v3_authnopriv_requires_a_and_uppercase_a: "test_v3_authnopriv_requires_a_and_uppercase_a reference_parse"
  by (simp add: test_v3_authnopriv_requires_a_and_uppercase_a_def running)

definition test_v3_authpriv_requires_x_and_uppercase_x :: "arg_parser \<Rightarrow> bool" where
  "test_v3_authpriv_requires_x_and_uppercase_x clap \<longleftrightarrow>
     rejects (\<lambda>msg. contains (lit ''-x'') msg)
       (parse_p clap
         [''-v'', ''3'', ''-u'', ''u'', ''-l'', ''authPriv'', ''-a'', ''SHA-256'', ''-A'',
          ''passw0rd'', ''127.0.0.1'', [], ''1.3.6.1.6.3.1.1.5.1''])"

lemma v3_authpriv_requires_x_and_uppercase_x: "test_v3_authpriv_requires_x_and_uppercase_x reference_parse"
  by (simp add: test_v3_authpriv_requires_x_and_uppercase_x_def running)

definition test_v3_md5_rejected_at_parse :: "arg_parser \<Rightarrow> bool" where
  "test_v3_md5_rejected_at_parse clap \<longleftrightarrow>
     rejects (\<lambda>msg. contains (lit ''HMAC-MD5'') msg)
       (parse_p clap
         [''-v'', ''3'', ''-u'', ''u'', ''-l'', ''authNoPriv'', ''-a'', ''MD5'', ''-A'',
          ''passw0rd'', ''127.0.0.1'', [], ''1.3.6.1.6.3.1.1.5.1''])"

lemma v3_md5_rejected_at_parse: "test_v3_md5_rejected_at_parse reference_parse"
  by (simp add: test_v3_md5_rejected_at_parse_def running)

definition test_v3_des_rejected_at_parse :: "arg_parser \<Rightarrow> bool" where
  "test_v3_des_rejected_at_parse clap \<longleftrightarrow>
     rejects (\<lambda>msg. contains (lit ''DES-CBC'') msg)
       (parse_p clap
         [''-v'', ''3'', ''-u'', ''u'', ''-l'', ''authPriv'', ''-a'', ''SHA-256'', ''-A'',
          ''passw0rd'', ''-x'', ''DES'', ''-X'', ''passw0rd'', ''127.0.0.1'', [],
          ''1.3.6.1.6.3.1.1.5.1''])"

lemma v3_des_rejected_at_parse: "test_v3_des_rejected_at_parse reference_parse"
  by (simp add: test_v3_des_rejected_at_parse_def running)

definition test_v3_flag_rejected_under_v2c :: "arg_parser \<Rightarrow> bool" where
  "test_v3_flag_rejected_under_v2c clap \<longleftrightarrow>
     rejects (\<lambda>msg. contains (lit ''-u'') msg \<and> contains (lit ''-v 2c'') msg)
       (parse_p clap
         [''-v'', ''2c'', ''-c'', ''public'', ''-u'', ''testuser'', ''127.0.0.1'', [],
          ''1.3.6.1.6.3.1.1.5.1''])"

lemma v3_flag_rejected_under_v2c: "test_v3_flag_rejected_under_v2c reference_parse"
  by (simp add: test_v3_flag_rejected_under_v2c_def running)

definition test_v3_silently_ignores_community :: "arg_parser \<Rightarrow> bool" where
  "test_v3_silently_ignores_community clap \<longleftrightarrow>
     accepts (\<lambda>cli. cli_community cli = lit ''ignored-by-v3'')
       (parse_p clap
         [''-v'', ''3'', ''-c'', ''ignored-by-v3'', ''-u'', ''testuser'', ''127.0.0.1'',
          [], ''1.3.6.1.6.3.1.1.5.1''])"

lemma v3_silently_ignores_community: "test_v3_silently_ignores_community reference_parse"
  by (simp add: test_v3_silently_ignores_community_def running)

definition test_v3_short_auth_password_rejected_at_cli :: "arg_parser \<Rightarrow> bool" where
  "test_v3_short_auth_password_rejected_at_cli clap \<longleftrightarrow>
     rejects (\<lambda>msg. contains (lit ''at least 8'') msg \<and> contains (lit ''RFC 3414'') msg \<and> contains (lit ''-A'') msg)
       (parse_p clap
         [''-v'', ''3'', ''-u'', ''u'', ''-l'', ''authNoPriv'', ''-a'', ''SHA-256'',
          ''-A'', ''short'', ''127.0.0.1'', [], ''1.3.6.1.6.3.1.1.5.1''])"

lemma v3_short_auth_password_rejected_at_cli: "test_v3_short_auth_password_rejected_at_cli reference_parse"
  by (simp add: test_v3_short_auth_password_rejected_at_cli_def running)

definition test_v3_short_priv_password_rejected_at_cli :: "arg_parser \<Rightarrow> bool" where
  "test_v3_short_priv_password_rejected_at_cli clap \<longleftrightarrow>
     rejects (\<lambda>msg. contains (lit ''at least 8'') msg \<and> contains (lit ''-X'') msg)
       (parse_p clap
         [''-v'', ''3'', ''-u'', ''u'', ''-l'', ''authPriv'', ''-a'', ''SHA-256'', ''-A'',
          ''auth-passw0rd'', ''-x'', ''AES'', ''-X'', ''tiny'', ''127.0.0.1'', [],
          ''1.3.6.1.6.3.1.1.5.1''])"

lemma v3_short_priv_password_rejected_at_cli: "test_v3_short_priv_password_rejected_at_cli reference_parse"
  by (simp add: test_v3_short_priv_password_rejected_at_cli_def running)

definition test_v3_authpriv_full_inputs_parse :: "arg_parser \<Rightarrow> bool" where
  "test_v3_authpriv_full_inputs_parse clap \<longleftrightarrow>
     accepts (\<lambda>cli. cli_user_name cli = Some (lit ''alice'') \<and> cli_security_level cli = Some AuthPriv
         \<and> cli_auth_protocol cli = Some Sha256 \<and> cli_priv_protocol cli = Some Aes128
         \<and> cli_authoritative_engine_id cli = Some (lit ''80001f88010203040506'')
         \<and> cli_context_name cli = Some (lit ''ctx''))
       (parse_p clap
         [''-v'', ''3'', ''-u'', ''alice'', ''-l'', ''authPriv'', ''-a'', ''SHA-256'',
          ''-A'', ''auth-passw0rd'', ''-x'', ''AES-128'', ''-X'', ''priv-passw0rd'',
          ''-E'', ''80001f88010203040506'', ''-n'', ''ctx'', ''127.0.0.1'', [],
          ''1.3.6.1.6.3.1.1.5.1''])"

lemma v3_authpriv_full_inputs_parse: "test_v3_authpriv_full_inputs_parse reference_parse"
  by (simp add: test_v3_authpriv_full_inputs_parse_def running)

end
