(* ===== verification/VarbindTests.thy ===== *)
theory VarbindTests
  imports TestKit
begin

text \<open>
  The unit tests of \<open>src/varbind.rs\<close>: each holds of the model.
\<close>

text \<open>\<open>is_err()\<close>, and \<open>Err(ParseError::BadValue { letter, detail })\<close>.\<close>

definition fails :: "(varbind_value, parse_error) result outcome \<Rightarrow> bool" where
  "fails r \<longleftrightarrow> (case r of Return (Err e) \<Rightarrow> True | _ \<Rightarrow> False)"

definition bad_value_with ::
  "rchar \<Rightarrow> (rstr \<Rightarrow> bool) \<Rightarrow> (varbind_value, parse_error) result outcome \<Rightarrow> bool"
where
  "bad_value_with letter P r \<longleftrightarrow>
     (case r of Return (Err (BadValue l detail)) \<Rightarrow> l = letter \<and> P detail | _ \<Rightarrow> False)"

declare fails_def [running] bad_value_with_def [running] parse_typed_value_def [running]
  number_detail_def [running] parse_oid_def [running] parse_oid_arc_def [running]
  hex_clean_def [running] parse_hex_chunk_def [running] parse_hex_string_def [running]
  bit_tokens_def [running] parse_bits_def [running] MAX_BIT_POSITION_def [running]

definition test_integer_valid :: bool where
  "test_integer_valid \<longleftrightarrow>
     parse_typed_value (of_char CHR ''i'') (lit ''42'') = Return (Ok (VInteger 42))
     \<and> parse_typed_value (of_char CHR ''i'') (lit ''-7'') = Return (Ok (VInteger (- 7)))"

lemma integer_valid: test_integer_valid
  by (simp add: test_integer_valid_def running)

definition test_integer_invalid :: bool where
  "test_integer_invalid \<longleftrightarrow>
     bad_value_with (of_char CHR ''i'') (\<lambda>d. True) (parse_typed_value (of_char CHR ''i'') (lit ''abc''))"

lemma integer_invalid: test_integer_invalid
  by (simp add: test_integer_invalid_def running)

definition test_unsigned32_valid_invalid :: bool where
  "test_unsigned32_valid_invalid \<longleftrightarrow>
     parse_typed_value (of_char CHR ''u'') (lit ''4294967295'') = Return (Ok (VUnsigned32 (- 1)))
     \<and> fails (parse_typed_value (of_char CHR ''u'') (lit ''-1''))"

lemma unsigned32_valid_invalid: test_unsigned32_valid_invalid
  by (simp add: test_unsigned32_valid_invalid_def running)

definition test_timeticks :: bool where
  "test_timeticks \<longleftrightarrow>
     parse_typed_value (of_char CHR ''t'') (lit ''0'') = Return (Ok (VTimeTicks 0))
     \<and> fails (parse_typed_value (of_char CHR ''t'') (lit ''abc''))"

lemma timeticks: test_timeticks
  by (simp add: test_timeticks_def running)

definition test_ipaddress_valid_invalid :: bool where
  "test_ipaddress_valid_invalid \<longleftrightarrow>
     parse_typed_value (of_char CHR ''a'') (lit ''10.0.0.1'') = Return (Ok (VIpAddress (Ipv4 10 0 0 1)))
     \<and> fails (parse_typed_value (of_char CHR ''a'') (lit ''not-an-ip''))"

lemma ipaddress_valid_invalid: test_ipaddress_valid_invalid
  by (simp add: test_ipaddress_valid_invalid_def running)

definition test_objid_valid_invalid :: bool where
  "test_objid_valid_invalid \<longleftrightarrow>
     parse_typed_value (of_char CHR ''o'') (lit ''1.3.6.1.4.1.8072'') = Return (Ok (VObjectId [1, 3, 6, 1, 4, 1, 8072]))
     \<and> fails (parse_typed_value (of_char CHR ''o'') (lit ''1''))
     \<and> fails (parse_typed_value (of_char CHR ''o'') (lit ''1..3''))
     \<and> fails (parse_typed_value (of_char CHR ''o'') (lit ''1.x.3''))"

lemma objid_valid_invalid: test_objid_valid_invalid
  by (simp add: test_objid_valid_invalid_def running)

definition test_string_valid :: bool where
  "test_string_valid \<longleftrightarrow>
     parse_typed_value (of_char CHR ''s'') (lit ''hello'') = Return (Ok (VOctetString [0x68, 0x65, 0x6C, 0x6C, 0x6F]))"

lemma string_valid: test_string_valid
  by (simp add: test_string_valid_def running)

definition test_hex_with_separators :: bool where
  "test_hex_with_separators \<longleftrightarrow>
     parse_typed_value (of_char CHR ''x'') (lit ''de:ad:be:ef'') = Return (Ok (VOctetString [0xde, 0xad, 0xbe, 0xef]))
     \<and> parse_typed_value (of_char CHR ''x'') (lit ''DEADBEEF'') = Return (Ok (VOctetString [0xde, 0xad, 0xbe, 0xef]))
     \<and> parse_typed_value (of_char CHR ''x'') (lit ''de ad be ef'') = Return (Ok (VOctetString [0xde, 0xad, 0xbe, 0xef]))"

lemma hex_with_separators: test_hex_with_separators
  by (simp add: test_hex_with_separators_def running)

definition test_hex_odd_length_rejected :: bool where
  "test_hex_odd_length_rejected \<longleftrightarrow>
     fails (parse_typed_value (of_char CHR ''x'') (lit ''abc''))
     \<and> fails (parse_typed_value (of_char CHR ''x'') (lit ''ab:c''))"

lemma hex_odd_length_rejected: test_hex_odd_length_rejected
  by (simp add: test_hex_odd_length_rejected_def running)

definition test_hex_non_hex_rejected :: bool where
  "test_hex_non_hex_rejected \<longleftrightarrow>
     fails (parse_typed_value (of_char CHR ''x'') (lit ''zz''))"

lemma hex_non_hex_rejected: test_hex_non_hex_rejected
  by (simp add: test_hex_non_hex_rejected_def running)

definition test_null_ignores_value :: bool where
  "test_null_ignores_value \<longleftrightarrow>
     parse_typed_value (of_char CHR ''n'') (lit ''anything'') = Return (Ok (VNull))"

lemma null_ignores_value: test_null_ignores_value
  by (simp add: test_null_ignores_value_def running)

definition test_bits_valid :: bool where
  "test_bits_valid \<longleftrightarrow>
     parse_typed_value (of_char CHR ''b'') (lit ''0'') = Return (Ok (VBits [0x80]))
     \<and> parse_typed_value (of_char CHR ''b'') (lit ''0,1,2'') = Return (Ok (VBits [0xE0]))
     \<and> parse_typed_value (of_char CHR ''b'') (lit ''8'') = Return (Ok (VBits [0x00, 0x80]))
     \<and> parse_typed_value (of_char CHR ''b'') (lit ''0 1 2'') = Return (Ok (VBits [0xE0]))"

lemma bits_valid: test_bits_valid
  by (simp add: test_bits_valid_def running)

definition test_bits_invalid :: bool where
  "test_bits_invalid \<longleftrightarrow>
     fails (parse_typed_value (of_char CHR ''b'') (lit ''abc''))
     \<and> fails (parse_typed_value (of_char CHR ''b'') (lit ''0,xx''))"

lemma bits_invalid: test_bits_invalid
  by (simp add: test_bits_invalid_def running)

definition test_counter64_valid_invalid :: bool where
  "test_counter64_valid_invalid \<longleftrightarrow>
     parse_typed_value (of_char CHR ''U'') (lit ''18446744073709551615'') = Return (Ok (VCounter64 (- 1)))
     \<and> fails (parse_typed_value (of_char CHR ''U'') (lit ''-1''))"

lemma counter64_valid_invalid: test_counter64_valid_invalid
  by (simp add: test_counter64_valid_invalid_def running)

definition test_unknown_letter_names_letter :: bool where
  "test_unknown_letter_names_letter \<longleftrightarrow>
     parse_typed_value (of_char CHR ''q'') (lit ''anything'') = Return (Err (UnknownLetter (of_char CHR ''q'')))"

lemma unknown_letter_names_letter: test_unknown_letter_names_letter
  by (simp add: test_unknown_letter_names_letter_def running)

definition test_oid_first_arc_above_two_rejected :: bool where
  "test_oid_first_arc_above_two_rejected \<longleftrightarrow>
     (case parse_oid (lit ''3.4.5'') of
        Err e \<Rightarrow> contains (lit ''first arc'') e | Ok _ \<Rightarrow> False)"

lemma oid_first_arc_above_two_rejected: test_oid_first_arc_above_two_rejected
  by (simp add: test_oid_first_arc_above_two_rejected_def running)

definition test_oid_second_arc_too_large_rejected :: bool where
  "test_oid_second_arc_too_large_rejected \<longleftrightarrow>
     (case parse_oid (lit ''1.40.5'') of
        Err e \<Rightarrow> contains (lit ''second arc'') e | Ok _ \<Rightarrow> False)
     \<and> is_ok (parse_oid (lit ''2.999.5''))"

lemma oid_second_arc_too_large_rejected: test_oid_second_arc_too_large_rejected
  by (simp add: test_oid_second_arc_too_large_rejected_def running)

definition test_bits_max_position_capped :: bool where
  "test_bits_max_position_capped \<longleftrightarrow>
     bad_value_with (of_char CHR ''b'')
         (\<lambda>d. contains (lit ''65536'') d \<and> contains (lit ''65535'') d)
         (parse_typed_value (of_char CHR ''b'') (lit ''65536''))"

lemma bits_max_position_capped: test_bits_max_position_capped
  by (simp add: test_bits_max_position_capped_def running)

definition test_hex_strips_leading_0x_prefix :: bool where
  "test_hex_strips_leading_0x_prefix \<longleftrightarrow>
     parse_typed_value (of_char CHR ''x'') (lit ''0xdeadbeef'') = Return (Ok (VOctetString [0xde, 0xad, 0xbe, 0xef]))
     \<and> parse_typed_value (of_char CHR ''x'') (lit ''0XDEAD'') = Return (Ok (VOctetString [0xde, 0xad]))"

lemma hex_strips_leading_0x_prefix: test_hex_strips_leading_0x_prefix
  by (simp add: test_hex_strips_leading_0x_prefix_def running)

definition test_hex_non_ascii_yields_hex_error :: bool where
  "test_hex_non_ascii_yields_hex_error \<longleftrightarrow>
     bad_value_with (of_char CHR ''x'') (contains (lit ''non-hex''))
         (parse_typed_value (of_char CHR ''x'') (lit ''de'' @ [0xF1] @ lit ''dbeef''))"

lemma hex_non_ascii_yields_hex_error: test_hex_non_ascii_yields_hex_error
  by (simp add: test_hex_non_ascii_yields_hex_error_def running)

end
