(* ===== verification/PayloadTests.thy ===== *)
theory PayloadTests
  imports CliTests VarbindTests
begin

text \<open>
  The unit tests of \<open>src/lib.rs\<close>: each holds of the model, with the reference parser of \<open>Argv\<close>
  where arguments are parsed and, for the last, with an encoder that accepts the message.
\<close>

declare resolve_v1_agent_addr_def [running] build_v2c_payload_def [running]
  parse_uptime_or_default_def [running] parse_trailing_varbinds_def [running]
  parse_triplet_def [running] SYS_UPTIME_OID_def [running] SNMP_TRAP_OID_OID_def [running]

definition loopback_dst :: socket_addr where
  "loopback_dst = \<lparr>sa_ip = Ipv4 127 0 0 1, sa_port = 162\<rparr>"

definition test_v1_agent_addr_explicit_overrides :: "egress_os \<Rightarrow> bool" where
  "test_v1_agent_addr_explicit_overrides os \<longleftrightarrow>
     resolve_v1_agent_addr os (lit ''203.0.113.5'') (Some (Ipv4 198 51 100 42)) loopback_dst
       = Ok (Ipv4 203 0 113 5)"

lemma v1_agent_addr_explicit_overrides: "test_v1_agent_addr_explicit_overrides os"
  by (simp add: test_v1_agent_addr_explicit_overrides_def running)

definition test_v1_agent_addr_empty_inherits_src_addr :: "egress_os \<Rightarrow> bool" where
  "test_v1_agent_addr_empty_inherits_src_addr os \<longleftrightarrow>
     resolve_v1_agent_addr os [] (Some (Ipv4 198 51 100 42)) loopback_dst = Ok (Ipv4 198 51 100 42)"

lemma v1_agent_addr_empty_inherits_src_addr: "test_v1_agent_addr_empty_inherits_src_addr os"
  by (simp add: test_v1_agent_addr_empty_inherits_src_addr_def running)

definition test_v1_agent_addr_empty_with_no_src_addr_falls_back_to_egress :: "egress_os \<Rightarrow> bool" where
  "test_v1_agent_addr_empty_with_no_src_addr_falls_back_to_egress os \<longleftrightarrow>
     (case resolve_v1_agent_addr os [] None loopback_dst of
        Ok (Ipv4 a b c d) \<Rightarrow> a = 127 | Err _ \<Rightarrow> False)"

lemma v1_agent_addr_empty_with_no_src_addr_falls_back_to_egress:
  assumes "eg_bind os = Ok ()" and "eg_connect os loopback_dst = Ok ()"
    and "eg_local_addr os loopback_dst = Ok (SockV4 \<lparr>sa_ip = Ipv4 127 x y z, sa_port = p\<rparr>)"
  shows "test_v1_agent_addr_empty_with_no_src_addr_falls_back_to_egress os"
  by (simp add: test_v1_agent_addr_empty_with_no_src_addr_falls_back_to_egress_def
      egress_ipv4_for_def assms running)

definition make_cli_v2c :: "arg_parser \<Rightarrow> string list \<Rightarrow> (cli, error) result outcome" where
  "make_cli_v2c clap trailing =
     parse_from_iter (clap (map lit
       ([''snmptrap-rs'', ''-v'', ''2c'', ''-c'', ''public'', ''127.0.0.1'', ''12345'',
         ''1.3.6.1.6.3.1.1.5.1''] @ trailing)))"

declare make_cli_v2c_def [running]

definition test_v2c_rejects_user_passed_sys_uptime_in_trailing_varbinds :: "arg_parser \<Rightarrow> ('h, 'f) env \<Rightarrow> bool" where
  "test_v2c_rejects_user_passed_sys_uptime_in_trailing_varbinds clap env \<longleftrightarrow>
     (case make_cli_v2c clap [''1.3.6.1.2.1.1.3.0'', ''t'', ''1000''] of
        Return (Ok cli) \<Rightarrow>
          (case build_v2c_payload env cli of
             Return r \<Rightarrow> usage_with (\<lambda>msg. contains (lit ''sysUpTime.0'') msg
               \<and> contains (lit ''auto-prepended'') msg) r
           | _ \<Rightarrow> False)
      | _ \<Rightarrow> False)"

lemma v2c_rejects_user_passed_sys_uptime_in_trailing_varbinds: "test_v2c_rejects_user_passed_sys_uptime_in_trailing_varbinds reference_parse env"
  by (simp add: test_v2c_rejects_user_passed_sys_uptime_in_trailing_varbinds_def running)

definition test_v2c_rejects_user_passed_snmp_trap_oid_in_trailing_varbinds :: "arg_parser \<Rightarrow> ('h, 'f) env \<Rightarrow> bool" where
  "test_v2c_rejects_user_passed_snmp_trap_oid_in_trailing_varbinds clap env \<longleftrightarrow>
     (case make_cli_v2c clap [''1.3.6.1.6.3.1.1.4.1.0'', ''o'', ''1.3.6.1.6.3.1.1.5.2''] of
        Return (Ok cli) \<Rightarrow>
          (case build_v2c_payload env cli of
             Return r \<Rightarrow> usage_with (\<lambda>msg. contains (lit ''snmpTrapOID.0'') msg
               \<and> contains (lit ''auto-prepended'') msg) r
           | _ \<Rightarrow> False)
      | _ \<Rightarrow> False)"

lemma v2c_rejects_user_passed_snmp_trap_oid_in_trailing_varbinds: "test_v2c_rejects_user_passed_snmp_trap_oid_in_trailing_varbinds reference_parse env"
  by (simp add: test_v2c_rejects_user_passed_snmp_trap_oid_in_trailing_varbinds_def running)

definition test_v2c_accepts_unrelated_trailing_varbinds :: "arg_parser \<Rightarrow> ('h, 'f) env \<Rightarrow> bool" where
  "test_v2c_accepts_unrelated_trailing_varbinds clap env \<longleftrightarrow>
     (case make_cli_v2c clap [''1.3.6.1.4.1.8072.2.3.2.1'', ''i'', ''42''] of
        Return (Ok cli) \<Rightarrow>
          (case build_v2c_payload env cli of Return (Ok bytes) \<Rightarrow> bytes \<noteq> [] | _ \<Rightarrow> False)
      | _ \<Rightarrow> False)"

lemma v2c_accepts_unrelated_trailing_varbinds:
  assumes "\<And>m. \<exists>bytes. encode_v2c (env_codec env) m = Ok bytes \<and> bytes \<noteq> []"
  shows "test_v2c_accepts_unrelated_trailing_varbinds reference_parse env"
proof -
  have accepted: "\<exists>b bs. encode_v2c (env_codec env) m = Ok (b # bs)" for m
    using assms [of m] by (auto simp: neq_Nil_conv)
  have nonempty: "(case map_err Encode (encode_v2c (env_codec env) m) of
      Ok bytes \<Rightarrow> bytes \<noteq> [] | Err e \<Rightarrow> False)" for m
    using accepted [of m] by auto
  show ?thesis
    by (simp add: test_v2c_accepts_unrelated_trailing_varbinds_def build_v2c_trap_def
        make_v2_varbind_def running nonempty)
qed

end
