(* ===== verification/GoldenTests.thy ===== *)
theory GoldenTests
  imports Wire PduTests PayloadTests
begin

text \<open>
  The tests of \<open>tests/golden_bytes.rs\<close>, which compare with captures of Net-SNMP's \<open>snmptrap\<close>,
  and those of \<open>tests/cli_surface.rs\<close>, as far as they do not look at the texts \<open>clap\<close> prints;
  and two runs of the whole program from its arguments to the octets of a capture. The crate
  \<open>base64\<close> is a parameter; \<open>b64_decode\<close> is an instance (RFC 4648).
\<close>

section \<open>Base64\<close>

definition b64_value :: "rchar \<Rightarrow> nat option" where
  "b64_value c =
     (if 65 \<le> c \<and> c \<le> 90 then Some (c - 65)
      else if 97 \<le> c \<and> c \<le> 122 then Some (c - 71)
      else if 48 \<le> c \<and> c \<le> 57 then Some (c + 4)
      else if c = 43 then Some 62
      else if c = 47 then Some 63
      else None)"

definition b64_group :: "rchar \<Rightarrow> rchar \<Rightarrow> rchar \<Rightarrow> rchar \<Rightarrow> nat option" where
  "b64_group a b c d =
     (case (b64_value a, b64_value b, b64_value c, b64_value d) of
        (Some u, Some v, Some w, Some x) \<Rightarrow> Some (((u * 64 + v) * 64 + w) * 64 + x)
      | _ \<Rightarrow> None)"

text \<open>Three octets of a group; padding stands for the digit zero and takes octets away.\<close>

fun b64_decode :: "rstr \<Rightarrow> bytes option" where
  "b64_decode [] = Some []"
| "b64_decode (a # b # c # d # rest) =
     (if d = 61 \<and> rest = [] then
        (if c = 61 then
           (case b64_group a b 65 65 of
              Some n \<Rightarrow> if n mod 65536 = 0 then Some [of_nat (n div 65536)] else None
            | None \<Rightarrow> None)
         else
           (case b64_group a b c 65 of
              Some n \<Rightarrow> if n mod 256 = 0 then Some [of_nat (n div 65536), of_nat (n div 256 mod 256)]
                        else None
            | None \<Rightarrow> None))
      else
        (case (b64_group a b c d, b64_decode rest) of
           (Some n, Some bs) \<Rightarrow>
             Some (of_nat (n div 65536) # of_nat (n div 256 mod 256) # of_nat (n mod 256) # bs)
         | _ \<Rightarrow> None))"
| "b64_decode _ = None"

text \<open>\<open>load_fixture\<close>, on the text of the file; a text that is not Base64 panics.\<close>

definition load_fixture :: "(rstr \<Rightarrow> bytes option) \<Rightarrow> rstr \<Rightarrow> bytes outcome" where
  "load_fixture decode raw =
     (let cleaned = filter (\<lambda>c. \<not> is_ascii_whitespace c) raw in
      case decode cleaned of Some bs \<Rightarrow> Return bs | None \<Rightarrow> Panic)"

definition netsnmp_v1_trap :: rstr where
  "netsnmp_v1_trap = lit ''MD8CAQAEBnB1YmxpY6QyBgsrBgEEAb8IAgMAAUAECgAAAQIBBgIBEUMDAYafMBIwEAYLKwYBBAG/CAIDAgECAQc='' @ [10]"

definition netsnmp_v2c_trap :: rstr where
  "netsnmp_v2c_trap = lit ''MFYCAQEEBnB1YmxpY6dJAgRF4WV+AgEAAgEAMDswDgYIKwYBAgEBAwBDAjA5MBcGCisGAQYDAQEEAQAGCSsGAQYDAQEFATAQBgsrBgEEAb8IAgMCAQIBKg=='' @ [10]"

definition captured_v1 :: bytes where
  "captured_v1 =
     [48, 63, 2, 1, 0, 4, 6, 112, 117, 98, 108, 105, 99, 164, 50, 6, 11, 43, 6, 1,
      4, 1, 191, 8, 2, 3, 0, 1, 64, 4, 10, 0, 0, 1, 2, 1, 6, 2, 1, 17, 67, 3, 1, 134,
      159, 48, 18, 48, 16, 6, 11, 43, 6, 1, 4, 1, 191, 8, 2, 3, 2, 1, 2, 1, 7]"

definition captured_v2c :: bytes where
  "captured_v2c =
     [48, 86, 2, 1, 1, 4, 6, 112, 117, 98, 108, 105, 99, 167, 73, 2, 4, 69, 225,
      101, 126, 2, 1, 0, 2, 1, 0, 48, 59, 48, 14, 6, 8, 43, 6, 1, 2, 1, 1, 3, 0, 67,
      2, 48, 57, 48, 23, 6, 10, 43, 6, 1, 6, 3, 1, 1, 4, 1, 0, 6, 9, 43, 6, 1, 6, 3,
      1, 1, 5, 1, 48, 16, 6, 11, 43, 6, 1, 4, 1, 191, 8, 2, 3, 2, 1, 2, 1, 42]"

lemma fixture_v1: "load_fixture b64_decode netsnmp_v1_trap = Return captured_v1"
  by (simp add: load_fixture_def netsnmp_v1_trap_def captured_v1_def b64_group_def b64_value_def
      lit_def is_ascii_whitespace_def)

lemma fixture_v2c: "load_fixture b64_decode netsnmp_v2c_trap = Return captured_v2c"
  by (simp add: load_fixture_def netsnmp_v2c_trap_def captured_v2c_def b64_group_def b64_value_def
      lit_def is_ascii_whitespace_def)

section \<open>The captures\<close>

definition golden_v1_trap :: v1_trap where
  "golden_v1_trap =
     \<lparr>v1t_community = utf8 (lit ''public''), v1t_enterprise = [1, 3, 6, 1, 4, 1, 8072, 2, 3, 0, 1],
      v1t_agent_addr = Ipv4 10 0 0 1, v1t_generic = 6, v1t_specific = 17, v1t_uptime = 99999,
      v1t_varbinds = [([1, 3, 6, 1, 4, 1, 8072, 2, 3, 2, 1], VInteger 7)]\<rparr>"

definition golden_v2c_trap :: "i32 \<Rightarrow> v2c_trap" where
  "golden_v2c_trap request =
     \<lparr>v2t_community = utf8 (lit ''public''), v2t_request_id = request, v2t_uptime = 12345,
      v2t_trap_oid = [1, 3, 6, 1, 6, 3, 1, 1, 5, 1],
      v2t_varbinds = [([1, 3, 6, 1, 4, 1, 8072, 2, 3, 2, 1], VInteger 42)]\<rparr>"

lemma golden_builds:
  "build_v1_trap ber_codec golden_v1_trap = Ok captured_v1"
  "build_v2c_trap ber_codec (golden_v2c_trap 1172399486) = Ok captured_v2c"
  using golden_v1 golden_v2c
  by (simp_all add: golden_v1_trap_def golden_v2c_trap_def captured_v1_def captured_v2c_def)

definition test_v2c_trap_matches_netsnmp_capture_byte_for_byte ::
  "(rstr \<Rightarrow> bytes option) \<Rightarrow> codec \<Rightarrow> decoder \<Rightarrow> bool"
where
  "test_v2c_trap_matches_netsnmp_capture_byte_for_byte b64 cd D \<longleftrightarrow>
     (case load_fixture b64 netsnmp_v2c_trap of
        Return captured \<Rightarrow>
          (case decode_v2c D captured of
             Some netsnmp \<Rightarrow>
               build_v2c_trap cd (golden_v2c_trap (request_id (v2c_data netsnmp))) = Ok captured
           | None \<Rightarrow> False)
      | _ \<Rightarrow> False)"

lemma v2c_trap_matches_netsnmp_capture_byte_for_byte:
  assumes "inverts (\<lambda>m. valid_pdu (v2c_data m)) (decode_v2c D) (encode_v2c ber_codec)"
  shows "test_v2c_trap_matches_netsnmp_capture_byte_for_byte b64_decode ber_codec D"
proof -
  let ?t = "golden_v2c_trap 1172399486"
  let ?m = "\<lparr>v2c_version = version_v2c ber_codec, v2c_community = v2t_community ?t,
      v2c_data = \<lparr>request_id = v2t_request_id ?t, error_status = no_error_status ber_codec,
        error_index = 0,
        variable_bindings = v2_bindings (v2t_uptime ?t) (v2t_trap_oid ?t) (v2t_varbinds ?t)\<rparr>\<rparr>"
  have "encode_v2c ber_codec ?m = Ok captured_v2c"
    using golden_builds(2) by (simp add: build_v2c_message)
  moreover have "valid_pdu (v2c_data ?m)"
    by (simp add: valid_v2_bindings golden_v2c_trap_def valid_varbinds_def valid_oid_def)
  ultimately have "decode_v2c D captured_v2c = Some ?m"
    using assms by (simp add: inverts_Ok)
  then show ?thesis
    using golden_builds(2)
    by (simp add: test_v2c_trap_matches_netsnmp_capture_byte_for_byte_def fixture_v2c
        golden_v2c_trap_def)
qed

definition test_v1_trap_matches_netsnmp_capture_byte_for_byte ::
  "(rstr \<Rightarrow> bytes option) \<Rightarrow> codec \<Rightarrow> decoder \<Rightarrow> bool"
where
  "test_v1_trap_matches_netsnmp_capture_byte_for_byte b64 cd D \<longleftrightarrow>
     (case load_fixture b64 netsnmp_v1_trap of
        Return captured \<Rightarrow>
          decode_v1 D captured \<noteq> None \<and> build_v1_trap cd golden_v1_trap = Ok captured
      | _ \<Rightarrow> False)"

definition test_v1_trap_decoded_fields_match_inputs :: "codec \<Rightarrow> decoder \<Rightarrow> bool" where
  "test_v1_trap_decoded_fields_match_inputs cd D \<longleftrightarrow>
     (case build_v1_trap cd golden_v1_trap of
        Ok our_bytes \<Rightarrow>
          (case decode_v1 D our_bytes of
             Some msg \<Rightarrow>
               (let trap = v1_data msg in
                v1_community msg = utf8 (lit ''public'')
                \<and> trap_generic trap = 6 \<and> trap_specific trap = 17 \<and> trap_time_stamp trap = 99999
                \<and> (case trap_agent_addr trap of Internet ip \<Rightarrow> ip = [10, 0, 0, 1])
                \<and> length (trap_bindings trap) = 1)
           | None \<Rightarrow> False)
      | Err _ \<Rightarrow> False)"

lemma golden_v1_valid: "valid_v1_trap golden_v1_trap"
  by (simp add: valid_v1_trap_def golden_v1_trap_def valid_varbinds_def valid_oid_def)

lemma captured_v1_decoded:
  assumes "inverts valid_v1 (decode_v1 D) (encode_v1 ber_codec)"
  obtains bs where "decode_v1 D captured_v1 = Some (v1_message ber_codec golden_v1_trap bs)"
    and "length bs = 1"
proof -
  obtain bs where "list_all2 (\<lambda>b w. make_v1_varbind (fst b) (snd b) = Ok w)
      (v1t_varbinds golden_v1_trap) bs" "valid_v1 (v1_message ber_codec golden_v1_trap bs)"
    "encode_v1 ber_codec (v1_message ber_codec golden_v1_trap bs) = Ok captured_v1"
    by (rule build_v1_Ok [OF golden_builds(1) golden_v1_valid])
  then show ?thesis
    using that assms by (auto simp: inverts_Ok golden_v1_trap_def list_all2_lengthD [symmetric])
qed

lemma v1_trap_matches_netsnmp_capture_byte_for_byte:
  assumes "inverts valid_v1 (decode_v1 D) (encode_v1 ber_codec)"
  shows "test_v1_trap_matches_netsnmp_capture_byte_for_byte b64_decode ber_codec D"
  by (rule captured_v1_decoded [OF assms])
    (simp add: test_v1_trap_matches_netsnmp_capture_byte_for_byte_def fixture_v1 golden_builds)

lemma v1_trap_decoded_fields_match_inputs:
  assumes "inverts valid_v1 (decode_v1 D) (encode_v1 ber_codec)"
  shows "test_v1_trap_decoded_fields_match_inputs ber_codec D"
  by (rule captured_v1_decoded [OF assms])
    (simp add: test_v1_trap_decoded_fields_match_inputs_def golden_builds v1_message_def,
     simp add: golden_v1_trap_def)

section \<open>The surface of the program\<close>

text \<open>What \<open>main\<close> writes to stderr and its exit status; stdout is the text \<open>clap\<close> prints.\<close>

definition program_args :: "string list \<Rightarrow> rstr list" where
  "program_args args = map lit (''snmptrap-rs'' # args)"

definition test_help_exits_zero_to_stdout :: "arg_parser \<Rightarrow> ('h, 'f) world \<Rightarrow> bool" where
  "test_help_exits_zero_to_stdout clap w \<longleftrightarrow>
     main (w\<lparr>w_argv := clap (program_args [''--help''])\<rparr>) = Return ([], 0)"

lemma help_exits_zero_to_stdout: "test_help_exits_zero_to_stdout reference_parse w"
  by (simp add: test_help_exits_zero_to_stdout_def main_def run_def parse_argv_def program_args_def running)

definition test_binary_version_exits_zero_to_stdout :: "arg_parser \<Rightarrow> ('h, 'f) world \<Rightarrow> bool" where
  "test_binary_version_exits_zero_to_stdout clap w \<longleftrightarrow>
     (case main (w\<lparr>w_argv := clap (program_args [''--binary-version''])\<rparr>) of
        Return (stderr, status) \<Rightarrow> status = 0 | _ \<Rightarrow> False)"

lemma binary_version_exits_zero_to_stdout: "test_binary_version_exits_zero_to_stdout reference_parse w"
  by (simp add: test_binary_version_exits_zero_to_stdout_def main_def run_def parse_argv_def
      program_args_def running)

section \<open>From the arguments to the octets\<close>

text \<open>The command lines of the captures, at a host that answers at once.\<close>

definition golden_args_v2c :: "rstr list" where
  "golden_args_v2c = program_args [''-v'', ''2c'', ''-c'', ''public'', ''10.0.0.1'', ''12345'',
     ''1.3.6.1.6.3.1.1.5.1'', ''1.3.6.1.4.1.8072.2.3.2.1'', ''i'', ''42'']"

definition golden_args_v1 :: "rstr list" where
  "golden_args_v1 = program_args [''-v'', ''1'', ''-c'', ''public'', ''10.0.0.1'',
     ''1.3.6.1.4.1.8072.2.3.0.1'', ''10.0.0.1'', ''6'', ''17'', ''99999'',
     ''1.3.6.1.4.1.8072.2.3.2.1'', ''i'', ''7'']"

definition golden_cli :: "snmp_version \<Rightarrow> string list \<Rightarrow> cli" where
  "golden_cli version args = \<lparr>cli_version = version, cli_community = lit ''public'', cli_retries = 0,
     cli_timeout = 1, cli_src_addr = None, cli_src_port = None, cli_debug_print_pdu = False,
     cli_security_level = None, cli_user_name = None, cli_auth_protocol = None,
     cli_auth_password = None, cli_priv_protocol = None, cli_priv_password = None,
     cli_context_engine_id = None, cli_authoritative_engine_id = None, cli_context_name = None,
     cli_agent = lit ''10.0.0.1'', cli_trap_args = map lit args\<rparr>"

definition golden_cli_v2c :: cli where
  "golden_cli_v2c = golden_cli V2c [''12345'', ''1.3.6.1.6.3.1.1.5.1'', ''1.3.6.1.4.1.8072.2.3.2.1'',
     ''i'', ''42'']"

definition golden_cli_v1 :: cli where
  "golden_cli_v1 = golden_cli V1 [''1.3.6.1.4.1.8072.2.3.0.1'', ''10.0.0.1'', ''6'', ''17'', ''99999'',
     ''1.3.6.1.4.1.8072.2.3.2.1'', ''i'', ''7'']"

lemma golden_parsed:
  "reference_parse golden_args_v2c = Ok golden_cli_v2c"
  "reference_parse golden_args_v1 = Ok golden_cli_v1"
  by (simp_all add: golden_args_v2c_def golden_args_v1_def program_args_def golden_cli_v2c_def
      golden_cli_v1_def golden_cli_def running)

lemma golden_validated:
  "validate golden_cli_v2c = Return (Ok golden_cli_v2c)"
  "validate golden_cli_v1 = Return (Ok golden_cli_v1)"
  by (simp_all add: golden_cli_v2c_def golden_cli_v1_def golden_cli_def running)

lemma golden_payloads:
  assumes "env_codec env = ber_codec"
  shows "env_request_id env 1 I32_MAX = 1172399486 \<Longrightarrow>
      build_payload env cell golden_cli_v2c dst = (Return (Ok captured_v2c), cell)"
    and "build_payload env cell golden_cli_v1 dst = (Return (Ok captured_v1), cell)"
proof -
  note cli = golden_cli_v2c_def golden_cli_v1_def golden_cli_def
  have "build_v1_payload env golden_cli_v1 dst
      = Return (build_v1_trap (env_codec env) golden_v1_trap)"
    by (simp add: build_v1_payload_def cli golden_v1_trap_def parse_trap_number_def running)
  then show "build_payload env cell golden_cli_v1 dst = (Return (Ok captured_v1), cell)"
    using golden_builds(1) by (simp add: build_payload_def assms) (simp add: cli)
  have "build_v2c_payload env golden_cli_v2c
      = Return (build_v2c_trap (env_codec env) (golden_v2c_trap (fresh_request_id (env_request_id env))))"
    by (simp add: cli golden_v2c_trap_def running)
  then show "build_payload env cell golden_cli_v2c dst = (Return (Ok captured_v2c), cell)"
    if "env_request_id env 1 I32_MAX = 1172399486"
    using golden_builds(2) that by (simp add: build_payload_def assms fresh_request_id_def) (simp add: cli)
qed

text \<open>A kernel that accepts the first datagram; then one datagram is sent, and nothing is printed.\<close>

lemma golden_run:
  assumes "w_argv w = Ok c" and "validate c = Return (Ok c)"
    and "c = golden_cli version args"
    and "fst (build_payload (w_env w) None c \<lparr>sa_ip = Ipv4 10 0 0 1, sa_port = 162\<rparr>) = Return (Ok out)"
    and "\<And>a. os_bind (w_udp w) a = Ok ()" and "\<And>p d. os_send_to (w_udp w) 0 p d = Ok ()"
  shows "main w = Return ([], 0)
    \<and> (\<exists>rep. run w None = Ran (Return rep) \<and> rep_result rep = Ok () \<and> rep_sent rep = [out])"
proof -
  have "unpriv_loop (w_udp w) p d 0 1 None = Some (Ok (), Suc 0)" for p d
    by (subst unpriv_loop.simps) (simp add: assms)
  then have "transmit w c d p = Return (Ok (), [p])" for d p
    by (simp add: transmit_def assms(3,5) golden_cli_def src_addr_v4_def unpriv_send_def)
  moreover have "resolve_agent (w_resolver w) c = Ok \<lparr>sa_ip = Ipv4 10 0 0 1, sa_port = 162\<rparr>"
    by (simp add: resolve_agent_def assms(3) golden_cli_def running)
  moreover have "pre_send_dump w c d p = []" for d p
    by (simp add: pre_send_dump_def assms(3) golden_cli_def)
  ultimately show ?thesis
    by (simp add: main_def run_def parse_argv_def run_cli_def assms(1,2,4) main_result_def)
qed

theorem golden_runs:
  fixes w :: "('h, 'f) world"
  assumes "env_codec (w_env w) = ber_codec" and "env_request_id (w_env w) 1 I32_MAX = 1172399486"
    and "\<And>a. os_bind (w_udp w) a = Ok ()" and "\<And>p d. os_send_to (w_udp w) 0 p d = Ok ()"
  shows "w_argv w = reference_parse golden_args_v2c \<Longrightarrow> main w = Return ([], 0)
      \<and> (\<exists>rep. run w None = Ran (Return rep) \<and> rep_result rep = Ok () \<and> rep_sent rep = [captured_v2c])"
    and "w_argv w = reference_parse golden_args_v1 \<Longrightarrow> main w = Return ([], 0)
      \<and> (\<exists>rep. run w None = Ran (Return rep) \<and> rep_result rep = Ok () \<and> rep_sent rep = [captured_v1])"
  using golden_run [OF _ golden_validated(1) golden_cli_v2c_def, of w captured_v2c]
    golden_run [OF _ golden_validated(2) golden_cli_v1_def, of w captured_v1]
    golden_payloads [OF assms(1)] assms
  by (simp_all add: golden_parsed)

end
