(* ===== verification/Spec2Isabelle.thy ===== *)
theory Spec2Isabelle
  imports Run Session Wire RawTests DebugTests UsmTests V3Tests HostTests GoldenTests
begin

text \<open>
  A model of \<open>snmptrap-rs\<close>, a program that sends one SNMP trap per invocation over SNMPv1,
  SNMPv2c or SNMPv3, from the host's own address or, with \<open>--src-addr\<close>, from a spoofed one.
  Definitions keep the names of the source; where a function is split, the parts are named
  after what they are part of. The development is closed under the release profile: 16- and
  32-bit additions wrap, and a field says whether \<open>debug_assert\<close> and overflow checks are on.

  \<^bold>\<open>How a run goes.\<close> \<open>src/main.rs\<close> calls \<open>run\<close> of \<open>src/lib.rs\<close>: the arguments are parsed and
  validated (\<open>cli.rs\<close>), the destination resolved, the payload built for the version asked for
  (\<open>lib.rs\<close> over \<open>varbind.rs\<close>, \<open>pdu.rs\<close>, \<open>v3.rs\<close>, \<open>usm.rs\<close>, \<open>engine.rs\<close>, \<open>helpers.rs\<close>), dumped
  to stderr on request (\<open>debug.rs\<close>), and handed to one of the two transports
  (\<open>transport/raw.rs\<close>, \<open>transport/unprivileged.rs\<close>). Every failure is a value of \<open>Error\<close>
  (\<open>error.rs\<close>), which decides the exit status.

  \<^bold>\<open>The theories.\<close>
  \<^item> \<open>Prelude\<close>: results, outcomes (\<open>Return\<close>, \<open>Panic\<close>, \<open>Diverge\<close>), the \<open>?\<close> operator as
    \<open>andthen\<close> and \<open>and_try\<close>, big-endian bytes, chunks; the collections \<open>layout\<close> and
    \<open>returning\<close>.
  \<^item> \<open>RustStd\<close>, \<open>Numbers\<close>, \<open>IpAddr\<close>: what the program uses of the standard library: strings as
    lists of code points with their UTF-8 bytes, trimming and splitting, number parsing and
    printing, IPv4 and IPv6 texts. They model the documented behaviour of \<open>std\<close>, not code of
    the repository, and have no entry in the map.
  \<^item> \<open>Errors\<close>: \<open>error.rs\<close> and the exit status of \<open>main.rs\<close>.
  \<^item> \<open>Checksum\<close>, \<open>RawPacket\<close>, \<open>RawTransport\<close>: \<open>transport/raw.rs\<close>; the locale
    \<open>checksum_field\<close> states what a checksum field promises a receiver and is interpreted on
    both headers. \<open>Unprivileged\<close>: \<open>transport/unprivileged.rs\<close>. \<open>RetryLoop\<close>: the locale
    \<open>retrying\<close> both send loops meet, with its specification \<open>attempts_spec\<close> and the step
    relation \<open>retry_step\<close> of the loop, which is shown to reach exactly what a loop returns.
  \<^item> \<open>Engine\<close>: \<open>engine.rs\<close>; the locale \<open>engine_format\<close> is interpreted on the four formats.
  \<^item> \<open>Varbind\<close>: \<open>varbind.rs\<close>. \<open>Pdu\<close>: \<open>pdu.rs\<close> and the message types its encoder takes.
  \<^item> \<open>Usm\<close>: \<open>usm.rs\<close>; the locale \<open>keyword_parser\<close> is interpreted on both protocol parsers
    here and on the two of \<open>Cli\<close>. \<open>V3\<close>: \<open>v3.rs\<close>. \<open>V3Message\<close>: what its receiver gets.
  \<^item> \<open>Wire\<close>: datagrams with the same octets ask for the same trap.
  \<^item> \<open>Cli\<close>: \<open>cli.rs\<close>. \<open>Helpers\<close>: \<open>helpers.rs\<close>. \<open>Debug\<close>: \<open>debug.rs\<close>. \<open>Payload\<close>: the payload
    builders of \<open>lib.rs\<close>. \<open>Session\<close>: many payloads in one process. \<open>Run\<close>: \<open>run\<close> and \<open>main\<close>.
  \<^item> \<open>Argv\<close>: the options \<open>cli.rs\<close> declares and a reference parser for them, an instance of the
    parameter that stands for the parser \<open>clap\<close> generates.
  \<^item> \<open>VarbindTests\<close>, \<open>EngineTests\<close>, \<open>UsmTests\<close>, \<open>PduTests\<close>, \<open>V3Tests\<close>, \<open>CliTests\<close>, \<open>RawTests\<close>,
    \<open>DebugTests\<close>, \<open>PayloadTests\<close>, \<open>HostTests\<close> over \<open>TestKit\<close>: 115 of the 119 unit tests of the
    source, each a predicate on the model with the lemma that it holds. They check the model
    against what its authors expect of the code; the properties do not rest on them.
    \<open>GoldenTests\<close>: the tests against captured messages and of the exit status, and two runs of
    the whole program from its arguments to the octets of a capture.
  \<^item> \<open>Ber\<close>: a reference encoder, an instance of the parameter that stands for the crate
    \<open>rasn\<close>; it models no code of the repository. With it the two captures of
    \<open>tests/fixtures/\<close> come out octet by octet. \<open>BerCode\<close>: it is unambiguous; the locale
    \<open>prefix_code\<close> is interpreted on its parts.

  \<^bold>\<open>State.\<close> The program is stateless but for the start of its clock (a \<open>OnceLock\<close> in
  \<open>process_uptime_seconds\<close>), which is passed explicitly as \<open>cell\<close>. A run is described by
  the report it leaves: result, datagrams handed to \<open>send_to\<close> in order, text on stderr.

  \<^bold>\<open>Parameters.\<close> Code that is not in the repository is an argument: the argument parser
  \<open>clap\<close> generates (its result), the BER encoder (\<open>codec\<close>), hash, HMAC and AES (\<open>crypto\<close>),
  the resolver, the sockets (\<open>udp_os\<close>, \<open>raw_os\<close>, with one answer per call), files, host name,
  clocks, \<open>f64\<close> parsing and scaling, random numbers. What the code relies on is stated as
  \<open>streaming_law\<close> (hashing in pieces is hashing the whole), \<open>size_law\<close> (digest, tag and
  ciphertext lengths), \<open>cipher_law\<close> (decryption inverts encryption), \<open>splice_law\<close> (BER
  keeps the bytes around an octet string of unchanged length) and \<open>unambiguous_law\<close> (BER tells
  messages with valid identifiers apart); \<open>sample_crypto\<close> and \<open>ber_codec\<close> satisfy them.

  \<^bold>\<open>What is shown.\<close> Messages: a receiver can verify every tag and decrypt every scoped PDU;
  keys are those of RFC 3414; payloads are built exactly from the command lines the grammar
  describes, with the bindings in order; what can be typed is what can be expressed, and parses
  back; the octets of a datagram determine the trap that was asked for. Validation: exactly the acceptable command lines, once and for all; after it nothing
  panics. Packets: lengths do not wrap and both checksums verify. Sending: both loops meet the
  same retry specification; they run for ever exactly when the kernel interrupts for ever.
  Runs: only the payload of a validated command line is sent, the exit status says what
  happened, the debug flag only shows.

  \<^bold>\<open>Loops and bounds.\<close> The two send loops and the digest loop may run for ever and are
  \<open>partial_function (option)\<close>; \<open>None\<close> is a run that does not end, and returning is proved as
  such; the send loops are also the step relation \<open>retry_step\<close>, with an invariant of every
  reachable state. The carry loop of the checksum is a \<open>function\<close> with a measure; its exactness needs data
  of at most 131072 octets, and a packet has at most 65535. All other recursions are
  structural. There is no fuel.

  \<^bold>\<open>Not modelled.\<close> The texts \<open>clap\<close> prints; decoding, which the program never does; timing
  (\<open>--timeout\<close> is accepted and unused in the source); memory limits; IPv6 addresses beyond
  recognising their texts; a panic or failure while printing to stderr. Of the unit tests, those
  that compare with published values of a hash function or draw random salts; the integration
  tests with \<open>snmptrapd\<close>. Build files and documents hold no program logic.
\<close>

section \<open>Payloads\<close>

text \<open>
  C2: For every command line that validation lets through, building the payload ends with a
  value: no assertion, no \<open>expect\<close>, no slice and no loop of the builders, of the key derivation
  or of the message assembly can panic or run for ever, in debug builds as in release builds,
  whatever the arguments are, as long as the crates keep their contracts and the uptime can be
  read without an overflow.
\<close>

lemma payload_always_returns:
  assumes "lawful_env env" and "uptime_available env"
    and "validate c0 = Return (Ok c)"
  shows "returns (fst (build_payload env cell c dst))"
  using assms by (auto simp: validate_result intro: build_payload_returns)

text \<open>A host with the reference encoder and the small cryptographic functions.\<close>

definition sample_env :: "(auth_protocol \<times> bytes, nat) env" where
  "sample_env = \<lparr>env_checks = True, env_crypto = sample_crypto, env_codec = ber_codec,
     env_floats = \<lparr>parse_f64 = (\<lambda>s. Ok (length s)), centi_as_u64 = of_nat\<rparr>,
     env_clocks = \<lparr>up_target = TargetLinux, proc_uptime = Ok (lit ''100.00 50.00''),
       boottime = Err (io_error_other []), timeofday = Err (io_error_other [])\<rparr>,
     env_egress = \<lparr>eg_bind = Ok (), eg_connect = (\<lambda>d. Ok ()), eg_local_addr = (\<lambda>d. Ok (SockV4 d))\<rparr>,
     env_host = sample_host, env_request_id = (\<lambda>lo hi. hi), env_msg_id = (\<lambda>lo hi. lo),
     env_salt = 5, env_instants = (0, 1)\<rparr>"

lemma sample_env_lawful: "lawful_env sample_env" "uptime_available sample_env"
  by (simp_all add: lawful_env_def sample_env_def uptime_available_def host_uptime_centiseconds_def)

lemma payload_always_returns_witness:
  "returns (fst (build_payload sample_env None (with_default_level sample_cli) sample_dst))"
  by (rule payload_always_returns [OF sample_env_lawful, of sample_cli])
    (simp add: validate_result sample_cli_acceptable)

text \<open>
  C12: An SNMPv3 payload is built exactly from a command line whose arguments are an uptime, an
  object identifier and bindings without the two the message adds, whose engine identifiers
  parse or come from the cascade, and whose level, user and passwords are there; it is the
  message with these arguments, keys localised to the authoritative engine, boots 1 and the
  seconds of the process clock.
\<close>

lemma v3_payload_exact:
  assumes "streaming_law (env_crypto env)" and "size_law (env_crypto env)"
  shows "fst (build_v3_payload env cell c) = Return (Ok out) \<longleftrightarrow>
     (\<exists>uptime trap_oid vbs a x level s.
        v2_arguments env (cli_trap_args c) uptime trap_oid vbs
        \<and> engine_ids_of env c a x
        \<and> cli_security_level c = Some level
        \<and> security_of (env_crypto env) (env_salt env) c a level s
        \<and> cli_user_name c \<noteq> None
        \<and> build_v3_trap_message (env_checks env) (env_crypto env) (env_codec env)
            (v3_message_of env c a x s uptime trap_oid vbs
               (fst (process_uptime_seconds (env_instants env) cell))) = Return (Ok out))"
  unfolding build_v3_payload_Ok v3_message_parts_Ok build_v3_security_Ok [OF assms] by blast

lemma sample_arguments:
  "v2_arguments sample_env [dec (unat (42 :: u32)), show_arcs [1, 3, 6, 1, 6, 3, 1, 1, 5, 1]]
     42 [1, 3, 6, 1, 6, 3, 1, 1, 5, 1] []"
  using parse_oid_show(1) [of "[1, 3, 6, 1, 6, 3, 1, 1, 5, 1]"] parse_u32_dec [of 42]
  by (simp add: v2_arguments_def parse_uptime_or_default_def valid_oid_def
      parse_trailing_varbinds_def del: show_arcs.simps)

definition sample_v3 :: cli where
  "sample_v3 = with_default_level (sample_cli\<lparr>cli_trap_args :=
     [dec (unat (42 :: u32)), show_arcs [1, 3, 6, 1, 6, 3, 1, 1, 5, 1]]\<rparr>)"

definition sample_v3_message :: "u32 \<Rightarrow> v3_trap_message" where
  "sample_v3_message = v3_message_of sample_env sample_v3 (resolve sample_host None None)
     (resolve sample_host None None) SecNoAuthNoPriv 42 [1, 3, 6, 1, 6, 3, 1, 1, 5, 1] []"

lemma sample_v3_fields:
  "cli_trap_args sample_v3 = [dec (unat (42 :: u32)), show_arcs [1, 3, 6, 1, 6, 3, 1, 1, 5, 1]]"
  "cli_security_level sample_v3 = Some NoAuthNoPriv" "cli_user_name sample_v3 \<noteq> None"
  "engine_ids_of sample_env sample_v3 (resolve sample_host None None) (resolve sample_host None None)"
  by (simp_all add: sample_v3_def with_default_level_def sample_cli_def effective_level_def
      engine_ids_of_def src_addr_v4_def sample_env_def del: show_arcs.simps)

lemma v3_payload_exact_witness:
  "\<exists>out. fst (build_v3_payload sample_env None sample_v3) = Return (Ok out)"
proof -
  have e: "env_crypto sample_env = sample_crypto" "env_codec sample_env = ber_codec"
    by (simp_all add: sample_env_def)
  let ?t = "fst (process_uptime_seconds (env_instants sample_env) None)"
  obtain out where "build_v3_trap_message (env_checks sample_env) sample_crypto ber_codec
      (sample_v3_message ?t) = Return (Ok out)"
    using ber_build_Ok [OF sample_sizes, of "sample_v3_message ?t" "env_checks sample_env"]
    by (auto simp: sample_v3_message_def v3_message_of_def)
  then show ?thesis
    using v3_payload_exact [of sample_env None sample_v3 out] sample_arguments sample_v3_fields
    unfolding e sample_v3_message_def by (metis sample_sizes sample_streaming security_of.simps(1))
qed

text \<open>
  C19: An SNMPv2c payload is built exactly from a command line whose arguments are an uptime, or
  the empty text for the uptime of the host, an object identifier and bindings without the two
  the message adds; it is the encoding of the message with the community, these two bindings
  first and the caller's after them in order.
\<close>

lemma v2c_payload_exact:
  "build_v2c_payload env c = Return (Ok out) \<longleftrightarrow>
     (\<exists>uptime trap_oid vbs. v2_arguments env (cli_trap_args c) uptime trap_oid vbs
        \<and> encode_v2c (env_codec env)
            \<lparr>v2c_version = version_v2c (env_codec env), v2c_community = utf8 (cli_community c),
             v2c_data = \<lparr>request_id = fresh_request_id (env_request_id env),
               error_status = no_error_status (env_codec env), error_index = 0,
               variable_bindings = v2_bindings uptime trap_oid vbs\<rparr>\<rparr> = Ok out)"
  unfolding build_v2c_payload_Ok build_v2c_message by simp

text \<open>
  C18: An SNMPv1 payload is built exactly from a command line whose arguments are an enterprise
  or the empty text for the default one, an agent address, a generic trap number of 0 to 6, a
  specific one that is not negative, an uptime and bindings; the agent address is the
  positional one, or for an empty text the spoofed source, or else the address the kernel
  would send from.
\<close>

lemma v1_payload_exact:
  "build_v1_payload env c dst = Return (Ok out) \<longleftrightarrow>
     (\<exists>enterprise agent generic specific uptime vbs.
        v1_arguments env (cli_trap_args c) (src_addr_v4 c) dst enterprise agent generic specific uptime vbs
        \<and> (if cli_trap_args c ! 1 \<noteq> [] then parse_ipv4 (cli_trap_args c ! 1) = Some agent
           else case src_addr_v4 c of
               Some src \<Rightarrow> agent = src
             | None \<Rightarrow> egress_ipv4_for (env_egress env) dst = Ok agent)
        \<and> build_v1_trap (env_codec env)
            \<lparr>v1t_community = utf8 (cli_community c), v1t_enterprise = enterprise,
             v1t_agent_addr = agent, v1t_generic = generic, v1t_specific = specific,
             v1t_uptime = uptime, v1t_varbinds = vbs\<rparr> = Ok out)"
proof -
  have a: "resolve_v1_agent_addr os p src d = Ok agent \<longleftrightarrow>
      (if p \<noteq> [] then parse_ipv4 p = Some agent
       else case src of Some s \<Rightarrow> agent = s | None \<Rightarrow> egress_ipv4_for os d = Ok agent)"
    for os p src d agent
    by (auto simp: resolve_v1_agent_addr_def split: option.splits)
  show ?thesis
    unfolding build_v1_payload_Ok v1_arguments_def a by blast
qed

text \<open>
  C14: The bindings a command line can give are exactly the lists of valid identifiers with
  expressible values, of any length: each has a spelling in triplets that parses back to it, and
  nothing else is ever parsed.
\<close>

lemma trailing_bindings_roundtrip:
  "(\<exists>rest. parse_trailing_varbinds rest = Return (Ok vbs)) = list_all expressible_binding vbs
   \<and> (parse_trailing_varbinds (concat (map spell_binding vbs)) = Return (Ok vbs))
       = list_all expressible_binding vbs"
  using parse_trailing_expressible [of _ vbs] parse_spelled_bindings [of vbs]
  by (auto simp: list_all_iff)

text \<open>
  C17: An SNMPv1 or SNMPv2c datagram says everything: two command lines of one version whose
  payloads are the same octets, on whatever hosts and at whatever times, have the same community
  and ask for the same trap, with the same agent address, trap numbers, uptime and identifier
  and the same bindings in the same order. In SNMPv2c only whether octets were given as BITS or
  as a string is lost. The encoder is asked for no more than to tell messages apart whose
  identifiers obey X.660; what the parsers let through always does.
\<close>

lemma datagrams_unambiguous:
  assumes "unambiguous_law (env_codec env)" and "env_codec env' = env_codec env"
    and "fst (build_payload env cell c dst) = Return (Ok out)"
    and "fst (build_payload env' cell' c' dst') = Return (Ok out)"
    and "cli_version c' = cli_version c"
  shows "case cli_version c of
      V1 \<Rightarrow> utf8 (cli_community c) = utf8 (cli_community c') \<and> same_v1_request env c dst env' c' dst'
    | V2c \<Rightarrow> utf8 (cli_community c) = utf8 (cli_community c') \<and> same_v2c_request env c env' c'
    | V3 \<Rightarrow> True"
  using assms v1_payload_unambiguous [OF assms(1,2), of c dst out c' dst']
    v2c_payload_unambiguous [OF assms(1,2), of c out c']
  by (cases "cli_version c") (simp_all add: build_payload_def)

section \<open>Sessions\<close>

text \<open>
  C34: In every process that builds SNMPv3 messages one after the other, refused command lines
  among them, the engine times of the messages never decrease and stay below 2 to the 31, so
  that their encoding has no sign bit, and the boots are 1; and the time of a first message is
  0 unless its own two clock readings are a second apart.
\<close>

lemma session_times:
  assumes "session lib now cell ms"
  shows "sorted (map (\<lambda>m. unat (m_engine_time m)) ms)
    \<and> list_all (\<lambda>m. unat (m_engine_time m) < 2 ^ 31 \<and> m_engine_boots m = 1) ms
    \<and> (cell = None) = (ms = [])
    \<and> (snd inst - fst inst < 1000000000 \<longrightarrow> fst (process_uptime_seconds inst None) = 0)"
proof -
  have "unat (m_engine_time m) < 2 ^ 31" if "unat (m_engine_time m) \<le> whole_seconds s now" for m s
    using that by (simp add: whole_seconds_def)
  then have "sorted (map (\<lambda>m. unat (m_engine_time m)) ms)
    \<and> list_all (\<lambda>m. unat (m_engine_time m) < 2 ^ 31 \<and> m_engine_boots m = 1) ms
    \<and> (cell = None) = (ms = [])"
    using session_invariant [OF assms]
    by (cases cell) (auto simp: session_ok_def list_all_iff)
  moreover have "snd inst - fst inst < 1000000000 \<longrightarrow> fst (process_uptime_seconds inst None) = 0"
    by (simp add: process_uptime_seconds_def Let_def)
  ultimately show ?thesis by blast
qed

lemma session_times_witness:
  "\<exists>ms. session sample_env 1 (Some 0) ms \<and> ms \<noteq> []
     \<and> list_all (\<lambda>m. unat (m_engine_time m) < 2 ^ 31 \<and> m_engine_boots m = 1) ms"
proof -
  have p: "v3_message_parts sample_env sample_v3 = Return (Ok sample_v3_message)"
    unfolding v3_message_parts_Ok sample_v3_message_def
    using sample_arguments sample_v3_fields by (fastforce simp: build_v3_security_def)
  obtain r cell' where b: "build_v3_payload sample_env None sample_v3 = (r, cell')"
    by (cases "build_v3_payload sample_env None sample_v3")
  have "cell' = Some 0"
    using build_v3_payload_cell [OF b] p
    by (simp add: sample_env_def process_uptime_seconds_def Let_def)
  moreover have "session sample_env 1 cell'
      ([] @ [sample_v3_message (fst (process_uptime_seconds (0, 1) None))])"
    by (rule session.built [OF session.nothing_built [of sample_env 0] _ _ _ _ p b])
      (simp_all add: same_crates_def sample_env_def)
  ultimately have s: "session sample_env 1 (Some 0) [sample_v3_message (fst (process_uptime_seconds (0, 1) None))]"
    by simp
  from session_times [OF s, of "(0, 0)"] s show ?thesis by blast
qed

section \<open>Runs\<close>

text \<open>A host that sends an SNMPv2c trap to an address over the ordinary socket.\<close>

definition sample_v2c :: cli where
  "sample_v2c = \<lparr>cli_version = V2c, cli_community = lit ''public'', cli_retries = 0, cli_timeout = 1,
     cli_src_addr = None, cli_src_port = None, cli_debug_print_pdu = True,
     cli_security_level = None, cli_user_name = None, cli_auth_protocol = None,
     cli_auth_password = None, cli_priv_protocol = None, cli_priv_password = None,
     cli_context_engine_id = None, cli_authoritative_engine_id = None, cli_context_name = None,
     cli_agent = show_ipv4 (Ipv4 192 0 2 50),
     cli_trap_args = [dec (unat (42 :: u32)), show_arcs [1, 3, 6, 1, 6, 3, 1, 1, 5, 1]]\<rparr>"

definition sample_world :: "(auth_protocol \<times> bytes, nat) world" where
  "sample_world = \<lparr>w_env = sample_env, w_argv = Ok sample_v2c, w_resolver = (\<lambda>h p. Ok []),
     w_stderr = (\<lambda>n t. Ok ()), w_target = sample_linux, w_raw = sample_raw_os,
     w_udp = sample_udp_os\<rparr>"

lemma sample_v2c_valid: "validate sample_v2c = Return (Ok sample_v2c)"
  by (simp add: validate_result acceptable_def no_v3_flags_def with_default_level_def sample_v2c_def)

lemma sample_v2c_payload: "\<exists>out. build_v2c_payload sample_env sample_v2c = Return (Ok out)"
proof -
  have "v2_arguments sample_env (cli_trap_args sample_v2c) 42 [1, 3, 6, 1, 6, 3, 1, 1, 5, 1] []"
    using sample_arguments by (simp add: sample_v2c_def del: show_arcs.simps)
  then show ?thesis
    unfolding build_v2c_payload_Ok build_v2c_message
    by (auto simp: sample_env_def ber_codec_def)
qed

lemma sample_run:
  "\<exists>out rep. fst (build_payload sample_env None sample_v2c dst) = Return (Ok out)
     \<and> run sample_world None = Ran (Return rep) \<and> rep_result rep = Ok () \<and> rep_sent rep = [out, out]"
proof -
  from sample_v2c_payload obtain out where out: "build_v2c_payload sample_env sample_v2c = Return (Ok out)"
    by blast
  then have p: "fst (build_payload sample_env None sample_v2c d) = Return (Ok out)" for d
    by (simp add: build_payload_def sample_v2c_def)
  have "resolve_agent r sample_v2c = Ok \<lparr>sa_ip = Ipv4 192 0 2 50, sa_port = 162\<rparr>" for r
    using resolve_literal(1) [of r "Ipv4 192 0 2 50"]
    by (simp add: resolve_agent_def sample_v2c_def del: show_ipv4.simps)
  moreover have "transmit sample_world sample_v2c d out = Return (Ok (), [out, out])" for d
    using sample_unpriv_send [of d out]
    by (simp add: transmit_def src_addr_v4_def sample_v2c_def sample_world_def)
  ultimately have "\<exists>rep. run sample_world None = Ran (Return rep) \<and> rep_result rep = Ok ()
      \<and> rep_sent rep = [out, out]"
    using p by (simp add: run_def parse_argv_def run_cli_def sample_v2c_valid sample_world_def)
  with p show ?thesis by blast
qed

lemma datagrams_unambiguous_witness:
  "\<exists>out. fst (build_payload sample_env None sample_v2c sample_dst) = Return (Ok out)
     \<and> fst (build_payload sample_env None (sample_v2c\<lparr>cli_community := [112]\<rparr>) sample_dst)
         \<noteq> Return (Ok out)"
proof -
  obtain out where out: "fst (build_payload sample_env None sample_v2c sample_dst) = Return (Ok out)"
    using sample_run by blast
  have "utf8 [112] \<noteq> utf8 (cli_community sample_v2c)"
    by (simp add: sample_v2c_def utf8_def utf8_char_def lit_def)
  then show ?thesis
    using out datagrams_unambiguous [of sample_env sample_env None sample_v2c sample_dst out None
        "sample_v2c\<lparr>cli_community := [112]\<rparr>" sample_dst] ber_unambiguous
    by (auto simp: sample_env_def sample_v2c_def)
qed

text \<open>
  C3: Nothing is ever sent but the payload of a command line that passed validation, to the
  destination it names: every datagram a run hands to the kernel is that payload as it is, or,
  exactly when a source address was given, a packet from that address to the destination with
  the payload after its 28 octets of headers. Spoofing never falls back to the ordinary socket.
\<close>

lemma sent_is_payload:
  assumes "run w cell = Ran (Return rep)" and "d \<in> set (rep_sent rep)"
  shows "\<exists>c0 c dst payload. w_argv w = Ok c0 \<and> validate c0 = Return (Ok c) \<and> acceptable c
    \<and> resolve_agent (w_resolver w) c = Ok dst
    \<and> fst (build_payload (w_env w) cell c dst) = Return (Ok payload)
    \<and> (case cli_src_addr c of
         None \<Rightarrow> d = payload
       | Some s \<Rightarrow> (\<exists>src. parse_ipv4 s = Some src \<and> drop 28 d = payload
           \<and> take 4 (drop 12 d) = octets src \<and> take 4 (drop 16 d) = octets (sa_ip dst)))"
proof -
  from run_report [OF assms(1)] assms(2) obtain c dst payload where
    s: "sends w cell c dst payload rep" by auto
  then obtain c0 where c0: "w_argv w = Ok c0" "validate c0 = Return (Ok c)" by (auto simp: sends_def)
  then have a: "acceptable c" by (auto simp: validate_result acceptable_default)
  from s have "delivers c dst payload d"
    using transmit_delivers assms(2) by (auto simp: sends_def)
  then have "case cli_src_addr c of
         None \<Rightarrow> d = payload
       | Some s \<Rightarrow> (\<exists>src. parse_ipv4 s = Some src \<and> drop 28 d = payload
           \<and> take 4 (drop 12 d) = octets src \<and> take 4 (drop 16 d) = octets (sa_ip dst))"
    using a by (auto simp: delivers_def src_addr_v4_def acceptable_def split: option.splits)
  with s c0 a show ?thesis unfolding sends_def by blast
qed

lemma sent_is_payload_witness:
  "\<exists>rep d c dst payload. run sample_world None = Ran (Return rep) \<and> d \<in> set (rep_sent rep)
     \<and> fst (build_payload (w_env sample_world) None c dst) = Return (Ok payload) \<and> acceptable c"
proof -
  obtain out rep where r: "run sample_world None = Ran (Return rep)" "rep_sent rep = [out, out]"
    using sample_run [of sample_dst] by blast
  then have "out \<in> set (rep_sent rep)" by simp
  from sent_is_payload [OF r(1) this] r(1) this show ?thesis by blast
qed

text \<open>
  C9: The exit status tells what happened: 0 only for a request for help or the version, or
  when the kernel accepted the last datagram of the run; 2 only for a usage error, and then
  nothing was sent; there is no other status but 1.
\<close>

lemma exit_status_exact:
  assumes "main w = Return (text, code)"
  shows "code \<in> {0, 1, 2}
    \<and> (code = 0 \<longrightarrow>
         (\<exists>k t. w_argv w = Err (k, t) \<and> k \<in> {DisplayHelp, DisplayVersion} \<and> text = [])
         \<or> (\<exists>rep c dst payload. run w None = Ran (Return rep) \<and> sends w None c dst payload rep
              \<and> accepted w c dst (rep_sent rep)))
    \<and> (code = 2 \<longrightarrow> (\<exists>rep m. run w None = Ran (Return rep) \<and> rep_result rep = Err (Usage m)
         \<and> rep_sent rep = []))"
proof (cases "run w None")
  case (Exited x)
  then have "\<exists>k t. w_argv w = Err (k, t) \<and> k \<in> {DisplayHelp, DisplayVersion}" "x = 0"
    by (auto simp: run_def parse_argv_def split: result.splits prod.splits if_splits)
  with assms Exited show ?thesis by (auto simp: main_def)
next
  case (Ran m)
  with assms obtain rep where rep: "m = Return rep"
    and "(case main_result (rep_result rep) of (t, x) \<Rightarrow> (rep_stderr rep @ t, x)) = (text, code)"
    by (auto simp: main_def)
  then have r: "snd (main_result (rep_result rep)) = code" by (auto split: prod.splits)
  note report = run_report [OF Ran [unfolded rep]]
  show ?thesis
  proof (cases "rep_result rep")
    case (Ok u)
    with r have "code = 0" by (simp add: main_result_def)
    moreover from report Ok obtain c dst payload where s: "sends w None c dst payload rep" by auto
    then have "accepted w c dst (rep_sent rep)"
      using Ok transmit_accepted by (auto simp: sends_def)
    with Ran rep s have "\<exists>rep c dst payload. run w None = Ran (Return rep)
        \<and> sends w None c dst payload rep \<and> accepted w c dst (rep_sent rep)" by blast
    ultimately show ?thesis by simp
  next
    case (Err e)
    with r have code: "code = (if \<exists>m. e = Usage m then 2 else 1)"
      by (simp add: main_result_def exit_code_cases)
    have "rep_sent rep = []" if "e = Usage m" for m
      using report Err that transmit_usage by (auto simp: sends_def)
    with code Err Ran rep show ?thesis by auto
  qed
qed

lemma exit_status_exact_witness:
  "\<exists>text. main sample_world = Return (text, 0)
     \<and> (\<exists>rep c dst payload. sends sample_world None c dst payload rep
          \<and> accepted sample_world c dst (rep_sent rep))"
proof -
  obtain rep where "run sample_world None = Ran (Return rep)" "rep_result rep = Ok ()"
    using sample_run [of sample_dst] by blast
  then have m: "main sample_world = Return (rep_stderr rep, 0)"
    by (simp add: main_def main_result_def)
  from exit_status_exact [OF m] m show ?thesis by (auto simp: sample_world_def)
qed

text \<open>
  C35: The debug flag and the error stream only show: the result of a run and the datagrams it
  sends are the same with and without the flag, whatever the stream does with the dump.
\<close>

lemma debug_is_observation:
  "map_outcome (\<lambda>rep. (rep_result rep, rep_sent rep))
       (run_cli (w\<lparr>w_stderr := e\<rparr>) cell (c\<lparr>cli_debug_print_pdu := b\<rparr>))
     = map_outcome (\<lambda>rep. (rep_result rep, rep_sent rep)) (run_cli w cell c)"
proof -
  have p: "build_payload env cell (c\<lparr>cli_debug_print_pdu := b\<rparr>) dst = build_payload env cell c dst"
    for env :: "('a, 'b) env" and dst
  proof -
    have s: "build_v3_security env (c\<lparr>cli_debug_print_pdu := b\<rparr>) level a = build_v3_security env c level a"
      for level a
      by (cases level) (simp_all add: build_v3_security_def auth_proto_def priv_proto_def
          derive_auth_key_def)
    have "v3_message_parts env (c\<lparr>cli_debug_print_pdu := b\<rparr>) = v3_message_parts env c"
      by (simp add: v3_message_parts_def s src_addr_v4_def
          cong del: if_weak_cong let_weak_cong option.case_cong_weak)
    then show ?thesis
      by (cases "cli_version c") (simp_all add: build_payload_def build_v1_payload_def
          build_v2c_payload_def build_v3_payload_def src_addr_v4_def
          cong del: if_weak_cong let_weak_cong option.case_cong_weak)
  qed
  have t: "transmit (w\<lparr>w_stderr := e\<rparr>) (c\<lparr>cli_debug_print_pdu := b\<rparr>) dst payload
      = transmit w c dst payload" for dst payload
    by (simp add: transmit_def src_addr_v4_def cong del: option.case_cong_weak)
  have r: "resolve_agent dns (c\<lparr>cli_debug_print_pdu := b\<rparr>) = resolve_agent dns c" for dns
    by (simp add: resolve_agent_def)
  show ?thesis
  proof (cases "resolve_agent (w_resolver w) c")
    case (Ok dst)
    show ?thesis
    proof (cases "fst (build_payload (w_env w) cell c dst)")
      case (Return x)
      with Ok show ?thesis
        by (cases x; cases "transmit w c dst (the (to_option x))")
          (simp_all add: run_cli_def p t r split_beta)
    qed (simp_all add: run_cli_def p r Ok)
  qed (simp add: run_cli_def r)
qed

text \<open>
  C8: The program always ends when its surroundings do their part: the crates keep their
  contracts, the uptime can be read, and the kernel does not interrupt the calls of one send
  for ever. Then \<open>main\<close> returns an exit status, whatever the command line, the resolver and
  the arguments are.
\<close>

lemma main_returns:
  assumes "lawful_env (w_env w)" and "uptime_available (w_env w)"
    and "\<And>payload dst i. \<exists>j \<ge> i. \<not> interrupted (os_send_to (w_udp w) j payload dst)"
    and "\<And>P dst i. \<exists>j \<ge> i. \<not> interrupted (ros_send_to (w_raw w) j (P j) dst)"
  shows "returns (main w)"
proof -
  have t: "returns (transmit w c dst payload)" for c dst payload
    using unpriv_send_fair [OF assms(3)] send_spoofed_fair [OF assms(4)]
    by (simp add: transmit_def split: option.splits)
  have r: "returns (run_cli w None c)" if "validate c0 = Return (Ok c)" for c0 c
  proof (cases "resolve_agent (w_resolver w) c")
    case (Ok dst)
    have "returns (fst (build_payload (w_env w) None c dst))"
      using that build_payload_returns [OF assms(1,2), of c0] by (auto simp: validate_result)
    then obtain x where x: "fst (build_payload (w_env w) None c dst) = Return x"
      by (auto simp: returns_def)
    show ?thesis
    proof (cases x)
      case (Ok payload)
      with x t [of c dst payload] \<open>resolve_agent (w_resolver w) c = Ok dst\<close> show ?thesis
        by (auto simp: run_cli_def returns_def split_beta)
    qed (simp add: run_cli_def x Ok)
  qed (simp add: run_cli_def)
  show ?thesis
  proof (cases "w_argv w")
    case (Err e)
    then show ?thesis by (cases e) (simp add: main_def run_def parse_argv_def)
  next
    case (Ok c0)
    obtain x where x: "validate c0 = Return x"
      using validate_returns_always [of c0] by (auto simp: returns_def)
    with r [of c0] Ok show ?thesis
      by (cases x) (simp_all add: main_def run_def parse_argv_def)
  qed
qed

lemma main_returns_witness: "returns (main sample_world)"
proof (rule main_returns)
  show "lawful_env (w_env sample_world)" "uptime_available (w_env sample_world)"
    using sample_env_lawful by (simp_all add: sample_world_def)
  show "\<exists>j \<ge> i. \<not> interrupted (os_send_to (w_udp sample_world) j payload dst)" for payload dst i
    by (intro exI [of _ "Suc i"]) (simp add: sample_world_def sample_udp_os_def)
  show "\<exists>j \<ge> i. \<not> interrupted (ros_send_to (w_raw sample_world) j (P j) dst)" for P dst i
    by (intro exI [of _ i]) (simp add: sample_world_def sample_raw_os_def)
qed

end
